theory Spec2Isabelle
  imports Complex_Main "HOL-Library.Word" "HOL-Library.Monad_Syntax"
begin

section \<open>Go strings as byte lists\<close>

text \<open>
  A Go \<^verbatim>\<open>string\<close> is an immutable byte sequence: \<^verbatim>\<open>len\<close> counts bytes and
  \<^verbatim>\<open>s[i:j]\<close> slices bytes. The model uses \<^typ>\<open>string\<close>, whose characters are bytes.
\<close>

definition strings_Repeat :: "string \<Rightarrow> nat \<Rightarrow> string" where
  "strings_Repeat s count = concat (replicate count s)"

definition strings_HasPrefix :: "string \<Rightarrow> string \<Rightarrow> bool" where
  "strings_HasPrefix s pre = (take (length pre) s = pre)"

fun strings_Contains :: "string \<Rightarrow> string \<Rightarrow> bool" where
  "strings_Contains [] substr = (substr = [])"
| "strings_Contains (c # cs) substr =
     (strings_HasPrefix (c # cs) substr \<or> strings_Contains cs substr)"

text \<open>
  \<^verbatim>\<open>strings.ToLower\<close> on the ASCII range. HTTP header names are ASCII tokens; bytes
  outside \<^verbatim>\<open>A-Z\<close> are kept as they are.
\<close>

definition lower_byte :: "char \<Rightarrow> char" where
  "lower_byte c =
     (case map_of (zip ''ABCDEFGHIJKLMNOPQRSTUVWXYZ'' ''abcdefghijklmnopqrstuvwxyz'') c of
        Some l \<Rightarrow> l
      | None \<Rightarrow> c)"

definition strings_ToLower :: "string \<Rightarrow> string" where
  "strings_ToLower s = map lower_byte s"

section \<open>Masking (store.go, plugin.go)\<close>

text \<open>\<^verbatim>\<open>MaskAPIKey\<close>: first and last two bytes shown, the middle starred.\<close>

definition MaskAPIKey :: "string \<Rightarrow> string" where
  "MaskAPIKey key =
     (if length key \<le> 4 then strings_Repeat ''*'' (length key)
      else take 2 key @ strings_Repeat ''*'' (length key - 4) @ drop (length key - 2) key)"

definition sensitivePatterns :: "string list" where
  "sensitivePatterns =
     [''authorization'', ''x-api-key'', ''api-key'', ''x-goog-api-key'',
      ''cookie'', ''set-cookie'', ''x-management-key'']"

definition isSensitiveHeader :: "string \<Rightarrow> bool" where
  "isSensitiveHeader key =
     list_ex (\<lambda>pattern. strings_Contains (strings_ToLower key) pattern) sensitivePatterns"

definition maskValue :: "string \<Rightarrow> string" where
  "maskValue v =
     (if length v \<le> 8 then strings_Repeat ''*'' (length v)
      else take 4 v @ ''...'' @ drop (length v - 4) v)"

text \<open>
  \<^verbatim>\<open>http.Header\<close> is \<^verbatim>\<open>map[string][]string\<close>. \<^verbatim>\<open>captureHeadersBestEffort\<close> keeps the
  first value of every key that has one and masks it when the key is sensitive.
\<close>

type_synonym http_Header = "string \<rightharpoonup> string list"

definition captureHeadersBestEffort :: "http_Header \<Rightarrow> (string \<rightharpoonup> string)" where
  "captureHeadersBestEffort headers =
     (\<lambda>key. case headers key of
        None \<Rightarrow> None
      | Some values \<Rightarrow>
          (case values of
             [] \<Rightarrow> None
           | v # _ \<Rightarrow> Some (if isSensitiveHeader key then maskValue v else v)))"

subsection \<open>strings.TrimSpace\<close>

text \<open>
  \<^verbatim>\<open>strings.TrimSpace\<close> (and \<^verbatim>\<open>bytes.TrimSpace\<close>) removes leading and trailing runes for
  which \<^verbatim>\<open>unicode.IsSpace\<close> holds. On bytes these are exactly the UTF-8 encodings below:
  the six ASCII spaces, U+0085, U+00A0, U+1680, U+2000 to U+200A, U+2028, U+2029, U+202F,
  U+205F and U+3000. An invalid byte decodes to U+FFFD, which is not a space.
\<close>

definition space_runes :: "string list" where
  "space_runes =
     [[CHR 0x09], [CHR 0x0A], [CHR 0x0B], [CHR 0x0C], [CHR 0x0D], [CHR 0x20],
      [CHR 0xC2, CHR 0x85], [CHR 0xC2, CHR 0xA0],
      [CHR 0xE1, CHR 0x9A, CHR 0x80],
      [CHR 0xE2, CHR 0x80, CHR 0x80], [CHR 0xE2, CHR 0x80, CHR 0x81],
      [CHR 0xE2, CHR 0x80, CHR 0x82], [CHR 0xE2, CHR 0x80, CHR 0x83],
      [CHR 0xE2, CHR 0x80, CHR 0x84], [CHR 0xE2, CHR 0x80, CHR 0x85],
      [CHR 0xE2, CHR 0x80, CHR 0x86], [CHR 0xE2, CHR 0x80, CHR 0x87],
      [CHR 0xE2, CHR 0x80, CHR 0x88], [CHR 0xE2, CHR 0x80, CHR 0x89],
      [CHR 0xE2, CHR 0x80, CHR 0x8A],
      [CHR 0xE2, CHR 0x80, CHR 0xA8], [CHR 0xE2, CHR 0x80, CHR 0xA9],
      [CHR 0xE2, CHR 0x80, CHR 0xAF], [CHR 0xE2, CHR 0x81, CHR 0x9F],
      [CHR 0xE3, CHR 0x80, CHR 0x80]]"

function strip_leading :: "string list \<Rightarrow> string \<Rightarrow> string" where
  "strip_leading pats s =
     (case find (\<lambda>p. p \<noteq> [] \<and> strings_HasPrefix s p) pats of
        Some p \<Rightarrow> strip_leading pats (drop (length p) s)
      | None \<Rightarrow> s)"
  by pat_completeness auto
termination
proof (relation "measure (\<lambda>(pats, s). length s)")
  show "wf (measure (\<lambda>(pats, s). length s))" by simp
next
  fix pats :: "string list" and s p :: string
  assume "find (\<lambda>p. p \<noteq> [] \<and> strings_HasPrefix s p) pats = Some p"
  then have "p \<noteq> [] \<and> strings_HasPrefix s p"
    by (auto simp: find_Some_iff)
  then have "p \<noteq> []" and "take (length p) s = p"
    by (simp_all add: strings_HasPrefix_def)
  then have "s \<noteq> []" by auto
  then show "((pats, drop (length p) s), (pats, s)) \<in> measure (\<lambda>(pats, s). length s)"
    using \<open>p \<noteq> []\<close> by simp
qed

definition TrimLeftSpace :: "string \<Rightarrow> string" where
  "TrimLeftSpace s = strip_leading space_runes s"

definition TrimRightSpace :: "string \<Rightarrow> string" where
  "TrimRightSpace s = rev (strip_leading (map rev space_runes) (rev s))"

definition strings_TrimSpace :: "string \<Rightarrow> string" where
  "strings_TrimSpace s = TrimRightSpace (TrimLeftSpace s)"

subsection \<open>Decimal rendering (\<^verbatim>\<open>%d\<close>)\<close>

fun nat_digits :: "nat \<Rightarrow> string" where
  "nat_digits n =
     (if n < 10 then [''0123456789'' ! n]
      else nat_digits (n div 10) @ [''0123456789'' ! (n mod 10)])"

definition itoa :: "int \<Rightarrow> string" where
  "itoa i = (if i < 0 then ''-'' @ nat_digits (nat (- i)) else nat_digits (nat i))"

section \<open>Time (Go's \<^verbatim>\<open>time\<close> package, as far as the code uses it)\<close>

text \<open>
  A \<^verbatim>\<open>time.Time\<close> is an instant together with a location. The model keeps the instant
  as nanoseconds since the Unix epoch and the location as its offset east of UTC in
  seconds. The process's local zone is taken to have one constant offset \<open>tz\<close>, passed
  to every function that calls \<^verbatim>\<open>time.Unix\<close> or \<^verbatim>\<open>Time.Local\<close>.
  A \<^verbatim>\<open>time.Duration\<close> is a number of nanoseconds.
\<close>

record Time =
  unixNano :: int
  zoneOffset :: int

definition Second :: int where "Second = 1000000000"
definition Minute :: int where "Minute = 60 * Second"
definition Hour :: int where "Hour = 60 * Minute"

text \<open>The zero \<^verbatim>\<open>Time\<close> is January 1, year 1, 00:00:00 UTC.\<close>

definition zeroUnixNano :: int where
  "zeroUnixNano = - 62135596800 * Second"

definition zeroTime :: Time where
  "zeroTime = \<lparr>unixNano = zeroUnixNano, zoneOffset = 0\<rparr>"

definition IsZero :: "Time \<Rightarrow> bool" where
  "IsZero t = (unixNano t = zeroUnixNano)"

definition After :: "Time \<Rightarrow> Time \<Rightarrow> bool" where
  "After t u = (unixNano u < unixNano t)"

definition Add :: "Time \<Rightarrow> int \<Rightarrow> Time" where
  "Add t d = t\<lparr>unixNano := unixNano t + d\<rparr>"

definition minDuration :: int where "minDuration = - (2 ^ 63)"
definition maxDuration :: int where "maxDuration = 2 ^ 63 - 1"

text \<open>\<^verbatim>\<open>t.Sub(u)\<close> saturates at the ends of the 64-bit range of a duration.\<close>

definition Sub :: "Time \<Rightarrow> Time \<Rightarrow> int" where
  "Sub t u =
     (let d = unixNano t - unixNano u
      in if minDuration \<le> d \<and> d \<le> maxDuration then d
         else if unixNano t < unixNano u then minDuration
         else maxDuration)"

text \<open>\<^verbatim>\<open>t.Truncate(d)\<close> rounds down to a multiple of \<open>d\<close> since the zero time.\<close>

definition Truncate :: "Time \<Rightarrow> int \<Rightarrow> Time" where
  "Truncate t d =
     (if d \<le> 0 then t
      else Add t (- ((unixNano t - zeroUnixNano) mod d)))"

definition time_Unix :: "int \<Rightarrow> int \<Rightarrow> Time" where
  "time_Unix tz sec = \<lparr>unixNano = sec * Second, zoneOffset = tz\<rparr>"

definition Local :: "int \<Rightarrow> Time \<Rightarrow> Time" where
  "Local tz t = t\<lparr>zoneOffset := tz\<rparr>"

subsection \<open>The civil calendar\<close>

text \<open>
  Days since 1970-01-01 to and from a date in the proleptic Gregorian calendar. Years
  are counted from March, so that the leap day is the last day of a year;
  \<open>year_start y\<close> is the number of days from 0000-03-01 to the first of March of year
  \<open>y\<close>. The year of a day is found from an estimate that is off by at most one.
\<close>

definition year_start :: "int \<Rightarrow> int" where
  "year_start y = 365 * y + y div 4 - y div 100 + y div 400"

definition days_from_civil :: "int \<Rightarrow> int \<Rightarrow> int \<Rightarrow> int" where
  "days_from_civil y m d =
     (let y' = (if m \<le> 2 then y - 1 else y);
          mp = (m + 9) mod 12;
          doy = (153 * mp + 2) div 5 + d - 1
      in year_start y' + doy - 719468)"

definition civil_from_days :: "int \<Rightarrow> int \<times> int \<times> int" where
  "civil_from_days z =
     (let z' = z + 719468;
          y0 = (400 * z') div 146097;
          y = (if year_start (y0 + 1) \<le> z' then y0 + 1
               else if z' < year_start y0 then y0 - 1
               else y0);
          doy = z' - year_start y;
          mp = (5 * doy + 2) div 153;
          d = doy - (153 * mp + 2) div 5 + 1;
          m = (if mp < 10 then mp + 3 else mp - 9)
      in (if m \<le> 2 then y + 1 else y, m, d))"

text \<open>The two conversions are inverse to each other on every day.\<close>

lemma div_bounds:
  fixes a b :: int
  assumes "0 < b"
  shows "b * (a div b) \<le> a" and "a < b * (a div b) + b"
proof -
  have e: "b * (a div b) + a mod b = a" by simp
  have "0 \<le> a mod b" "a mod b < b" using assms by simp_all
  with e show "b * (a div b) \<le> a" and "a < b * (a div b) + b" by linarith+
qed

lemma year_start_bounds:
  "400 * year_start y < 146097 * y + 400" "146097 * y - 800 < 400 * year_start y"
proof -
  define q4 q100 q400 where "q4 = y div 4" and "q100 = y div 100" and "q400 = y div 400"
  have f: "4 * q4 \<le> y" "y < 4 * q4 + 4" "100 * q100 \<le> y" "y < 100 * q100 + 100"
    "400 * q400 \<le> y" "y < 400 * q400 + 400"
    unfolding q4_def q100_def q400_def by (simp_all add: div_bounds)
  have ys: "400 * year_start y = 146000 * y + 400 * q4 - 400 * q100 + 400 * q400"
    by (simp add: year_start_def q4_def q100_def q400_def)
  show "400 * year_start y < 146097 * y + 400"
    unfolding ys using f by linarith
  show "146097 * y - 800 < 400 * year_start y"
    unfolding ys using f by linarith
qed

lemma div_succ:
  fixes y b :: int
  assumes "0 < b"
  shows "(y + 1) div b = y div b + (if y mod b = b - 1 then 1 else 0)"
proof -
  have r: "0 \<le> y mod b" "y mod b < b" using assms by simp_all
  have "y + 1 = b * (y div b) + (y mod b + 1)" by simp
  then have "(y + 1) div b = (b * (y div b) + (y mod b + 1)) div b" by simp
  also have "\<dots> = y div b + (y mod b + 1) div b"
    using assms by (simp only: div_mult_self4 [OF less_imp_neq [THEN not_sym]])
  finally have e: "(y + 1) div b = y div b + (y mod b + 1) div b" .
  show ?thesis
  proof (cases "y mod b = b - 1")
    case True
    then have "(y mod b + 1) div b = 1" using assms by simp
    with e True show ?thesis by simp
  next
    case False
    then have "y mod b + 1 < b" using r by linarith
    then have "(y mod b + 1) div b = 0" using r by (simp add: div_pos_pos_trivial)
    with e False show ?thesis by simp
  qed
qed

lemma year_length: "year_start (y + 1) - year_start y \<le> 366"
proof -
  define q4 q100 q400 where "q4 = y div 4" and "q100 = y div 100" and "q400 = y div 400"
  define i4 :: int where "i4 = (if y mod 4 = 3 then 1 else 0)"
  define i100 :: int where "i100 = (if y mod 100 = 99 then 1 else 0)"
  define i400 :: int where "i400 = (if y mod 400 = 399 then 1 else 0)"
  have s4: "(y + 1) div 4 = q4 + i4"
    using div_succ [of 4 y] by (simp add: q4_def i4_def)
  have s100: "(y + 1) div 100 = q100 + i100"
    using div_succ [of 100 y] by (simp add: q100_def i100_def)
  have s400: "(y + 1) div 400 = q400 + i400"
    using div_succ [of 400 y] by (simp add: q400_def i400_def)
  have "y mod 100 = 99" if "y mod 400 = 399"
  proof -
    have "y mod 100 = (y mod 400) mod 100"
      by (simp add: mod_mod_cancel)
    then show ?thesis using that by simp
  qed
  then have rel: "i400 \<le> i100" by (simp add: i400_def i100_def)
  have b4: "i4 \<le> 1" by (simp add: i4_def)
  have "year_start (y + 1) - year_start y = 365 + i4 - i100 + i400"
    unfolding year_start_def s4 s100 s400 by (simp add: q4_def q100_def q400_def)
  then show ?thesis using rel b4 by linarith
qed

lemma civil_year:
  fixes z' :: int
  defines "y0 \<equiv> (400 * z') div 146097"
  defines "y \<equiv> (if year_start (y0 + 1) \<le> z' then y0 + 1
               else if z' < year_start y0 then y0 - 1
               else y0)"
  shows "year_start y \<le> z' \<and> z' < year_start (y + 1)"
proof -
  have q: "146097 * y0 \<le> 400 * z'" "400 * z' < 146097 * y0 + 146097"
    unfolding y0_def by (simp_all add: div_bounds)
  have "400 * year_start (y0 - 1) < 146097 * y0 - 145697"
    using year_start_bounds(1) [of "y0 - 1"] by simp
  then have "400 * year_start (y0 - 1) < 400 * z'"
    using q by linarith
  then have lo: "year_start (y0 - 1) \<le> z'"
    by simp
  have "146097 * y0 + 291394 < 400 * year_start (y0 + 2)"
    using year_start_bounds(2) [of "y0 + 2"] by simp
  then have "400 * z' < 400 * year_start (y0 + 2)"
    using q by linarith
  then have hi: "z' < year_start (y0 + 2)"
    by simp
  show ?thesis
  proof (cases "year_start (y0 + 1) \<le> z'")
    case True
    have "y0 + 1 + 1 = y0 + 2" by simp
    then have "z' < year_start (y0 + 1 + 1)" using hi by (simp only:)
    then show ?thesis using True by (simp only: y_def if_True simp_thms)
  next
    case False
    show ?thesis
    proof (cases "z' < year_start y0")
      case True
      then show ?thesis using lo False by (simp add: y_def)
    next
      case ge: False
      then show ?thesis using False by (simp add: y_def)
    qed
  qed
qed

lemma days_from_civil_civil_from_days:
  "(case civil_from_days z of (y, m, d) \<Rightarrow> days_from_civil y m d) = z"
proof -
  define z' where "z' = z + 719468"
  define y0 where "y0 = (400 * z') div 146097"
  define y where "y = (if year_start (y0 + 1) \<le> z' then y0 + 1
               else if z' < year_start y0 then y0 - 1
               else y0)"
  define doy where "doy = z' - year_start y"
  define mp where "mp = (5 * doy + 2) div 153"
  define d where "d = doy - (153 * mp + 2) div 5 + 1"
  define m where "m = (if mp < 10 then mp + 3 else mp - 9)"
  have yr: "year_start y \<le> z' \<and> z' < year_start (y + 1)"
    unfolding y_def y0_def by (rule civil_year)
  have doy: "0 \<le> doy" "doy \<le> 365"
    using yr year_length [of y] by (simp_all add: doy_def)
  have "153 * mp \<le> 5 * doy + 2" "5 * doy + 2 < 153 * mp + 153"
    unfolding mp_def by (simp_all add: div_bounds)
  then have mp: "0 \<le> mp" "mp \<le> 11"
    using doy by linarith+
  have m: "(m + 9) mod 12 = mp"
  proof (cases "mp < 10")
    case True
    then have "(m + 9) mod 12 = (mp + 12) mod 12" by (simp add: m_def)
    also have "\<dots> = mp" using mp by simp
    finally show ?thesis .
  next
    case False
    then show ?thesis using mp by (simp add: m_def)
  qed
  have c: "civil_from_days z = (if m \<le> 2 then y + 1 else y, m, d)"
    unfolding civil_from_days_def Let_def z'_def y0_def y_def doy_def mp_def d_def m_def
    by (rule refl)
  have y': "(if m \<le> 2 then (if m \<le> 2 then y + 1 else y) - 1 else (if m \<le> 2 then y + 1 else y)) = y"
    by simp
  have "days_from_civil (if m \<le> 2 then y + 1 else y) m d = year_start y + ((153 * mp + 2) div 5 + d - 1) - 719468"
    unfolding days_from_civil_def Let_def y' m by (rule refl)
  also have "\<dots> = z"
    unfolding d_def doy_def z'_def by simp
  finally show ?thesis by (simp add: c)
qed

definition isLeap :: "int \<Rightarrow> bool" where
  "isLeap year = (year mod 4 = 0 \<and> (year mod 100 \<noteq> 0 \<or> year mod 400 = 0))"

definition daysIn :: "int \<Rightarrow> int \<Rightarrow> int" where
  "daysIn m year =
     (if m = 2 then (if isLeap year then 29 else 28)
      else if m = 4 \<or> m = 6 \<or> m = 9 \<or> m = 11 then 30
      else 31)"

text \<open>Wall-clock seconds of \<open>t\<close> in its own location, and the fields read from them.\<close>

definition wallSec :: "Time \<Rightarrow> int" where
  "wallSec t = unixNano t div Second + zoneOffset t"

definition Year :: "Time \<Rightarrow> int" where
  "Year t = fst (civil_from_days (wallSec t div 86400))"

definition Month :: "Time \<Rightarrow> int" where
  "Month t = fst (snd (civil_from_days (wallSec t div 86400)))"

definition Day :: "Time \<Rightarrow> int" where
  "Day t = snd (snd (civil_from_days (wallSec t div 86400)))"

definition HourOf :: "Time \<Rightarrow> int" where
  "HourOf t = (wallSec t mod 86400) div 3600"

definition MinuteOf :: "Time \<Rightarrow> int" where
  "MinuteOf t = (wallSec t mod 3600) div 60"

definition SecondOf :: "Time \<Rightarrow> int" where
  "SecondOf t = wallSec t mod 60"

subsection \<open>\<^verbatim>\<open>Time.Format\<close>\<close>

text \<open>\<^verbatim>\<open>appendInt\<close>: a sign, then the digits padded with zeros to the width.\<close>

definition appendInt :: "int \<Rightarrow> nat \<Rightarrow> string" where
  "appendInt x width =
     (let ds = nat_digits (nat \<bar>x\<bar>)
      in (if x < 0 then ''-'' else []) @ replicate (width - length ds) (CHR ''0'') @ ds)"

text \<open>
  The zone of \<^verbatim>\<open>Z07:00\<close>: \<^verbatim>\<open>Z\<close> for offset 0, else sign, hours and minutes; Go's
  division of the offset by 60 truncates towards zero.
\<close>

definition formatZone :: "int \<Rightarrow> string" where
  "formatZone offset =
     (if offset = 0 then ''Z''
      else (let zone = \<bar>offset\<bar> div 60
            in (if offset \<le> - 60 then ''-'' else ''+'')
               @ appendInt (zone div 60) 2 @ '':'' @ appendInt (zone mod 60) 2))"

definition formatDate :: "Time \<Rightarrow> string" where
  "formatDate t =
     appendInt (Year t) 4 @ ''-'' @ appendInt (Month t) 2 @ ''-'' @ appendInt (Day t) 2"

text \<open>Layout \<^verbatim>\<open>time.RFC3339\<close>, that is \<^verbatim>\<open>2006-01-02T15:04:05Z07:00\<close>.\<close>

definition Format_RFC3339 :: "Time \<Rightarrow> string" where
  "Format_RFC3339 t =
     formatDate t @ ''T'' @ appendInt (HourOf t) 2 @ '':'' @ appendInt (MinuteOf t) 2
       @ '':'' @ appendInt (SecondOf t) 2 @ formatZone (zoneOffset t)"

text \<open>Layouts \<^verbatim>\<open>2006-01-02\<close>, \<^verbatim>\<open>2006-01-02 15:00\<close> and \<^verbatim>\<open>2006-01-02 15:04\<close>.\<close>

definition Format_day :: "Time \<Rightarrow> string" where
  "Format_day t = formatDate t"

definition Format_hour :: "Time \<Rightarrow> string" where
  "Format_hour t = formatDate t @ '' '' @ appendInt (HourOf t) 2 @ '':00''"

definition Format_minute :: "Time \<Rightarrow> string" where
  "Format_minute t =
     formatDate t @ '' '' @ appendInt (HourOf t) 2 @ '':'' @ appendInt (MinuteOf t) 2"


subsection \<open>\<^verbatim>\<open>time.Parse\<close> for the layouts of the code\<close>

text \<open>
  The layouts the code parses with, each a sequence of the same fields: a four-digit
  year, two-digit month and day, an hour of one or two digits, two-digit minute and
  second. They differ in the separator between date and time, in the fractional second
  and in the zone.
\<close>

datatype layout =
    RFC3339            \<comment> \<open>\<^verbatim>\<open>2006-01-02T15:04:05Z07:00\<close>\<close>
  | RFC3339Nano        \<comment> \<open>\<^verbatim>\<open>2006-01-02T15:04:05.999999999Z07:00\<close>\<close>
  | ISOMillisZ         \<comment> \<open>\<^verbatim>\<open>2006-01-02T15:04:05.000Z\<close>\<close>
  | ISOSecondsZ        \<comment> \<open>\<^verbatim>\<open>2006-01-02T15:04:05Z\<close>\<close>
  | SpaceSeconds       \<comment> \<open>\<^verbatim>\<open>2006-01-02 15:04:05\<close>\<close>

definition isDigit :: "char \<Rightarrow> bool" where
  "isDigit c = (c \<in> set ''0123456789'')"

definition digitVal :: "char \<Rightarrow> int" where
  "digitVal c = (case map_of (zip ''0123456789'' [0, 1, 2, 3, 4, 5, 6, 7, 8, 9]) c of
                   Some n \<Rightarrow> n | None \<Rightarrow> 0)"

definition digitsVal :: "string \<Rightarrow> int" where
  "digitsVal ds = foldl (\<lambda>acc c. 10 * acc + digitVal c) 0 ds"

text \<open>\<^verbatim>\<open>getnum\<close>: one or two digits; exactly two when \<open>fixed\<close>.\<close>

definition getnum :: "string \<Rightarrow> bool \<Rightarrow> (int \<times> string) option" where
  "getnum s fixed =
     (case s of
        [] \<Rightarrow> None
      | c # r \<Rightarrow>
          if \<not> isDigit c then None
          else (case r of
                  [] \<Rightarrow> if fixed then None else Some (digitVal c, r)
                | d # r' \<Rightarrow>
                    if isDigit d then Some (10 * digitVal c + digitVal d, r')
                    else if fixed then None
                    else Some (digitVal c, r)))"

text \<open>A field read by \<^verbatim>\<open>getnum\<close> whose value must satisfy \<open>lo \<le> v < hi\<close>.\<close>

definition getnum_in :: "string \<Rightarrow> bool \<Rightarrow> int \<Rightarrow> int \<Rightarrow> (int \<times> string) option" where
  "getnum_in s fixed lo hi =
     (case getnum s fixed of
        None \<Rightarrow> None
      | Some (v, r) \<Rightarrow> if lo \<le> v \<and> v < hi then Some (v, r) else None)"

text \<open>\<^verbatim>\<open>skip\<close> of one literal byte of the layout that is not a space.\<close>

definition skip_byte :: "char \<Rightarrow> string \<Rightarrow> string option" where
  "skip_byte c s = (case s of [] \<Rightarrow> None | x # r \<Rightarrow> if x = c then Some r else None)"

text \<open>
  \<^verbatim>\<open>skip\<close> of a space of the layout: a value that starts with another byte is an error;
  otherwise all leading spaces of the value are cut (an empty value passes).
\<close>

definition skip_space :: "string \<Rightarrow> string option" where
  "skip_space s =
     (case s of
        [] \<Rightarrow> Some []
      | x # r \<Rightarrow> if x \<noteq> CHR '' '' then None else Some (dropWhile (\<lambda>c. c = CHR '' '') s))"

definition parse_year :: "string \<Rightarrow> (int \<times> string) option" where
  "parse_year s =
     (if length s < 4 \<or> \<not> list_all isDigit (take 4 s) then None
      else Some (digitsVal (take 4 s), drop 4 s))"

definition commaOrPeriod :: "char \<Rightarrow> bool" where
  "commaOrPeriod c = (c = CHR ''.'' \<or> c = CHR '','')"

text \<open>
  \<^verbatim>\<open>parseNanoseconds\<close> on digits: at most nine digits count, scaled to nanoseconds.
\<close>

definition scaleNanos :: "string \<Rightarrow> int" where
  "scaleNanos ds = digitsVal (take 9 ds) * 10 ^ (9 - length (take 9 ds))"

text \<open>
  After the seconds of a layout without a fractional-second field (and for the field
  \<^verbatim>\<open>.999999999\<close> of \<^verbatim>\<open>RFC3339Nano\<close>): a comma or period followed by a digit starts a
  fraction of any number of digits; anything else leaves the value as it is.
\<close>

definition parse_optional_frac :: "string \<Rightarrow> int \<times> string" where
  "parse_optional_frac s =
     (case s of
        c # d # r \<Rightarrow>
          if commaOrPeriod c \<and> isDigit d
          then (let ds = takeWhile isDigit (d # r) in (scaleNanos ds, drop (length ds) (d # r)))
          else (0, s)
      | _ \<Rightarrow> (0, s))"

text \<open>
  The field \<^verbatim>\<open>.000\<close>: exactly four bytes, a comma or period and three bytes read by the
  package's \<^verbatim>\<open>atoi\<close>, which takes an optional sign before the digits; a negative value is
  out of range.
\<close>

definition parse_frac3 :: "string \<Rightarrow> (int \<times> string) option" where
  "parse_frac3 s =
     (if length s < 4 \<or> \<not> commaOrPeriod (hd s) then None
      else (let f = take 3 (tl s);
                signed = (hd f = CHR ''-'' \<or> hd f = CHR ''+'');
                ds = (if signed then tl f else f)
            in if \<not> list_all isDigit ds then None
               else if hd f = CHR ''-'' \<and> digitsVal ds \<noteq> 0 then None
               else Some (digitsVal ds * 1000000, drop 4 s)))"

text \<open>
  The zone \<^verbatim>\<open>Z07:00\<close>: \<^verbatim>\<open>Z\<close> for UTC, or a sign, two digits, a colon and two digits, with
  hours up to 24 and minutes up to 60 accepted.
\<close>

definition parse_zone :: "string \<Rightarrow> (int \<times> string) option" where
  "parse_zone s =
     (case s of
        [] \<Rightarrow> None
      | c # r \<Rightarrow>
          if c = CHR ''Z'' then Some (0, r)
          else if length s < 6 \<or> s ! 3 \<noteq> CHR '':'' then None
          else (case getnum (take 2 r) True of
                  None \<Rightarrow> None
                | Some (hr, _) \<Rightarrow>
                    (case getnum (take 2 (drop 4 s)) True of
                       None \<Rightarrow> None
                     | Some (mm, _) \<Rightarrow>
                         if 24 < hr \<or> 60 < mm then None
                         else if c = CHR ''+'' then Some ((hr * 60 + mm) * 60, drop 6 s)
                         else if c = CHR ''-'' then Some (- ((hr * 60 + mm) * 60), drop 6 s)
                         else None)))"

text \<open>
  \<^verbatim>\<open>time.Parse(layout, value)\<close>; \<open>None\<close> is a returned error. Without a zone in the
  layout the result is in UTC; with one it carries the parsed offset.
\<close>

definition time_Parse :: "layout \<Rightarrow> string \<Rightarrow> Time option" where
  "time_Parse l value = do {
     (year, v) \<leftarrow> parse_year value;
     v \<leftarrow> skip_byte (CHR ''-'') v;
     (month, v) \<leftarrow> getnum_in v True 1 13;
     v \<leftarrow> skip_byte (CHR ''-'') v;
     (day, v) \<leftarrow> getnum v True;
     v \<leftarrow> (if l = SpaceSeconds then skip_space v else skip_byte (CHR ''T'') v);
     (hour, v) \<leftarrow> getnum_in v False 0 24;
     v \<leftarrow> skip_byte (CHR '':'') v;
     (minute, v) \<leftarrow> getnum_in v True 0 60;
     v \<leftarrow> skip_byte (CHR '':'') v;
     (sec, v) \<leftarrow> getnum_in v True 0 60;
     (nsec, v) \<leftarrow> (if l = ISOMillisZ then parse_frac3 v else Some (parse_optional_frac v));
     (offset, v) \<leftarrow>
        (if l = RFC3339 \<or> l = RFC3339Nano then parse_zone v
         else if l = SpaceSeconds then Some (0, v)
         else map_option (\<lambda>r. (0, r)) (skip_byte (CHR ''Z'') v));
     (if v \<noteq> [] \<or> day < 1 \<or> daysIn month year < day then None
      else Some \<lparr>unixNano =
                   (days_from_civil year month day * 86400 + hour * 3600 + minute * 60 + sec
                      - offset) * Second + nsec,
                 zoneOffset = offset\<rparr>)
   }"

subsection \<open>\<^verbatim>\<open>strconv.ParseInt(s, 10, 64)\<close>\<close>

text \<open>
  An optional sign and at least one decimal digit, nothing else; a value outside the
  64-bit range is an error. \<open>None\<close> is a returned error.
\<close>

definition ParseInt :: "string \<Rightarrow> int option" where
  "ParseInt s =
     (let neg = (s \<noteq> [] \<and> hd s = CHR ''-'');
          ds = (if s \<noteq> [] \<and> (hd s = CHR ''+'' \<or> hd s = CHR ''-'') then tl s else s);
          un = digitsVal ds
      in if ds = [] \<or> \<not> list_all isDigit ds then None
         else if \<not> neg \<and> 2 ^ 63 \<le> un then None
         else if neg \<and> 2 ^ 63 < un then None
         else Some (if neg then - un else un))"


section \<open>Usage records and the store (store.go)\<close>

type_synonym int64 = "64 word"

text \<open>
  The struct \<^verbatim>\<open>Record\<close>. Token counts are 64-bit integers whose sum can wrap, so they
  are words; identifiers, durations and status codes are never computed with and are
  integers.
\<close>

record Record =
  ID :: int
  RequestID :: string
  Timestamp :: Time
  IP :: string
  APIKey :: string
  APIKeyMasked :: string
  Model :: string
  Provider :: string
  IsStreaming :: bool
  InputTokens :: int64
  OutputTokens :: int64
  TotalTokens :: int64
  CachedTokens :: int64
  ReasoningTokens :: int64
  DurationMs :: int
  StatusCode :: int
  Success :: bool
  RequestURL :: string
  RequestMethod :: string
  RequestHeaders :: "string \<rightharpoonup> string"
  RequestBody :: string
  ResponseHeaders :: "string \<rightharpoonup> string"
  ResponseBody :: string

text \<open>The struct \<^verbatim>\<open>RecordPatch\<close>: every field is a pointer, \<open>None\<close> for \<^verbatim>\<open>nil\<close>.\<close>

record RecordPatch =
  p_Timestamp :: "Time option"
  p_IP :: "string option"
  p_APIKey :: "string option"
  p_APIKeyMasked :: "string option"
  p_Model :: "string option"
  p_Provider :: "string option"
  p_IsStreaming :: "bool option"
  p_InputTokens :: "int64 option"
  p_OutputTokens :: "int64 option"
  p_TotalTokens :: "int64 option"
  p_CachedTokens :: "int64 option"
  p_ReasoningTokens :: "int64 option"
  p_DurationMs :: "int option"
  p_StatusCode :: "int option"
  p_Success :: "bool option"
  p_RequestURL :: "string option"
  p_RequestMethod :: "string option"
  p_RequestHeaders :: "(string \<rightharpoonup> string) option"
  p_RequestBody :: "string option"
  p_ResponseHeaders :: "(string \<rightharpoonup> string) option"
  p_ResponseBody :: "string option"

definition emptyPatch :: RecordPatch where
  "emptyPatch =
     \<lparr>p_Timestamp = None, p_IP = None, p_APIKey = None, p_APIKeyMasked = None,
      p_Model = None, p_Provider = None, p_IsStreaming = None, p_InputTokens = None,
      p_OutputTokens = None, p_TotalTokens = None, p_CachedTokens = None,
      p_ReasoningTokens = None, p_DurationMs = None, p_StatusCode = None,
      p_Success = None, p_RequestURL = None, p_RequestMethod = None,
      p_RequestHeaders = None, p_RequestBody = None, p_ResponseHeaders = None,
      p_ResponseBody = None\<rparr>"

subsection \<open>The database\<close>

text \<open>
  A row of a table maps column names to values; the table \<^verbatim>\<open>usage_records\<close> maps the
  primary key \<^verbatim>\<open>id\<close> to its row. Booleans are stored as 0 and 1, timestamps as RFC 3339
  text, header maps as JSON text.
\<close>

datatype sqlval = SQLInt int | SQLText string

type_synonym row = "string \<rightharpoonup> sqlval"

datatype error =
    ErrStoreClosed
  | ErrInvalidRecordID
  | ErrUpdate string
  | ErrInsert string
  | ErrQuery string

text \<open>The query cache of part\_000: entries with an expiry, cleared as a whole.\<close>

record queryCache =
  ttl :: int
  entries :: "string \<rightharpoonup> Time \<times> string"

datatype writeTask =
    InsertUsageRecord Record
  | InsertRequestCandidate row

record Store =
  closed :: bool
  usage_records :: "int \<rightharpoonup> row"
  last_insert_id :: int
  request_candidates :: "row list"
  cache :: "queryCache option"
  writeQueue :: "writeTask list option"

definition clear :: "queryCache option \<Rightarrow> queryCache option" where
  "clear c = (case c of None \<Rightarrow> None | Some q \<Rightarrow> Some (q\<lparr>entries := Map.empty\<rparr>))"

text \<open>
  Modelled from the spec: \<^verbatim>\<open>isClosed\<close> and \<^verbatim>\<open>invalidateCaches\<close> are called by
  \<^verbatim>\<open>PatchByID\<close> and the write queue but their bodies are not among the sources. The
  first reads the \<^verbatim>\<open>closed\<close> flag; the second, by section 4.3 of the specification,
  clears the entries map of the query cache (and does nothing when caching is off).
\<close>

definition isClosed :: "Store \<Rightarrow> bool" where
  "isClosed s = closed s"

definition invalidateCaches :: "Store \<Rightarrow> Store" where
  "invalidateCaches s = s\<lparr>cache := clear (cache s)\<rparr>"

definition sqlBool :: "bool \<Rightarrow> sqlval" where
  "sqlBool b = SQLInt (if b then 1 else 0)"

definition sqlInt64 :: "int64 \<Rightarrow> sqlval" where
  "sqlInt64 w = SQLInt (sint w)"

subsection \<open>\<^verbatim>\<open>PatchByID\<close> (part\_004)\<close>

text \<open>
  The column assignments in the order of the source, each with the argument bound to
  its placeholder when the pointer is not \<^verbatim>\<open>nil\<close>. \<open>marshal\<close> is \<^verbatim>\<open>json.Marshal\<close> on a
  string map, whose result is turned into a string.
\<close>

definition patch_fields ::
  "((string \<rightharpoonup> string) \<Rightarrow> string) \<Rightarrow> RecordPatch \<Rightarrow> (string \<times> sqlval option) list" where
  "patch_fields marshal patch =
     [(''timestamp'', map_option (\<lambda>t. SQLText (Format_RFC3339 t)) (p_Timestamp patch)),
      (''ip'', map_option SQLText (p_IP patch)),
      (''api_key'', map_option SQLText (p_APIKey patch)),
      (''api_key_masked'', map_option SQLText (p_APIKeyMasked patch)),
      (''model'', map_option SQLText (p_Model patch)),
      (''provider'', map_option SQLText (p_Provider patch)),
      (''is_streaming'', map_option sqlBool (p_IsStreaming patch)),
      (''input_tokens'', map_option sqlInt64 (p_InputTokens patch)),
      (''output_tokens'', map_option sqlInt64 (p_OutputTokens patch)),
      (''total_tokens'', map_option sqlInt64 (p_TotalTokens patch)),
      (''cached_tokens'', map_option sqlInt64 (p_CachedTokens patch)),
      (''reasoning_tokens'', map_option sqlInt64 (p_ReasoningTokens patch)),
      (''duration_ms'', map_option SQLInt (p_DurationMs patch)),
      (''status_code'', map_option SQLInt (p_StatusCode patch)),
      (''success'', map_option sqlBool (p_Success patch)),
      (''request_url'', map_option SQLText (p_RequestURL patch)),
      (''request_method'', map_option SQLText (p_RequestMethod patch)),
      (''request_headers'', map_option (\<lambda>h. SQLText (marshal h)) (p_RequestHeaders patch)),
      (''request_body'', map_option SQLText (p_RequestBody patch)),
      (''response_headers'', map_option (\<lambda>h. SQLText (marshal h)) (p_ResponseHeaders patch)),
      (''response_body'', map_option SQLText (p_ResponseBody patch))]"

text \<open>The pairs appended by \<^verbatim>\<open>add\<close>: one for every field that is set.\<close>

definition patch_sets ::
  "((string \<rightharpoonup> string) \<Rightarrow> string) \<Rightarrow> RecordPatch \<Rightarrow> (string \<times> sqlval) list" where
  "patch_sets marshal patch =
     List.map_filter (\<lambda>(col, arg). map_option (\<lambda>v. (col, v)) arg) (patch_fields marshal patch)"

text \<open>
  \<^verbatim>\<open>UPDATE usage_records SET c1 = ?, ... WHERE id = ?\<close>: the row with the key, if there
  is one, gets the assignments; the result is the new table and the number of rows
  affected.
\<close>

definition sql_update ::
  "(int \<rightharpoonup> row) \<Rightarrow> (string \<times> sqlval) list \<Rightarrow> int \<Rightarrow> (int \<rightharpoonup> row) \<times> int" where
  "sql_update tbl sets i =
     (case tbl i of
        None \<Rightarrow> (tbl, 0)
      | Some r \<Rightarrow> (tbl(i \<mapsto> fold (\<lambda>(col, v) r'. r'(col \<mapsto> v)) sets r), 1))"

text \<open>
  \<^verbatim>\<open>PatchByID\<close>. \<open>dberr\<close> is the error of \<^verbatim>\<open>ExecContext\<close>, if the driver reports one
  (a timeout of the context, an I/O failure); the statement then changes nothing.
\<close>

definition PatchByID ::
  "((string \<rightharpoonup> string) \<Rightarrow> string) \<Rightarrow> string option \<Rightarrow> Store \<Rightarrow> int \<Rightarrow> RecordPatch
     \<Rightarrow> (error + int) \<times> Store" where
  "PatchByID marshal dberr s i patch =
     (if isClosed s then (Inl ErrStoreClosed, s)
      else if i \<le> 0 then (Inl ErrInvalidRecordID, s)
      else (let sets = patch_sets marshal patch
            in if length sets = 0 then (Inr 0, s)
               else (case dberr of
                       Some e \<Rightarrow> (Inl (ErrUpdate e), s)
                     | None \<Rightarrow>
                         (let (tbl, affected) = sql_update (usage_records s) sets i
                          in (Inr affected, invalidateCaches (s\<lparr>usage_records := tbl\<rparr>))))))"

subsection \<open>\<^verbatim>\<open>Insert\<close> (store.go)\<close>

definition record_row :: "((string \<rightharpoonup> string) \<Rightarrow> string) \<Rightarrow> Record \<Rightarrow> row" where
  "record_row marshal r =
     [''request_id'' \<mapsto> SQLText (RequestID r),
      ''timestamp'' \<mapsto> SQLText (Format_RFC3339 (Timestamp r)),
      ''ip'' \<mapsto> SQLText (IP r),
      ''api_key'' \<mapsto> SQLText (APIKey r),
      ''api_key_masked'' \<mapsto> SQLText (APIKeyMasked r),
      ''model'' \<mapsto> SQLText (Model r),
      ''provider'' \<mapsto> SQLText (Provider r),
      ''is_streaming'' \<mapsto> sqlBool (IsStreaming r),
      ''input_tokens'' \<mapsto> sqlInt64 (InputTokens r),
      ''output_tokens'' \<mapsto> sqlInt64 (OutputTokens r),
      ''total_tokens'' \<mapsto> sqlInt64 (TotalTokens r),
      ''cached_tokens'' \<mapsto> sqlInt64 (CachedTokens r),
      ''reasoning_tokens'' \<mapsto> sqlInt64 (ReasoningTokens r),
      ''duration_ms'' \<mapsto> SQLInt (DurationMs r),
      ''status_code'' \<mapsto> SQLInt (StatusCode r),
      ''success'' \<mapsto> sqlBool (Success r),
      ''request_url'' \<mapsto> SQLText (RequestURL r),
      ''request_method'' \<mapsto> SQLText (RequestMethod r),
      ''request_headers'' \<mapsto> SQLText (marshal (RequestHeaders r)),
      ''request_body'' \<mapsto> SQLText (RequestBody r),
      ''response_headers'' \<mapsto> SQLText (marshal (ResponseHeaders r)),
      ''response_body'' \<mapsto> SQLText (ResponseBody r)]"

text \<open>
  \<^verbatim>\<open>Insert\<close>: the row gets the next key of the table, which is written back into the
  record. The result is the error, if any, the record and the store.
\<close>

definition Insert ::
  "((string \<rightharpoonup> string) \<Rightarrow> string) \<Rightarrow> string option \<Rightarrow> Store \<Rightarrow> Record
     \<Rightarrow> error option \<times> Record \<times> Store" where
  "Insert marshal dberr s r =
     (if closed s then (Some ErrStoreClosed, r, s)
      else (case dberr of
              Some e \<Rightarrow> (Some (ErrInsert e), r, s)
            | None \<Rightarrow>
                (let i = last_insert_id s + 1
                 in (None, r\<lparr>ID := i\<rparr>,
                     s\<lparr>usage_records := (usage_records s)(i \<mapsto> record_row marshal r),
                       last_insert_id := i\<rparr>))))"


subsection \<open>The write queue (part\_000)\<close>

definition defaultWriteQueueSize :: nat where
  "defaultWriteQueueSize = 2048"

text \<open>
  A non-blocking send on the buffered channel: the task is appended when the buffer has
  room and dropped otherwise.
\<close>

definition EnqueueUsageRecord :: "Store \<Rightarrow> Record \<Rightarrow> bool \<times> Store" where
  "EnqueueUsageRecord s r =
     (if isClosed s then (False, s)
      else (case writeQueue s of
              None \<Rightarrow> (False, s)
            | Some q \<Rightarrow>
                if length q < defaultWriteQueueSize
                then (True, s\<lparr>writeQueue := Some (q @ [InsertUsageRecord r])\<rparr>)
                else (False, s)))"

section \<open>The request context (gin)\<close>

text \<open>
  Values of type \<^verbatim>\<open>any\<close> kept under string keys in the request context, by dynamic
  type. \<open>AOther\<close> stands for every other dynamic value, \<^verbatim>\<open>nil\<close> included.
\<close>

datatype any =
    AString string
  | ABytes string
  | ABool bool
  | AInt64 int
  | AInt int
  | AFloat64 rat
  | ATime Time
  | AOther

text \<open>
  \<^verbatim>\<open>fmt.Sprint\<close> of one value: a string prints as itself; the rendering of the other
  dynamic types is the parameter \<open>render\<close>.
\<close>

definition fmt_Sprint :: "(any \<Rightarrow> string) \<Rightarrow> any \<Rightarrow> string" where
  "fmt_Sprint render v = (case v of AString s \<Rightarrow> s | _ \<Rightarrow> render v)"

record gin_Error =
  Err :: string
  Meta :: "string option"

record http_Request =
  URL_Path :: string
  URL_RawQuery :: string
  URL_String :: string
  Method :: string
  Header :: http_Header

record gin_Context =
  Request :: "http_Request option"
  Keys :: "string \<rightharpoonup> any"
  Writer_Status :: int
  Writer_Header :: http_Header
  Errors :: "gin_Error list"
  ClientIP :: string
  GinRequestID :: string

definition ginUsageRecordIDKey :: string where
  "ginUsageRecordIDKey = ''__usage_record_id__''"

definition ginUsageRecordStartKey :: string where
  "ginUsageRecordStartKey = ''request_start_time''"

definition ginUsageRecordPanicKey :: string where
  "ginUsageRecordPanicKey = ''__usage_record_panic__''"

text \<open>\<^verbatim>\<open>Header.Get\<close> for a key in canonical form: the first value, or the empty string.\<close>

definition Header_Get :: "http_Header \<Rightarrow> string \<Rightarrow> string" where
  "Header_Get h key = (case h key of Some (v # _) \<Rightarrow> v | _ \<Rightarrow> [])"

text \<open>
  \<^verbatim>\<open>errorMsgs.String\<close> of gin: one line \<^verbatim>\<open>Error #NN: message\<close> per error, followed by a
  line for its meta data when there is some.
\<close>

definition errorMsgs_String :: "gin_Error list \<Rightarrow> string" where
  "errorMsgs_String es =
     concat (map (\<lambda>(i, e). ''Error #'' @ appendInt (int i + 1) 2 @ '': '' @ Err e @ [CHR 0x0A]
                    @ (case Meta e of
                         None \<Rightarrow> []
                       | Some m \<Rightarrow> ''     Meta: '' @ m @ [CHR 0x0A]))
                 (enumerate 0 es))"

text \<open>\<^verbatim>\<open>http.StatusText\<close>: the reason phrase of a known status code, else empty.\<close>

definition http_StatusText :: "int \<Rightarrow> string" where
  "http_StatusText code =
     (case map_of
        [(100, ''Continue''), (101, ''Switching Protocols''), (102, ''Processing''),
         (103, ''Early Hints''),
         (200, ''OK''), (201, ''Created''), (202, ''Accepted''),
         (203, ''Non-Authoritative Information''), (204, ''No Content''),
         (205, ''Reset Content''), (206, ''Partial Content''), (207, ''Multi-Status''),
         (208, ''Already Reported''), (226, ''IM Used''),
         (300, ''Multiple Choices''), (301, ''Moved Permanently''), (302, ''Found''),
         (303, ''See Other''), (304, ''Not Modified''), (305, ''Use Proxy''),
         (307, ''Temporary Redirect''), (308, ''Permanent Redirect''),
         (400, ''Bad Request''), (401, ''Unauthorized''), (402, ''Payment Required''),
         (403, ''Forbidden''), (404, ''Not Found''), (405, ''Method Not Allowed''),
         (406, ''Not Acceptable''), (407, ''Proxy Authentication Required''),
         (408, ''Request Timeout''), (409, ''Conflict''), (410, ''Gone''),
         (411, ''Length Required''), (412, ''Precondition Failed''),
         (413, ''Request Entity Too Large''), (414, ''Request URI Too Long''),
         (415, ''Unsupported Media Type''), (416, ''Requested Range Not Satisfiable''),
         (417, ''Expectation Failed''), (418, ''I'' @ [CHR 0x27] @ ''m a teapot''),
         (421, ''Misdirected Request''), (422, ''Unprocessable Entity''), (423, ''Locked''),
         (424, ''Failed Dependency''), (425, ''Too Early''), (426, ''Upgrade Required''),
         (428, ''Precondition Required''), (429, ''Too Many Requests''),
         (431, ''Request Header Fields Too Large''),
         (451, ''Unavailable For Legal Reasons''),
         (500, ''Internal Server Error''), (501, ''Not Implemented''),
         (502, ''Bad Gateway''), (503, ''Service Unavailable''),
         (504, ''Gateway Timeout''), (505, ''HTTP Version Not Supported''),
         (506, ''Variant Also Negotiates''), (507, ''Insufficient Storage''),
         (508, ''Loop Detected''), (510, ''Not Extended''),
         (511, ''Network Authentication Required'')] code of
        Some text \<Rightarrow> text
      | None \<Rightarrow> [])"

definition http_StatusInternalServerError :: int where
  "http_StatusInternalServerError = 500"

definition http_StatusBadRequest :: int where
  "http_StatusBadRequest = 400"

section \<open>The entry middleware (part\_001)\<close>

subsection \<open>\<^verbatim>\<open>extractResponseBodyBestEffort\<close>\<close>

text \<open>
  The function is a sequence of early returns. Each of the first four stages is a
  function to an optional result, \<open>None\<close> when the stage falls through to the next.
\<close>

definition body_from_writer :: "gin_Context \<Rightarrow> string option" where
  "body_from_writer c =
     (case Keys c ''response_body_for_log'' of
        Some (ABytes t) \<Rightarrow> if 0 < length t then Some t else None
      | Some (AString t) \<Rightarrow> if strings_TrimSpace t \<noteq> [] then Some t else None
      | _ \<Rightarrow> None)"

definition body_from_upstream :: "gin_Context \<Rightarrow> string option" where
  "body_from_upstream c =
     (case Keys c ''API_RESPONSE'' of
        Some (ABytes b) \<Rightarrow> if 0 < length (strings_TrimSpace b) then Some b else None
      | _ \<Rightarrow> None)"

definition body_from_panic :: "(any \<Rightarrow> string) \<Rightarrow> gin_Context \<Rightarrow> bool \<Rightarrow> string option" where
  "body_from_panic render c recovered =
     (if recovered
      then (case Keys c ginUsageRecordPanicKey of
              Some v \<Rightarrow>
                (let msg = strings_TrimSpace (fmt_Sprint render v)
                 in if msg \<noteq> [] then Some msg else None)
            | None \<Rightarrow> None)
      else None)"

definition body_from_errors :: "gin_Context \<Rightarrow> string option" where
  "body_from_errors c =
     (if 0 < length (Errors c)
      then (let msg = strings_TrimSpace (errorMsgs_String (Errors c))
            in if msg \<noteq> [] then Some msg else None)
      else None)"

definition body_from_status :: "gin_Context \<Rightarrow> bool \<Rightarrow> string" where
  "body_from_status c recovered =
     (let status = (if recovered then http_StatusInternalServerError else Writer_Status c)
      in if http_StatusBadRequest \<le> status
         then (let text = strings_TrimSpace (http_StatusText status)
               in if text \<noteq> [] then ''HTTP '' @ itoa status @ '' '' @ text
                  else ''HTTP '' @ itoa status)
         else [])"

definition extractResponseBodyBestEffort ::
  "(any \<Rightarrow> string) \<Rightarrow> gin_Context \<Rightarrow> bool \<Rightarrow> string" where
  "extractResponseBodyBestEffort render c recovered =
     (case body_from_writer c of
        Some r \<Rightarrow> r
      | None \<Rightarrow>
     (case body_from_upstream c of
        Some r \<Rightarrow> r
      | None \<Rightarrow>
     (case body_from_panic render c recovered of
        Some r \<Rightarrow> r
      | None \<Rightarrow>
     (case body_from_errors c of
        Some r \<Rightarrow> r
      | None \<Rightarrow> body_from_status c recovered))))"

subsection \<open>\<^verbatim>\<open>patchUsageRecordFinal\<close>\<close>

text \<open>Go's integer division truncates towards zero.\<close>

definition go_quot :: "int \<Rightarrow> int \<Rightarrow> int" where
  "go_quot a b = (if (a < 0) = (b < 0) then \<bar>a\<bar> div \<bar>b\<bar> else - (\<bar>a\<bar> div \<bar>b\<bar>))"

definition Milliseconds :: "int \<Rightarrow> int" where
  "Milliseconds d = go_quot d 1000000"

text \<open>
  The patch that \<^verbatim>\<open>patchUsageRecordFinal\<close> builds from the context. \<open>now\<close> is the
  clock read by \<^verbatim>\<open>time.Since\<close>, and \<open>req\<close> the request of the context.
\<close>

definition finalPatch ::
  "(any \<Rightarrow> string) \<Rightarrow> Time \<Rightarrow> gin_Context \<Rightarrow> http_Request \<Rightarrow> Time \<Rightarrow> string
     \<Rightarrow> (string \<rightharpoonup> string) \<Rightarrow> string \<Rightarrow> bool \<Rightarrow> RecordPatch" where
  "finalPatch render now c req start requestURL requestHeaders requestBody recovered =
     (let durationMs = Milliseconds (Sub now start);
          statusCode = (if recovered then http_StatusInternalServerError else Writer_Status c);
          success = (0 < statusCode \<and> statusCode < http_StatusBadRequest);
          apiKey = (case Keys c ''apiKey'' of
                      Some v \<Rightarrow> fmt_Sprint render v
                    | None \<Rightarrow> []);
          isStreaming0 = (case Keys c ''is_streaming'' of Some (ABool b) \<Rightarrow> b | _ \<Rightarrow> False);
          isStreaming =
            (if \<not> isStreaming0
             then strings_Contains
                    (strings_ToLower (Header_Get (Writer_Header c) ''Content-Type''))
                    ''text/event-stream''
             else isStreaming0);
          respHeaders = captureHeadersBestEffort (Writer_Header c);
          responseBody = extractResponseBodyBestEffort render c recovered;
          ip = ClientIP c;
          apiKeyMasked = (if strings_TrimSpace apiKey \<noteq> [] then MaskAPIKey apiKey else [])
      in emptyPatch
           \<lparr>p_IP := Some ip,
            p_APIKey := Some apiKey,
            p_APIKeyMasked := Some apiKeyMasked,
            p_IsStreaming := Some isStreaming,
            p_DurationMs := Some durationMs,
            p_StatusCode := Some statusCode,
            p_Success := Some success,
            p_RequestURL := Some requestURL,
            p_RequestMethod := Some (Method req),
            p_RequestHeaders := Some requestHeaders,
            p_RequestBody := Some requestBody,
            p_ResponseHeaders := Some respHeaders,
            p_ResponseBody := Some responseBody\<rparr>)"

text \<open>
  \<^verbatim>\<open>patchUsageRecordFinal\<close>: nothing happens without a store or with a record id that
  is not positive; an error of \<^verbatim>\<open>PatchByID\<close> is logged and dropped. The middleware calls
  it only with a request in the context; without one, reading the method is a nil
  dereference, the result \<open>None\<close>.
\<close>

definition patchUsageRecordFinal ::
  "((string \<rightharpoonup> string) \<Rightarrow> string) \<Rightarrow> (any \<Rightarrow> string) \<Rightarrow> string option \<Rightarrow> Time
     \<Rightarrow> Store option \<Rightarrow> gin_Context \<Rightarrow> int \<Rightarrow> Time \<Rightarrow> string \<Rightarrow> (string \<rightharpoonup> string)
     \<Rightarrow> string \<Rightarrow> bool \<Rightarrow> Store option option" where
  "patchUsageRecordFinal marshal render dberr now store c recordID start requestURL
       requestHeaders requestBody recovered =
     (case store of
        None \<Rightarrow> Some None
      | Some s \<Rightarrow>
          if recordID \<le> 0 then Some (Some s)
          else (case Request c of
                  None \<Rightarrow> None
                | Some req \<Rightarrow>
                    Some (Some (snd (PatchByID marshal dberr s recordID
                      (finalPatch render now c req start requestURL requestHeaders
                         requestBody recovered))))))"


section \<open>The usage-event plugin (plugin.go)\<close>

text \<open>
  The usage event \<^verbatim>\<open>coreusage.Record\<close> with its token detail; the fields are the ones
  \<^verbatim>\<open>HandleUsage\<close> reads, and \<open>d_TotalTokens\<close> is the total reported by the API.
\<close>

record Detail =
  d_InputTokens :: int64
  d_OutputTokens :: int64
  d_ReasoningTokens :: int64
  d_CachedTokens :: int64
  d_TotalTokens :: int64

record usage_Record =
  u_Provider :: string
  u_Model :: string
  u_APIKey :: string
  u_RequestedAt :: Time
  u_Failed :: bool
  u_Detail :: Detail

text \<open>
  The plugin: its store, the enabled flag, and whether the two optional callbacks are
  installed. A call of a callback is recorded as a value.
\<close>

record Plugin =
  store :: "Store option"
  enabled :: bool
  tokenIncrementor :: bool
  usageIncrementor :: bool

datatype callback =
    TokenIncrement string int64 int64
  | UsageIncrement string

text \<open>
  The conversion \<^verbatim>\<open>int64(t)\<close> of a \<^verbatim>\<open>float64\<close> truncates towards zero; outside the range
  of the target the result depends on the platform, and is the least \<^verbatim>\<open>int64\<close> here.
\<close>

definition float64_to_int64 :: "rat \<Rightarrow> int" where
  "float64_to_int64 t =
     (let n = (if 0 \<le> t then \<lfloor>t\<rfloor> else \<lceil>t\<rceil>)
      in if - (2 ^ 63) \<le> n \<and> n < 2 ^ 63 then n else - (2 ^ 63))"

text \<open>The record id left in the context by the entry middleware, 0 when there is none.\<close>

definition recordDBID_of :: "gin_Context \<Rightarrow> int" where
  "recordDBID_of c =
     (case Keys c ginUsageRecordIDKey of
        Some (AInt64 t) \<Rightarrow> t
      | Some (AInt t) \<Rightarrow> t
      | Some (AFloat64 t) \<Rightarrow> float64_to_int64 t
      | Some (AString t) \<Rightarrow>
          (case ParseInt (strings_TrimSpace t) of Some parsed \<Rightarrow> parsed | None \<Rightarrow> 0)
      | _ \<Rightarrow> 0)"

definition durationMs_of :: "Time \<Rightarrow> gin_Context \<Rightarrow> usage_Record \<Rightarrow> int" where
  "durationMs_of now c record =
     (let d = (case Keys c ''request_start_time'' of
                 Some (ATime st) \<Rightarrow> Milliseconds (Sub now st)
               | _ \<Rightarrow> 0)
      in if d = 0 \<and> \<not> IsZero (u_RequestedAt record)
         then Milliseconds (Sub now (u_RequestedAt record))
         else d)"

definition bytes_key :: "gin_Context \<Rightarrow> string \<Rightarrow> string" where
  "bytes_key c key = (case Keys c key of Some (ABytes b) \<Rightarrow> b | _ \<Rightarrow> [])"

text \<open>The patch of the in-place update: tokens, provider, model, key and streaming flag.\<close>

definition usagePatch :: "usage_Record \<Rightarrow> bool \<Rightarrow> RecordPatch" where
  "usagePatch record isStreaming =
     emptyPatch
       \<lparr>p_APIKey := Some (u_APIKey record),
        p_APIKeyMasked := Some (MaskAPIKey (u_APIKey record)),
        p_Model := Some (u_Model record),
        p_Provider := Some (u_Provider record),
        p_IsStreaming := Some isStreaming,
        p_InputTokens := Some (d_InputTokens (u_Detail record)),
        p_OutputTokens := Some (d_OutputTokens (u_Detail record)),
        p_TotalTokens := Some (d_InputTokens (u_Detail record) + d_OutputTokens (u_Detail record)),
        p_CachedTokens := Some (d_CachedTokens (u_Detail record)),
        p_ReasoningTokens := Some (d_ReasoningTokens (u_Detail record))\<rparr>"

text \<open>
  The row of the fallback insert. Without a gin context every value read from it keeps
  its zero value.
\<close>

definition fallbackRecord :: "Time \<Rightarrow> gin_Context option \<Rightarrow> usage_Record \<Rightarrow> Record" where
  "fallbackRecord now ctx record =
     (let statusCode = (case ctx of Some c \<Rightarrow> Writer_Status c | None \<Rightarrow> 0);
          timestamp = (if IsZero (u_RequestedAt record) then now else u_RequestedAt record);
          success = (if http_StatusBadRequest \<le> statusCode then False else \<not> u_Failed record)
      in \<lparr>ID = 0,
          RequestID = (case ctx of Some c \<Rightarrow> GinRequestID c | None \<Rightarrow> []),
          Timestamp = timestamp,
          IP = (case ctx of Some c \<Rightarrow> ClientIP c | None \<Rightarrow> []),
          APIKey = u_APIKey record,
          APIKeyMasked = MaskAPIKey (u_APIKey record),
          Model = u_Model record,
          Provider = u_Provider record,
          IsStreaming =
            (case ctx of
               Some c \<Rightarrow> (case Keys c ''is_streaming'' of Some (ABool b) \<Rightarrow> b | _ \<Rightarrow> False)
             | None \<Rightarrow> False),
          InputTokens = d_InputTokens (u_Detail record),
          OutputTokens = d_OutputTokens (u_Detail record),
          TotalTokens = d_InputTokens (u_Detail record) + d_OutputTokens (u_Detail record),
          CachedTokens = d_CachedTokens (u_Detail record),
          ReasoningTokens = d_ReasoningTokens (u_Detail record),
          DurationMs = (case ctx of Some c \<Rightarrow> durationMs_of now c record | None \<Rightarrow> 0),
          StatusCode = statusCode,
          Success = success,
          RequestURL =
            (case ctx of
               Some c \<Rightarrow> (case Request c of Some req \<Rightarrow> URL_String req | None \<Rightarrow> [])
             | None \<Rightarrow> []),
          RequestMethod =
            (case ctx of
               Some c \<Rightarrow> (case Request c of Some req \<Rightarrow> Method req | None \<Rightarrow> [])
             | None \<Rightarrow> []),
          RequestHeaders =
            (case ctx of
               Some c \<Rightarrow>
                 (case Request c of
                    Some req \<Rightarrow> captureHeadersBestEffort (Header req)
                  | None \<Rightarrow> Map.empty)
             | None \<Rightarrow> Map.empty),
          RequestBody = (case ctx of Some c \<Rightarrow> bytes_key c ''request_body_for_log'' | None \<Rightarrow> []),
          ResponseHeaders =
            (case ctx of
               Some c \<Rightarrow> captureHeadersBestEffort (Writer_Header c)
             | None \<Rightarrow> Map.empty),
          ResponseBody =
            (case ctx of Some c \<Rightarrow> bytes_key c ''response_body_for_log'' | None \<Rightarrow> [])\<rparr>)"

definition incrementorCalls :: "Plugin \<Rightarrow> usage_Record \<Rightarrow> callback list" where
  "incrementorCalls p record =
     (if tokenIncrementor p \<and> u_APIKey record \<noteq> []
         \<and> (0 <s d_InputTokens (u_Detail record) \<or> 0 <s d_OutputTokens (u_Detail record))
      then [TokenIncrement (u_APIKey record) (d_InputTokens (u_Detail record))
              (d_OutputTokens (u_Detail record))]
      else [])
     @ (if usageIncrementor p \<and> u_APIKey record \<noteq> []
        then [UsageIncrement (u_APIKey record)]
        else [])"

text \<open>
  \<^verbatim>\<open>HandleUsage\<close>. With a positive record id in the context the start record is patched
  in place; when there is none, or the patch returns an error, a full record is put on
  the write queue. The result is the plugin with its store after the call and the
  callbacks invoked.
\<close>

definition HandleUsage ::
  "((string \<rightharpoonup> string) \<Rightarrow> string) \<Rightarrow> string option \<Rightarrow> Time \<Rightarrow> Plugin
     \<Rightarrow> gin_Context option \<Rightarrow> usage_Record \<Rightarrow> Plugin \<times> callback list" where
  "HandleUsage marshal dberr now p ctx record =
     (case store p of
        None \<Rightarrow> (p, [])
      | Some s \<Rightarrow>
          if \<not> enabled p then (p, [])
          else (let recordDBID = (case ctx of Some c \<Rightarrow> recordDBID_of c | None \<Rightarrow> 0);
                    isStreaming =
                      (case ctx of
                         Some c \<Rightarrow>
                           (case Keys c ''is_streaming'' of Some (ABool b) \<Rightarrow> b | _ \<Rightarrow> False)
                       | None \<Rightarrow> False);
                    (patched, s1) =
                      (if 0 < recordDBID
                       then (case PatchByID marshal dberr s recordDBID
                                    (usagePatch record isStreaming) of
                               (Inr _, s') \<Rightarrow> (True, s')
                             | (Inl _, s') \<Rightarrow> (False, s'))
                       else (False, s));
                    s2 = (if \<not> patched
                          then snd (EnqueueUsageRecord s1 (fallbackRecord now ctx record))
                          else s1)
                in (p\<lparr>store := Some s2\<rparr>, incrementorCalls p record)))"

section \<open>The candidate hook (part\_002)\<close>

text \<open>The event \<^verbatim>\<open>cliproxyauth.Candidate\<close>, with the fields the hook reads.\<close>

record Candidate =
  c_RequestID :: string
  c_Provider :: string
  c_AuthID :: string
  c_AuthFile :: string
  c_Status :: string
  c_StatusCode :: int
  c_Success :: bool
  c_DurationMs :: int
  c_ErrorMessage :: string
  c_CandidateIndex :: int
  c_RetryIndex :: int

record RequestCandidate =
  rc_ID :: int
  rc_RequestID :: string
  rc_Timestamp :: Time
  rc_Provider :: string
  rc_APIKey :: string
  rc_APIKeyMasked :: string
  rc_Status :: string
  rc_StatusCode :: int
  rc_Success :: bool
  rc_DurationMs :: int
  rc_ErrorMessage :: string
  rc_CandidateIndex :: int
  rc_RetryIndex :: int

text \<open>
  The record that \<^verbatim>\<open>OnCandidate\<close> builds, \<open>None\<close> when it returns before building one.
\<close>

definition candidateRecord :: "Time \<Rightarrow> Candidate \<Rightarrow> RequestCandidate option" where
  "candidateRecord now candidate =
     (let requestID = strings_TrimSpace (c_RequestID candidate)
      in if requestID = [] then None
         else (let provider = strings_TrimSpace (c_Provider candidate);
                   authID = strings_TrimSpace (c_AuthID candidate);
                   authFile0 = strings_TrimSpace (c_AuthFile candidate);
                   authFile = (if authFile0 = [] then authID else authFile0)
               in if authID = [] \<and> authFile = [] then None
                  else (let status0 = strings_TrimSpace (c_Status candidate);
                            status =
                              (if status0 = ''pending'' \<or> status0 = ''success''
                                  \<or> status0 = ''failed'' \<or> status0 = ''skipped''
                               then status0
                               else if c_Success candidate then ''success'' else ''failed'');
                            statusCode =
                              (if c_StatusCode candidate = 0 \<and> status = ''success'' then 200
                               else c_StatusCode candidate)
                        in Some \<lparr>rc_ID = 0,
                                 rc_RequestID = requestID,
                                 rc_Timestamp = now,
                                 rc_Provider = provider,
                                 rc_APIKey = authID,
                                 rc_APIKeyMasked = authFile,
                                 rc_Status = status,
                                 rc_StatusCode = statusCode,
                                 rc_Success = c_Success candidate,
                                 rc_DurationMs = c_DurationMs candidate,
                                 rc_ErrorMessage = strings_TrimSpace (c_ErrorMessage candidate),
                                 rc_CandidateIndex = c_CandidateIndex candidate,
                                 rc_RetryIndex = c_RetryIndex candidate\<rparr>)))"

definition candidate_row :: "RequestCandidate \<Rightarrow> row" where
  "candidate_row r =
     [''request_id'' \<mapsto> SQLText (rc_RequestID r),
      ''timestamp'' \<mapsto> SQLText (Format_RFC3339 (rc_Timestamp r)),
      ''provider'' \<mapsto> SQLText (rc_Provider r),
      ''api_key'' \<mapsto> SQLText (rc_APIKey r),
      ''api_key_masked'' \<mapsto> SQLText (rc_APIKeyMasked r),
      ''status'' \<mapsto> SQLText (rc_Status r),
      ''status_code'' \<mapsto> SQLInt (rc_StatusCode r),
      ''success'' \<mapsto> sqlBool (rc_Success r),
      ''duration_ms'' \<mapsto> SQLInt (rc_DurationMs r),
      ''error_message'' \<mapsto> SQLText (rc_ErrorMessage r),
      ''candidate_index'' \<mapsto> SQLInt (rc_CandidateIndex r),
      ''retry_index'' \<mapsto> SQLInt (rc_RetryIndex r)]"

text \<open>\<^verbatim>\<open>InsertRequestCandidate\<close> (store.go): one more row, unless the store is closed
  or the driver reports an error.\<close>

definition InsertRequestCandidate ::
  "string option \<Rightarrow> Store \<Rightarrow> RequestCandidate \<Rightarrow> error option \<times> Store" where
  "InsertRequestCandidate dberr s r =
     (if closed s then (Some ErrStoreClosed, s)
      else (case dberr of
              Some e \<Rightarrow> (Some (ErrInsert e), s)
            | None \<Rightarrow> (None, s\<lparr>request_candidates := request_candidates s @ [candidate_row r]\<rparr>)))"

text \<open>
  \<^verbatim>\<open>OnCandidate\<close> with the insert of its goroutine carried out: the default store, if
  there is one, after the event. An error of the insert is logged and dropped.
\<close>

definition OnCandidate ::
  "string option \<Rightarrow> Time \<Rightarrow> Store option \<Rightarrow> Candidate \<Rightarrow> Store option" where
  "OnCandidate dberr now defaultStore candidate =
     (case defaultStore of
        None \<Rightarrow> None
      | Some s \<Rightarrow>
          (case candidateRecord now candidate of
             None \<Rightarrow> Some s
           | Some r \<Rightarrow> Some (snd (InsertRequestCandidate dberr s r))))"


subsection \<open>The fallback order of the specification\<close>

text \<open>
  The fallback order as the specification words it: the captured body if non-empty,
  else the upstream bytes if non-blank, else the panic message if a panic occurred,
  else the collected errors, else the synthesized status line when the final status is
  at least 400, else the empty string. The panic message and the errors are taken
  trimmed, as the code stores them.
\<close>

definition captured_body :: "gin_Context \<Rightarrow> string" where
  "captured_body c =
     (case Keys c ''response_body_for_log'' of
        Some (ABytes t) \<Rightarrow> t
      | Some (AString t) \<Rightarrow> t
      | _ \<Rightarrow> [])"

definition upstream_body :: "gin_Context \<Rightarrow> string" where
  "upstream_body c = (case Keys c ''API_RESPONSE'' of Some (ABytes b) \<Rightarrow> b | _ \<Rightarrow> [])"

definition panic_message :: "(any \<Rightarrow> string) \<Rightarrow> gin_Context \<Rightarrow> string" where
  "panic_message render c =
     (case Keys c ginUsageRecordPanicKey of
        Some v \<Rightarrow> strings_TrimSpace (fmt_Sprint render v)
      | None \<Rightarrow> [])"

definition stated_responseBody :: "(any \<Rightarrow> string) \<Rightarrow> gin_Context \<Rightarrow> bool \<Rightarrow> string" where
  "stated_responseBody render c recovered =
     (if captured_body c \<noteq> [] then captured_body c
      else if strings_TrimSpace (upstream_body c) \<noteq> [] then upstream_body c
      else if recovered then panic_message render c
      else if Errors c \<noteq> [] then strings_TrimSpace (errorMsgs_String (Errors c))
      else if 400 \<le> Writer_Status c
           then ''HTTP '' @ itoa (Writer_Status c) @ '' '' @ http_StatusText (Writer_Status c)
      else [])"

text \<open>
  A request whose handler panicked with an empty message, with nothing captured and
  no errors collected.
\<close>

definition blank_panic_context :: gin_Context where
  "blank_panic_context =
     \<lparr>Request = None,
      Keys = [ginUsageRecordPanicKey \<mapsto> AString []],
      Writer_Status = 200,
      Writer_Header = Map.empty,
      Errors = [],
      ClientIP = ''10.0.0.1'',
      GinRequestID = ''abc''\<rparr>"


subsection \<open>Example inputs\<close>

text \<open>
  A request that ends with the informational status 101 and no panic, for a start
  record with id 1.
\<close>

definition status101_context :: gin_Context where
  "status101_context =
     \<lparr>Request = Some \<lparr>URL_Path = ''/v1/chat/completions'', URL_RawQuery = [],
                      URL_String = ''/v1/chat/completions'', Method = ''POST'',
                      Header = Map.empty\<rparr>,
      Keys = [ginUsageRecordIDKey \<mapsto> AInt64 1],
      Writer_Status = 101,
      Writer_Header = Map.empty,
      Errors = [],
      ClientIP = ''10.0.0.1'',
      GinRequestID = ''abc''\<rparr>"

definition pending_store :: Store where
  "pending_store =
     \<lparr>closed = False,
      usage_records = [1 \<mapsto> [''request_id'' \<mapsto> SQLText ''abc'', ''provider'' \<mapsto> SQLText ''pending'',
                           ''status_code'' \<mapsto> SQLInt 0, ''success'' \<mapsto> SQLInt 1,
                           ''total_tokens'' \<mapsto> SQLInt 0]],
      last_insert_id = 1,
      request_candidates = [],
      cache = None,
      writeQueue = Some []\<rparr>"


section \<open>The read path (store.go)\<close>

subsection \<open>\<^verbatim>\<open>time.Date\<close> and \<^verbatim>\<open>Time.AddDate\<close>\<close>

text \<open>
  \<^verbatim>\<open>time.Date\<close> for a month between 1 and 12 in a zone of offset \<open>off\<close>; a day past the
  end of the month runs on into the next one.
\<close>

definition time_Date ::
  "int \<Rightarrow> int \<Rightarrow> int \<Rightarrow> int \<Rightarrow> int \<Rightarrow> int \<Rightarrow> int \<Rightarrow> int \<Rightarrow> Time" where
  "time_Date year month day hour minute sec nsec off =
     \<lparr>unixNano = (days_from_civil year month day * 86400 + hour * 3600 + minute * 60 + sec
                   - off) * Second + nsec,
      zoneOffset = off\<rparr>"

definition Nanosecond :: "Time \<Rightarrow> int" where
  "Nanosecond t = unixNano t mod Second"

text \<open>\<^verbatim>\<open>t.AddDate(0, 0, days)\<close>.\<close>

definition AddDate_days :: "Time \<Rightarrow> int \<Rightarrow> Time" where
  "AddDate_days t days =
     time_Date (Year t) (Month t) (Day t + days) (HourOf t) (MinuteOf t) (SecondOf t)
       (Nanosecond t) (zoneOffset t)"

lemma days_from_civil_date:
  "days_from_civil (Year t) (Month t) (Day t + n) = wallSec t div 86400 + n"
proof -
  obtain y m d where c: "civil_from_days (wallSec t div 86400) = (y, m, d)"
    by (cases "civil_from_days (wallSec t div 86400)")
  have "days_from_civil y m d = wallSec t div 86400"
    using days_from_civil_civil_from_days [of "wallSec t div 86400"] c by simp
  moreover have "days_from_civil y m (d + n) = days_from_civil y m d + n"
    by (simp add: days_from_civil_def Let_def)
  ultimately show ?thesis
    by (simp add: Year_def Month_def Day_def c)
qed

lemma clock_of_day:
  "HourOf t * 3600 + MinuteOf t * 60 + SecondOf t = wallSec t mod 86400"
proof -
  define w where "w = wallSec t"
  define r where "r = w mod 86400"
  define r2 where "r2 = w mod 3600"
  have a: "r mod 3600 = r2"
    unfolding r_def r2_def by (simp add: mod_mod_cancel)
  have b: "r2 mod 60 = w mod 60"
    unfolding r2_def by (simp add: mod_mod_cancel)
  have "r = 3600 * (r div 3600) + r mod 3600" by simp
  moreover have "r2 = 60 * (r2 div 60) + r2 mod 60" by simp
  ultimately have "r = 3600 * (r div 3600) + (60 * (r2 div 60) + w mod 60)"
    using a b by simp
  then show ?thesis
    by (simp add: HourOf_def MinuteOf_def SecondOf_def w_def r_def r2_def)
qed

lemma AddDate_days_unixNano:
  "unixNano (AddDate_days t n) = unixNano t + n * 86400 * Second"
proof -
  define w where "w = wallSec t"
  have w: "w div 86400 * 86400 + w mod 86400 = w" by simp
  have e: "unixNano t div Second * Second + unixNano t mod Second = unixNano t" by simp
  have "unixNano (AddDate_days t n)
      = ((w div 86400 + n) * 86400 + w mod 86400 - zoneOffset t) * Second + unixNano t mod Second"
    unfolding AddDate_days_def time_Date_def days_from_civil_date Nanosecond_def w_def
    using clock_of_day [of t] by (simp add: add.assoc)
  also have "\<dots> = (w + n * 86400 - zoneOffset t) * Second + unixNano t mod Second"
    using w by (simp add: algebra_simps)
  also have "\<dots> = (unixNano t div Second + n * 86400) * Second + unixNano t mod Second"
    by (simp add: w_def wallSec_def)
  also have "\<dots> = unixNano t + n * 86400 * Second"
    using e by (simp add: algebra_simps)
  finally show ?thesis .
qed

subsection \<open>\<^verbatim>\<open>ParseTimeParam\<close> and \<^verbatim>\<open>ParseTimeParamToTime\<close>\<close>

text \<open>The guard of the first branch: an integer strictly between the two bounds.\<close>

definition unixSeconds :: "string \<Rightarrow> int option" where
  "unixSeconds param =
     (case ParseInt param of
        Some ts \<Rightarrow> if 1000000000 < ts \<and> ts < 9999999999 then Some ts else None
      | None \<Rightarrow> None)"

definition ParseTimeParam :: "int \<Rightarrow> string \<Rightarrow> string" where
  "ParseTimeParam tz param =
     (if param = [] then []
      else (case unixSeconds param of
              Some ts \<Rightarrow> Format_RFC3339 (time_Unix tz ts)
            | None \<Rightarrow>
          (case time_Parse RFC3339 param of
              Some t \<Rightarrow> Format_RFC3339 (Local tz t)
            | None \<Rightarrow>
          (case time_Parse RFC3339Nano param of
              Some t \<Rightarrow> Format_RFC3339 (Local tz t)
            | None \<Rightarrow>
          (case time_Parse ISOMillisZ param of
              Some t \<Rightarrow> Format_RFC3339 (Local tz t)
            | None \<Rightarrow>
          (case time_Parse ISOSecondsZ param of
              Some t \<Rightarrow> Format_RFC3339 (Local tz t)
            | None \<Rightarrow> param))))))"

definition ParseTimeParamToTime :: "int \<Rightarrow> string \<Rightarrow> Time" where
  "ParseTimeParamToTime tz param =
     (if param = [] then zeroTime
      else (case unixSeconds param of
              Some ts \<Rightarrow> time_Unix tz ts
            | None \<Rightarrow>
          (case time_Parse RFC3339 param of
              Some t \<Rightarrow> Local tz t
            | None \<Rightarrow>
          (case time_Parse RFC3339Nano param of
              Some t \<Rightarrow> Local tz t
            | None \<Rightarrow>
          (case time_Parse ISOMillisZ param of
              Some t \<Rightarrow> Local tz t
            | None \<Rightarrow>
          (case time_Parse ISOSecondsZ param of
              Some t \<Rightarrow> Local tz t
            | None \<Rightarrow> zeroTime))))))"

subsection \<open>\<^verbatim>\<open>GetUsageKPIs\<close>\<close>

record KPITrendPoint =
  kp_T :: string
  kp_V :: int

record UsageKPIs =
  k_GeneratedAt :: string
  k_TotalRequests :: int
  k_SuccessRequests :: int
  k_FailureRequests :: int
  k_TotalTokens :: int
  k_CachedTokens :: int
  k_ReasoningTokens :: int
  k_RPM :: int
  k_TPM :: int
  k_TrendBucket :: string
  k_RequestsTrend :: "KPITrendPoint list"
  k_TokensTrend :: "KPITrendPoint list"
  k_RPMTrend :: "KPITrendPoint list"
  k_TPMTrend :: "KPITrendPoint list"

text \<open>
  The answers of the database to the five statements of \<^verbatim>\<open>GetUsageKPIs\<close>, each an error
  message or a result: the totals row; the rows of the trend statement, which depends
  on the key expression; the count and the sum of the last minute; the rows of the
  per-minute statement. A row is \<open>None\<close> when its \<^verbatim>\<open>Scan\<close> fails.
\<close>

record kpi_answers =
  totalsRow :: "string + (int \<times> int \<times> int \<times> int \<times> int \<times> int)"
  trendRows :: "string \<Rightarrow> string + (string \<times> int \<times> int) option list"
  rpmCount :: "string + int"
  tpmSum :: "string + int"
  minuteRows :: "string + (string \<times> int \<times> int) option list"

text \<open>\<^verbatim>\<open>strings.Replace(s, "T", " ", 1)\<close>: the first \<^verbatim>\<open>T\<close> becomes a space.\<close>

fun replace_first_T :: "string \<Rightarrow> string" where
  "replace_first_T [] = []"
| "replace_first_T (c # cs) = (if c = CHR ''T'' then CHR '' '' # cs else c # replace_first_T cs)"

text \<open>
  The two maps filled from the rows, as one map from label to the pair of requests and
  tokens; a later row with the same label overwrites an earlier one, a row that does
  not scan is skipped.
\<close>

definition aggMaps ::
  "(string \<Rightarrow> string) \<Rightarrow> (string \<times> int \<times> int) option list \<Rightarrow> (string \<rightharpoonup> int \<times> int)" where
  "aggMaps label rows =
     fold (\<lambda>row m. case row of
                      None \<Rightarrow> m
                    | Some (key, requests, tokens) \<Rightarrow> m(label key \<mapsto> (requests, tokens)))
          rows Map.empty"

text \<open>Reading a missing key of a Go map gives the zero value.\<close>

definition requestsPoint :: "(string \<rightharpoonup> int \<times> int) \<Rightarrow> string \<Rightarrow> KPITrendPoint" where
  "requestsPoint m label =
     \<lparr>kp_T = label, kp_V = (case m label of Some (requests, tokens) \<Rightarrow> requests | None \<Rightarrow> 0)\<rparr>"

definition tokensPoint :: "(string \<rightharpoonup> int \<times> int) \<Rightarrow> string \<Rightarrow> KPITrendPoint" where
  "tokensPoint m label =
     \<lparr>kp_T = label, kp_V = (case m label of Some (requests, tokens) \<Rightarrow> tokens | None \<Rightarrow> 0)\<rparr>"

text \<open>
  The three loops \<^verbatim>\<open>for t := start; !t.After(end); t = ...\<close>, by the step they take:
  one hour, one minute, one calendar day.
\<close>

function hoursUpTo :: "Time \<Rightarrow> Time \<Rightarrow> Time list" where
  "hoursUpTo h endHour = (if After h endHour then [] else h # hoursUpTo (Add h Hour) endHour)"
  by pat_completeness auto
termination
  by (relation "measure (\<lambda>(h, e). nat (unixNano e - unixNano h + 1))")
     (auto simp: After_def Add_def Hour_def Minute_def Second_def)

function minutesUpTo :: "Time \<Rightarrow> Time \<Rightarrow> Time list" where
  "minutesUpTo t minEnd =
     (if After t minEnd then [] else t # minutesUpTo (Add t Minute) minEnd)"
  by pat_completeness auto
termination
  by (relation "measure (\<lambda>(t, e). nat (unixNano e - unixNano t + 1))")
     (auto simp: After_def Add_def Minute_def Second_def)

function daysUpTo :: "Time \<Rightarrow> Time \<Rightarrow> Time list" where
  "daysUpTo d endDay = (if After d endDay then [] else d # daysUpTo (AddDate_days d 1) endDay)"
  by pat_completeness auto
termination
  by (relation "measure (\<lambda>(d, e). nat (unixNano e - unixNano d + 1))")
     (auto simp: After_def AddDate_days_unixNano Second_def)

declare hoursUpTo.simps [simp del] minutesUpTo.simps [simp del] daysUpTo.simps [simp del]

text \<open>The window of the trend, after the defaults and the swap.\<close>

definition trendWindow :: "int \<Rightarrow> Time \<Rightarrow> string \<Rightarrow> string \<Rightarrow> Time \<times> Time" where
  "trendWindow tz now startTime endTime =
     (let trendStart0 = ParseTimeParamToTime tz startTime;
          trendEnd0 = ParseTimeParamToTime tz endTime;
          trendEnd1 = (if IsZero trendEnd0 then now else trendEnd0);
          trendStart1 = (if IsZero trendStart0 then Add trendEnd1 (- 24 * Hour) else trendStart0)
      in if After trendStart1 trendEnd1 then (trendEnd1, trendStart1)
         else (trendStart1, trendEnd1))"

definition trendBucket :: "Time \<Rightarrow> Time \<Rightarrow> string" where
  "trendBucket trendStart trendEnd =
     (if 48 * Hour < Sub trendEnd trendStart then ''day'' else ''hour'')"

text \<open>\<^verbatim>\<open>time.Date(t.Year(), t.Month(), t.Day(), 0, 0, 0, 0, t.Location())\<close>.\<close>

definition startOfDay :: "Time \<Rightarrow> Time" where
  "startOfDay t = time_Date (Year t) (Month t) (Day t) 0 0 0 0 (zoneOffset t)"

definition trendLabels :: "string \<Rightarrow> Time \<Rightarrow> Time \<Rightarrow> string list" where
  "trendLabels bucket trendStart trendEnd =
     (if bucket = ''day''
      then map Format_day (daysUpTo (startOfDay trendStart) (startOfDay trendEnd))
      else map Format_hour (hoursUpTo (Truncate trendStart Hour) (Truncate trendEnd Hour)))"

definition trendLabelOfKey :: "string \<Rightarrow> string \<Rightarrow> string" where
  "trendLabelOfKey bucket key =
     (if bucket = ''hour'' then replace_first_T key @ '':00'' else key)"

definition trendKeyExpr :: "string \<Rightarrow> string" where
  "trendKeyExpr bucket =
     (if bucket = ''day'' then ''substr(timestamp, 1, 10)'' else ''substr(timestamp, 1, 13)'')"

text \<open>
  \<^verbatim>\<open>GetUsageKPIs\<close>. \<open>now\<close> is the clock, \<open>db\<close> the answers of the database; the WHERE
  clause and its arguments only travel to the database and are left out.
\<close>

definition GetUsageKPIs ::
  "int \<Rightarrow> Time \<Rightarrow> Store \<Rightarrow> kpi_answers \<Rightarrow> string \<Rightarrow> string \<Rightarrow> error + UsageKPIs" where
  "GetUsageKPIs tz now s db startTime endTime =
     (if closed s then Inl ErrStoreClosed
      else (case totalsRow db of
              Inl e \<Rightarrow> Inl (ErrQuery e)
            | Inr (nTotal, nSuccess, nFailure, nTokens, nCached, nReasoning) \<Rightarrow>
          (let (trendStart, trendEnd) = trendWindow tz now startTime endTime;
               bucket = trendBucket trendStart trendEnd
           in (case trendRows db (trendKeyExpr bucket) of
                 Inl e \<Rightarrow> Inl (ErrQuery e)
               | Inr rows \<Rightarrow>
             (let agg = aggMaps (trendLabelOfKey bucket) rows;
                  labels = trendLabels bucket trendStart trendEnd
              in (case rpmCount db of
                    Inl e \<Rightarrow> Inl (ErrQuery e)
                  | Inr rpm \<Rightarrow>
                (case tpmSum db of
                    Inl e \<Rightarrow> Inl (ErrQuery e)
                  | Inr tpm \<Rightarrow>
                (case minuteRows db of
                    Inl e \<Rightarrow> Inl (ErrQuery e)
                  | Inr mrows \<Rightarrow>
                (let minEnd = Truncate trendEnd Minute;
                     minStart = Add minEnd (- (59 * Minute));
                     magg = aggMaps replace_first_T mrows;
                     mlabels = map Format_minute (minutesUpTo minStart minEnd)
                 in Inr \<lparr>k_GeneratedAt = Format_RFC3339 now,
                         k_TotalRequests = nTotal,
                         k_SuccessRequests = nSuccess,
                         k_FailureRequests = nFailure,
                         k_TotalTokens = nTokens,
                         k_CachedTokens = nCached,
                         k_ReasoningTokens = nReasoning,
                         k_RPM = rpm,
                         k_TPM = tpm,
                         k_TrendBucket = bucket,
                         k_RequestsTrend = map (requestsPoint agg) labels,
                         k_TokensTrend = map (tokensPoint agg) labels,
                         k_RPMTrend = map (requestsPoint magg) mlabels,
                         k_TPMTrend = map (tokensPoint magg) mlabels\<rparr>)))))))))"


subsection \<open>The times of a loop\<close>

text \<open>
  The times visited by a loop that starts at \<open>a\<close> and adds \<open>step\<close> while the time is
  not after \<open>b\<close>: \<open>a\<close>, \<open>a + step\<close>, ... up to the last one not after \<open>b\<close>.
\<close>

definition stepCount :: "int \<Rightarrow> Time \<Rightarrow> Time \<Rightarrow> nat" where
  "stepCount step a b =
     (if unixNano b < unixNano a then 0 else Suc (nat ((unixNano b - unixNano a) div step)))"

definition progression :: "int \<Rightarrow> Time \<Rightarrow> nat \<Rightarrow> Time list" where
  "progression step a n = map (\<lambda>i. Add a (int i * step)) [0..<n]"


text \<open>Answers of a database with three requests in one hour and none in the last minute.\<close>

definition example_answers :: kpi_answers where
  "example_answers =
     \<lparr>totalsRow = Inr (3, 2, 1, 120, 0, 0),
      trendRows = (\<lambda>keyExpr. Inr [Some (''2025-01-11T08'', 3, 120)]),
      rpmCount = Inr 0,
      tpmSum = Inr 0,
      minuteRows = Inr []\<rparr>"


subsection \<open>\<^verbatim>\<open>List\<close>\<close>

record ListQuery =
  q_Page :: int
  q_PageSize :: int
  q_APIKey :: string
  q_Model :: string
  q_Provider :: string
  q_StartTime :: string
  q_EndTime :: string
  q_Success :: "bool option"
  q_Search :: string
  q_SortBy :: string
  q_SortOrder :: string
  q_IncludeKPIs :: bool

record ListResult =
  r_Records :: "Record list"
  r_Total :: int
  r_Page :: int
  r_PageSize :: int
  r_TotalPages :: int
  r_KPIs :: "UsageKPIs option"

text \<open>
  The answers of the database to the two statements of \<^verbatim>\<open>List\<close>: the count, and the rows
  of the SELECT in its order, before \<^verbatim>\<open>LIMIT\<close> and \<^verbatim>\<open>OFFSET\<close> are applied. The WHERE
  clause, the sort column and the direction only travel to the database.
\<close>

record list_answers =
  countRow :: "string + int"
  selectRows :: "string + row list"

text \<open>Arithmetic on Go's \<^verbatim>\<open>int\<close> and \<^verbatim>\<open>int64\<close> wraps around at 64 bits.\<close>

definition wrap64 :: "int \<Rightarrow> int" where
  "wrap64 x = sint (word_of_int x :: 64 word)"

text \<open>
  \<^verbatim>\<open>LIMIT n OFFSET k\<close> of SQLite for a limit that is not negative: a negative offset
  counts as 0.
\<close>

definition sql_limit_offset :: "int \<Rightarrow> int \<Rightarrow> 'a list \<Rightarrow> 'a list" where
  "sql_limit_offset n k rows = take (nat n) (drop (nat k) rows)"

definition colInt :: "row \<Rightarrow> string \<Rightarrow> int option" where
  "colInt r col = (case r col of Some (SQLInt n) \<Rightarrow> Some n | _ \<Rightarrow> None)"

definition colText :: "row \<Rightarrow> string \<Rightarrow> string option" where
  "colText r col = (case r col of Some (SQLText t) \<Rightarrow> Some t | _ \<Rightarrow> None)"

definition parse_or_zero :: "layout \<Rightarrow> string \<Rightarrow> Time" where
  "parse_or_zero l value = (case time_Parse l value of Some t \<Rightarrow> t | None \<Rightarrow> zeroTime)"

text \<open>The stored timestamp, read with the first of three layouts that gives a time.\<close>

definition parseStoredTimestamp :: "string \<Rightarrow> Time" where
  "parseStoredTimestamp timestamp =
     (let t1 = parse_or_zero RFC3339 timestamp;
          t2 = (if IsZero t1 then parse_or_zero SpaceSeconds timestamp else t1);
          t3 = (if IsZero t2 then parse_or_zero ISOSecondsZ timestamp else t2)
      in t3)"

text \<open>
  \<^verbatim>\<open>rows.Scan\<close> and the decoding after it; \<open>None\<close> when a column is missing or of the
  wrong kind, and the row is skipped. \<open>unmarshal\<close> is \<^verbatim>\<open>json.Unmarshal\<close> into a string
  map, \<open>None\<close> for an error.
\<close>

definition scanRecord :: "(string \<Rightarrow> (string \<rightharpoonup> string) option) \<Rightarrow> row \<Rightarrow> Record option" where
  "scanRecord unmarshal r = do {
     i \<leftarrow> colInt r ''id'';
     requestID \<leftarrow> colText r ''request_id'';
     timestamp \<leftarrow> colText r ''timestamp'';
     ip \<leftarrow> colText r ''ip'';
     apiKey \<leftarrow> colText r ''api_key'';
     apiKeyMasked \<leftarrow> colText r ''api_key_masked'';
     model \<leftarrow> colText r ''model'';
     provider \<leftarrow> colText r ''provider'';
     isStreaming \<leftarrow> colInt r ''is_streaming'';
     inputTokens \<leftarrow> colInt r ''input_tokens'';
     outputTokens \<leftarrow> colInt r ''output_tokens'';
     totalTokens \<leftarrow> colInt r ''total_tokens'';
     cachedTokens \<leftarrow> colInt r ''cached_tokens'';
     reasoningTokens \<leftarrow> colInt r ''reasoning_tokens'';
     durationMs \<leftarrow> colInt r ''duration_ms'';
     statusCode \<leftarrow> colInt r ''status_code'';
     success \<leftarrow> colInt r ''success'';
     requestURL \<leftarrow> colText r ''request_url'';
     requestMethod \<leftarrow> colText r ''request_method'';
     reqHeadersJSON \<leftarrow> colText r ''request_headers'';
     requestBody \<leftarrow> colText r ''request_body'';
     respHeadersJSON \<leftarrow> colText r ''response_headers'';
     responseBody \<leftarrow> colText r ''response_body'';
     Some \<lparr>ID = i,
           RequestID = requestID,
           Timestamp = parseStoredTimestamp timestamp,
           IP = ip,
           APIKey = apiKey,
           APIKeyMasked = apiKeyMasked,
           Model = model,
           Provider = provider,
           IsStreaming = (isStreaming = 1),
           InputTokens = word_of_int inputTokens,
           OutputTokens = word_of_int outputTokens,
           TotalTokens = word_of_int totalTokens,
           CachedTokens = word_of_int cachedTokens,
           ReasoningTokens = word_of_int reasoningTokens,
           DurationMs = durationMs,
           StatusCode = statusCode,
           Success = (success = 1),
           RequestURL = requestURL,
           RequestMethod = requestMethod,
           RequestHeaders = (case unmarshal reqHeadersJSON of Some h \<Rightarrow> h | None \<Rightarrow> Map.empty),
           RequestBody = requestBody,
           ResponseHeaders = (case unmarshal respHeadersJSON of Some h \<Rightarrow> h | None \<Rightarrow> Map.empty),
           ResponseBody = responseBody\<rparr>
   }"

text \<open>
  \<^verbatim>\<open>List\<close>. \<open>la\<close> and \<open>ka\<close> are the answers of the database to the statements of
  \<^verbatim>\<open>List\<close> and of \<^verbatim>\<open>GetUsageKPIs\<close>; an error of the latter is logged and leaves the
  KPIs out.
\<close>

definition List ::
  "int \<Rightarrow> Time \<Rightarrow> (string \<Rightarrow> (string \<rightharpoonup> string) option) \<Rightarrow> Store \<Rightarrow> list_answers
     \<Rightarrow> kpi_answers \<Rightarrow> ListQuery \<Rightarrow> error + ListResult" where
  "List tz now unmarshal s la ka query =
     (if closed s then Inl ErrStoreClosed
      else (let page = (if q_Page query < 1 then 1 else q_Page query);
                pageSize0 = (if q_PageSize query < 1 then 20 else q_PageSize query);
                pageSize = (if 100 < pageSize0 then 100 else pageSize0)
            in (case countRow la of
                  Inl e \<Rightarrow> Inl (ErrQuery e)
                | Inr n \<Rightarrow>
              (let offset = wrap64 ((page - 1) * pageSize)
               in (case selectRows la of
                     Inl e \<Rightarrow> Inl (ErrQuery e)
                   | Inr rows \<Rightarrow>
                 (let records = List.map_filter (scanRecord unmarshal)
                                  (sql_limit_offset pageSize offset rows);
                      totalPages = go_quot (wrap64 (wrap64 (n + pageSize) - 1)) pageSize
                  in Inr \<lparr>r_Records = records,
                          r_Total = n,
                          r_Page = page,
                          r_PageSize = pageSize,
                          r_TotalPages = totalPages,
                          r_KPIs =
                            (if q_IncludeKPIs query
                             then (case GetUsageKPIs tz now s ka (q_StartTime query)
                                          (q_EndTime query) of
                                     Inl e \<Rightarrow> None
                                   | Inr kpis \<Rightarrow> Some kpis)
                             else None)\<rparr>))))))"


subsection \<open>\<^verbatim>\<open>float64\<close>\<close>

text \<open>
  A finite \<^verbatim>\<open>float64\<close> is a rational number, and an operation of Go on two of them
  is the exact result rounded to 53 significant bits, to the nearest value and to the
  even one of two nearest values. \<open>float64 x\<close> is that rounding; it is also the conversion
  of an integer. The exponent is not bounded here: the values of the code below stay
  far inside the range of the normal numbers.
\<close>

text \<open>The number of binary digits of a positive integer.\<close>

function bitlen :: "int \<Rightarrow> nat" where
  "bitlen n = (if n \<le> 0 then 0 else Suc (bitlen (n div 2)))"
  by pat_completeness auto

termination bitlen
  by (relation "measure nat") auto

declare bitlen.simps [simp del]

text \<open>The exponent of a positive \<open>x\<close>: the \<open>e\<close> with \<open>2 powi e \<le> x < 2 powi (e + 1)\<close>.\<close>

definition ilog2 :: "rat \<Rightarrow> int" where
  "ilog2 x = (if 1 \<le> x then int (bitlen \<lfloor>x\<rfloor>) - 1
              else - int (bitlen (\<lceil>1 / x\<rceil> - 1)))"

definition roundEven :: "rat \<Rightarrow> int" where
  "roundEven r =
     (let f = \<lfloor>r\<rfloor>; d = r - of_int f
      in if d < 1 / 2 then f
         else if 1 / 2 < d then f + 1
         else if even f then f else f + 1)"

definition round53 :: "rat \<Rightarrow> rat" where
  "round53 x = (let q = 2 powi (ilog2 x - 52) in of_int (roundEven (x / q)) * q)"

definition float64 :: "rat \<Rightarrow> rat" where
  "float64 x = (if x = 0 then 0 else if 0 < x then round53 x else - round53 (- x))"

text \<open>The conversion \<^verbatim>\<open>int(f)\<close> drops the fraction.\<close>

definition toInt :: "rat \<Rightarrow> int" where
  "toInt f = (if 0 \<le> f then \<lfloor>f\<rfloor> else \<lceil>f\<rceil>)"

text \<open>The remainder \<^verbatim>\<open>a % b\<close> of Go has the sign of \<open>a\<close>.\<close>

definition go_rem :: "int \<Rightarrow> int \<Rightarrow> int" where
  "go_rem a b = a - b * go_quot a b"

text \<open>
  \<^verbatim>\<open>Duration.Minutes\<close>:
  \<^verbatim>\<open>min := d / Minute; nsec := d % Minute; return float64(min) + float64(nsec)/(60*1e9)\<close>.
\<close>

definition Minutes :: "int \<Rightarrow> rat" where
  "Minutes d =
     (let min = go_quot d Minute;
          nsec = go_rem d Minute
      in float64 (float64 (of_int min) + float64 (float64 (of_int nsec) / (60 * 1000000000))))"

subsection \<open>\<^verbatim>\<open>GetIntervalTimeline\<close>\<close>

record recordData =
  rd_timestamp :: Time
  rd_model :: string

record IntervalTimelinePoint =
  itp_X :: string
  itp_Y :: rat
  itp_Model :: string

text \<open>\<^verbatim>\<open>Models\<close> is filled by ranging over a Go map, in no fixed order: a set.\<close>

record IntervalTimelineResult =
  itr_AnalysisPeriodHours :: int
  itr_TotalPoints :: int
  itr_Points :: "IntervalTimelinePoint list"
  itr_Models :: "string set"

text \<open>
  One row of the SELECT: scanned, its timestamp read with the three layouts, and
  skipped (\<open>None\<close>) when the scan fails or no layout gives a time.
\<close>

definition scanTimelineRow :: "row \<Rightarrow> recordData option" where
  "scanTimelineRow r =
     (case colText r ''timestamp'' of
        None \<Rightarrow> None
      | Some timestampStr \<Rightarrow>
     (case colText r ''model'' of
        None \<Rightarrow> None
      | Some model \<Rightarrow>
     (let ts = parseStoredTimestamp timestampStr
      in if IsZero ts then None
         else Some \<lparr>rd_timestamp = ts, rd_model = model\<rparr>)))"

text \<open>
  The body of the loop over \<open>i = 1 .. len(records) - 1\<close>, for \<open>prev = records[i-1]\<close> and
  \<open>cur = records[i]\<close>: \<open>None\<close> is \<^verbatim>\<open>continue\<close>. The product \<open>interval * 100\<close> that
  is converted is at most \<open>12000\<close>, and its size is below \<open>2 ^ 34\<close>: inside the range of
  \<^verbatim>\<open>int\<close>.
\<close>

definition intervalPoint :: "recordData \<Rightarrow> recordData \<Rightarrow> IntervalTimelinePoint option" where
  "intervalPoint prev cur =
     (let interval = Minutes (Sub (rd_timestamp cur) (rd_timestamp prev))
      in if 120 < interval then None
         else Some \<lparr>itp_X = Format_RFC3339 (rd_timestamp cur),
                    itp_Y = float64 (float64 (of_int (toInt (float64 (interval * 100)))) / 100),
                    itp_Model = rd_model cur\<rparr>)"

fun intervalPoints :: "recordData list \<Rightarrow> IntervalTimelinePoint list" where
  "intervalPoints (prev # cur # rest) =
     (case intervalPoint prev cur of None \<Rightarrow> [] | Some p \<Rightarrow> [p])
       @ intervalPoints (cur # rest)"
| "intervalPoints rest = []"

text \<open>
  The sampling loop. \<^verbatim>\<open>step := float64(len(points)) / float64(limit)\<close>, and for
  \<open>i = 0 .. limit - 1\<close> the index is \<^verbatim>\<open>int(float64(i) * step)\<close>; the point at the index
  is appended when the index is below \<open>len(points)\<close>. The index is never negative.
\<close>

definition sampleStep :: "nat \<Rightarrow> int \<Rightarrow> rat" where
  "sampleStep len limit = float64 (float64 (of_nat len) / float64 (of_int limit))"

definition sampleIndex :: "nat \<Rightarrow> int \<Rightarrow> int \<Rightarrow> int" where
  "sampleIndex len limit i = toInt (float64 (float64 (of_int i) * sampleStep len limit))"

definition sampleEvenly :: "int \<Rightarrow> 'a list \<Rightarrow> 'a list" where
  "sampleEvenly limit points =
     concat (map (\<lambda>i. let idx = sampleIndex (length points) limit (int i)
                       in if idx < int (length points) then [points ! nat idx] else [])
                 [0..<nat limit])"

text \<open>
  \<^verbatim>\<open>GetIntervalTimeline\<close>. \<open>answer\<close> is the answer of the database to the SELECT of the
  successful records since \<open>hours\<close> hours ago, in its order; the start of the window only
  travels to the database.
\<close>

definition GetIntervalTimeline ::
  "Store \<Rightarrow> string + row list \<Rightarrow> int \<Rightarrow> int \<Rightarrow> error + IntervalTimelineResult" where
  "GetIntervalTimeline s answer hours limit =
     (if closed s then Inl ErrStoreClosed
      else (let hours1 = (if hours < 1 then 24 else hours);
                hours2 = (if 720 < hours1 then 720 else hours1);
                limit1 = (if limit < 1 then 5000 else limit);
                limit2 = (if 10000 < limit1 then 10000 else limit1)
            in (case answer of
                  Inl e \<Rightarrow> Inl (ErrQuery e)
                | Inr rows \<Rightarrow>
              (let records = List.map_filter scanTimelineRow rows;
                   points = intervalPoints records;
                   models = set (filter (\<lambda>m. m \<noteq> []) (map itp_Model points));
                   sampled = (if limit2 < int (length points) then sampleEvenly limit2 points
                              else points)
               in Inr \<lparr>itr_AnalysisPeriodHours = hours2,
                       itr_TotalPoints = int (length sampled),
                       itr_Points = sampled,
                       itr_Models = models\<rparr>))))"

text \<open>
  The words of the specification: the consecutive pairs at most 120 minutes apart, and
  the index \<open>\<lfloor>i \<cdot> len / limit\<rfloor>\<close> of the \<open>i\<close>-th sample.
\<close>

definition spec_pairs :: "recordData list \<Rightarrow> (recordData \<times> recordData) list" where
  "spec_pairs records =
     filter (\<lambda>(prev, cur). unixNano (rd_timestamp cur) - unixNano (rd_timestamp prev)
                               \<le> 120 * Minute)
       (zip records (tl records))"

definition spec_index :: "nat \<Rightarrow> int \<Rightarrow> int \<Rightarrow> int" where
  "spec_index len limit i = (i * int len) div limit"

text \<open>A row of a successful record of the model \<open>m\<close> with the stored timestamp.\<close>

definition timeline_row :: "string \<Rightarrow> row" where
  "timeline_row timestamp = [''timestamp'' \<mapsto> SQLText timestamp, ''model'' \<mapsto> SQLText ''m'']"


section \<open>Sensitive header mask\<close>

lemma strings_Repeat_star: "strings_Repeat ''*'' n = replicate n (CHR ''*'')"
  by (induction n) (simp_all add: strings_Repeat_def)

text \<open>
  C10. A header value that goes through the sensitive-header mask is stored as
  \<open>length v\<close> asterisks when it has at most 8 bytes, and otherwise as its first four
  bytes, three dots and its last four bytes: a stored value of length 11, of which only
  eight bytes come from the input. The capture of headers applies this mask to the first
  value of every sensitive key. The shape differs from the API-key mask, which keeps the
  length of its input and shows two bytes on each side.
\<close>

theorem maskValue_shape:
  "(length v \<le> 8 \<longrightarrow> maskValue v = replicate (length v) (CHR ''*''))
   \<and> (8 < length v \<longrightarrow>
        maskValue v = take 4 v @ ''...'' @ drop (length v - 4) v
        \<and> length (maskValue v) = 11
        \<and> maskValue v \<noteq> MaskAPIKey v
        \<and> length (MaskAPIKey v) = length v)
   \<and> (isSensitiveHeader key \<and> headers key = Some (v # vs) \<longrightarrow>
        captureHeadersBestEffort headers key = Some (maskValue v))"
proof (intro conjI impI)
  assume "length v \<le> 8"
  then show "maskValue v = replicate (length v) (CHR ''*'')"
    by (simp add: maskValue_def strings_Repeat_star)
next
  assume "8 < length v"
  then show "maskValue v = take 4 v @ ''...'' @ drop (length v - 4) v"
    by (simp add: maskValue_def)
next
  assume "8 < length v"
  then show "length (maskValue v) = 11"
    by (simp add: maskValue_def)
next
  assume long: "8 < length v"
  have a: "maskValue v ! 4 = CHR ''.''"
    using long by (simp add: maskValue_def nth_append)
  have mid: "2 < length v - 4"
    using long by arith
  have b: "MaskAPIKey v ! 4 = CHR ''*''"
    using long mid by (simp add: MaskAPIKey_def strings_Repeat_star nth_append)
  show "maskValue v \<noteq> MaskAPIKey v"
    using a b by auto
next
  assume "8 < length v"
  then show "length (MaskAPIKey v) = length v"
    by (simp add: MaskAPIKey_def strings_Repeat_star)
next
  assume "isSensitiveHeader key \<and> headers key = Some (v # vs)"
  then show "captureHeadersBestEffort headers key = Some (maskValue v)"
    by (simp add: captureHeadersBestEffort_def)
qed

theorem maskValue_shape_witness:
  "length ''secret'' \<le> 8 \<and> maskValue ''secret'' = ''******''
   \<and> 8 < length ''Bearer sk-12345''
   \<and> maskValue ''Bearer sk-12345'' = ''Bear...2345''
   \<and> length (maskValue ''Bearer sk-12345'') = 11
   \<and> isSensitiveHeader ''Authorization''
   \<and> captureHeadersBestEffort [''Authorization'' \<mapsto> [''Bearer sk-12345'']] ''Authorization''
       = Some ''Bear...2345''"
proof -
  have s: "isSensitiveHeader ''Authorization''"
    by (simp add: isSensitiveHeader_def sensitivePatterns_def strings_ToLower_def lower_byte_def
        strings_HasPrefix_def)
  have a: "maskValue ''secret'' = ''******''"
    using maskValue_shape [of "''secret''" "''Authorization''" "Map.empty" "[]"] by simp
  have b: "maskValue ''Bearer sk-12345'' = ''Bear...2345''
      \<and> length (maskValue ''Bearer sk-12345'') = 11
      \<and> captureHeadersBestEffort [''Authorization'' \<mapsto> [''Bearer sk-12345'']] ''Authorization''
          = Some (maskValue ''Bearer sk-12345'')"
    using s maskValue_shape [of "''Bearer sk-12345''" "''Authorization''"
        "[''Authorization'' \<mapsto> [''Bearer sk-12345'']]" "[]"]
    by simp
  show ?thesis using s a b by simp
qed

section \<open>Candidate hook\<close>




section \<open>Partial updates\<close>

lemma fold_assign_map_filter:
  "distinct (map fst fs) \<Longrightarrow>
   fold (\<lambda>(col, v) r'. r'(col \<mapsto> v))
        (List.map_filter (\<lambda>(col, arg). map_option (\<lambda>v. (col, v)) arg) fs) r c
   = (case map_of fs c of Some (Some v) \<Rightarrow> Some v | _ \<Rightarrow> r c)"
proof (induction fs arbitrary: r)
  case Nil
  then show ?case by (simp add: List.map_filter_simps)
next
  case (Cons f fs)
  obtain col arg where f: "f = (col, arg)" by (cases f)
  from Cons.prems f have fresh: "map_of fs col = None" and d: "distinct (map fst fs)"
    by (auto simp: map_of_eq_None_iff)
  show ?case
  proof (cases arg)
    case None
    then show ?thesis
      using Cons.IH [OF d, of r] f fresh
      by (auto simp: List.map_filter_simps split: option.splits)
  next
    case (Some v)
    then show ?thesis
      using Cons.IH [OF d, of "r(col \<mapsto> v)"] f fresh
      by (auto simp: List.map_filter_simps split: option.splits)
  qed
qed

lemma patch_fields_distinct: "distinct (map fst (patch_fields marshal patch))"
  by (simp add: patch_fields_def)

lemma patch_sets_empty_iff: "patch_sets marshal patch = [] \<longleftrightarrow> patch = emptyPatch"
proof
  assume "patch = emptyPatch"
  then show "patch_sets marshal patch = []"
    by (simp add: patch_sets_def patch_fields_def emptyPatch_def List.map_filter_simps)
next
  assume e: "patch_sets marshal patch = []"
  have "\<forall>f \<in> set (patch_fields marshal patch). snd f = None"
  proof
    fix f assume m: "f \<in> set (patch_fields marshal patch)"
    show "snd f = None"
    proof (rule ccontr)
      assume "snd f \<noteq> None"
      then obtain v where v: "snd f = Some v" by auto
      obtain col where f: "f = (col, Some v)" using v by (cases f) auto
      have "(col, v) \<in> set (patch_sets marshal patch)"
        unfolding patch_sets_def List.map_filter_def using m f by force
      with e show False by simp
    qed
  qed
  then show "patch = emptyPatch"
    by (cases patch) (simp add: patch_fields_def emptyPatch_def)
qed

lemma PatchByID_found:
  assumes "\<not> closed s" and "0 < i" and "patch \<noteq> emptyPatch" and "usage_records s i = Some r"
  shows "PatchByID marshal None s i patch =
           (Inr 1,
            invalidateCaches
              (s\<lparr>usage_records := (usage_records s)
                    (i \<mapsto> fold (\<lambda>(col, v) r'. r'(col \<mapsto> v)) (patch_sets marshal patch) r)\<rparr>))"
  using assms
  by (simp add: PatchByID_def isClosed_def patch_sets_empty_iff sql_update_def Let_def)

lemma PatchByID_row:
  assumes "\<not> closed s" and "0 < i" and "patch \<noteq> emptyPatch" and "usage_records s i = Some r"
  shows "\<exists>s' r'. PatchByID marshal None s i patch = (Inr 1, s')
            \<and> usage_records s' i = Some r'
            \<and> (\<forall>col. r' col =
                  (case map_of (patch_fields marshal patch) col of
                     Some (Some v) \<Rightarrow> Some v
                   | _ \<Rightarrow> r col))
            \<and> (\<forall>j. j \<noteq> i \<longrightarrow> usage_records s' j = usage_records s j)
            \<and> request_candidates s' = request_candidates s
            \<and> closed s' = closed s
            \<and> last_insert_id s' = last_insert_id s
            \<and> writeQueue s' = writeQueue s
            \<and> cache s' = clear (cache s)
            \<and> (\<forall>q. cache s' = Some q \<longrightarrow> entries q = Map.empty)"
proof -
  let ?r' = "fold (\<lambda>(col, v) r'. r'(col \<mapsto> v)) (patch_sets marshal patch) r"
  let ?s' = "invalidateCaches (s\<lparr>usage_records := (usage_records s)(i \<mapsto> ?r')\<rparr>)"
  have run: "PatchByID marshal None s i patch = (Inr 1, ?s')"
    using PatchByID_found [OF assms] .
  have cols: "\<forall>col. ?r' col =
                (case map_of (patch_fields marshal patch) col of
                   Some (Some v) \<Rightarrow> Some v
                 | _ \<Rightarrow> r col)"
    unfolding patch_sets_def
    using fold_assign_map_filter [OF patch_fields_distinct] by blast
  have cleared: "\<forall>q. cache ?s' = Some q \<longrightarrow> entries q = Map.empty"
    by (auto simp: invalidateCaches_def clear_def split: option.splits)
  have rest: "usage_records ?s' i = Some ?r'"
    "\<forall>j. j \<noteq> i \<longrightarrow> usage_records ?s' j = usage_records s j"
    "request_candidates ?s' = request_candidates s"
    "closed ?s' = closed s"
    "last_insert_id ?s' = last_insert_id s"
    "writeQueue ?s' = writeQueue s"
    "cache ?s' = clear (cache s)"
    by (simp_all add: invalidateCaches_def)
  show ?thesis
    using run cols cleared rest by blast
qed

lemma patch_fields_columns:
  "map fst (patch_fields marshal patch) =
     [''timestamp'', ''ip'', ''api_key'', ''api_key_masked'', ''model'', ''provider'',
      ''is_streaming'', ''input_tokens'', ''output_tokens'', ''total_tokens'',
      ''cached_tokens'', ''reasoning_tokens'', ''duration_ms'', ''status_code'', ''success'',
      ''request_url'', ''request_method'', ''request_headers'', ''request_body'',
      ''response_headers'', ''response_body'']"
  by (simp add: patch_fields_def)

lemma PatchByID_refused:
  "closed s \<Longrightarrow> PatchByID marshal dberr s i patch = (Inl ErrStoreClosed, s)"
  "\<not> closed s \<Longrightarrow> i \<le> 0 \<Longrightarrow> PatchByID marshal dberr s i patch = (Inl ErrInvalidRecordID, s)"
  "\<not> closed s \<Longrightarrow> 0 < i \<Longrightarrow> PatchByID marshal dberr s i emptyPatch = (Inr 0, s)"
  "\<not> closed s \<Longrightarrow> 0 < i \<Longrightarrow> patch \<noteq> emptyPatch
     \<Longrightarrow> PatchByID marshal (Some e) s i patch = (Inl (ErrUpdate e), s)"
  by (simp_all add: PatchByID_def isClosed_def patch_sets_empty_iff)

lemma PatchByID_missing:
  assumes "\<not> closed s" and "0 < i" and "patch \<noteq> emptyPatch" and "usage_records s i = None"
  shows "\<exists>s'. PatchByID marshal None s i patch = (Inr 0, s')
            \<and> usage_records s' = usage_records s
            \<and> cache s' = clear (cache s)"
  using assms
  by (simp add: PatchByID_def isClosed_def patch_sets_empty_iff sql_update_def Let_def
      invalidateCaches_def)

text \<open>
  C7, as stated, fails for a record id that is not positive: with every patch field nil,
  \<^verbatim>\<open>PatchByID\<close> on an open store and the id 0 returns the error of an invalid record id,
  not 0 rows affected with no error.
\<close>

theorem PatchByID_invalid_id_counterexample:
  "PatchByID (\<lambda>h. ''{}'') None pending_store 0 emptyPatch
     = (Inl ErrInvalidRecordID, pending_store)"
  by (simp add: PatchByID_def isClosed_def pending_store_def)

text \<open>
  C7, amended. On a closed store \<^verbatim>\<open>PatchByID\<close> returns the error of a closed store, and on
  an open store with an id that is not positive the error of an invalid record id, for
  every patch and with the store as it was. On an open store and for a positive id: a
  patch with every field nil changes nothing and returns 0 rows affected with no
  error; for any other patch, an error of the database is returned with the store as it
  was; otherwise, when the row exists, each of the 21 columns has the value of its own
  patch field when that field is set (a time as RFC 3339 text, a boolean as 0 or 1, a
  header map as its JSON text) and its old value when the field is nil, every other
  column, every other row, the candidate rows and the write queue are as before, 1 row
  is affected and the query cache is emptied; when the row does not exist no row
  changes, 0 is returned and the cache is emptied.
\<close>

theorem PatchByID_frame:
  "(closed s \<longrightarrow> PatchByID marshal dberr s i patch = (Inl ErrStoreClosed, s))
   \<and> (\<not> closed s \<and> i \<le> 0 \<longrightarrow> PatchByID marshal dberr s i patch = (Inl ErrInvalidRecordID, s))
   \<and> (\<not> closed s \<and> 0 < i \<longrightarrow> PatchByID marshal dberr s i emptyPatch = (Inr 0, s))
   \<and> (\<not> closed s \<and> 0 < i \<and> patch \<noteq> emptyPatch
        \<longrightarrow> PatchByID marshal (Some e) s i patch = (Inl (ErrUpdate e), s))
   \<and> (\<not> closed s \<and> 0 < i \<and> patch \<noteq> emptyPatch \<and> usage_records s i = Some r \<longrightarrow>
        (\<exists>s' r'. PatchByID marshal None s i patch = (Inr 1, s')
           \<and> usage_records s' i = Some r'
           \<and> r' ''timestamp'' = (case p_Timestamp patch of
                 None \<Rightarrow> r ''timestamp'' | Some t \<Rightarrow> Some (SQLText (Format_RFC3339 t)))
           \<and> r' ''ip'' = (case p_IP patch of
                 None \<Rightarrow> r ''ip'' | Some v \<Rightarrow> Some (SQLText v))
           \<and> r' ''api_key'' = (case p_APIKey patch of
                 None \<Rightarrow> r ''api_key'' | Some v \<Rightarrow> Some (SQLText v))
           \<and> r' ''api_key_masked'' = (case p_APIKeyMasked patch of
                 None \<Rightarrow> r ''api_key_masked'' | Some v \<Rightarrow> Some (SQLText v))
           \<and> r' ''model'' = (case p_Model patch of
                 None \<Rightarrow> r ''model'' | Some v \<Rightarrow> Some (SQLText v))
           \<and> r' ''provider'' = (case p_Provider patch of
                 None \<Rightarrow> r ''provider'' | Some v \<Rightarrow> Some (SQLText v))
           \<and> r' ''is_streaming'' = (case p_IsStreaming patch of
                 None \<Rightarrow> r ''is_streaming'' | Some b \<Rightarrow> Some (SQLInt (if b then 1 else 0)))
           \<and> r' ''input_tokens'' = (case p_InputTokens patch of
                 None \<Rightarrow> r ''input_tokens'' | Some n \<Rightarrow> Some (SQLInt (sint n)))
           \<and> r' ''output_tokens'' = (case p_OutputTokens patch of
                 None \<Rightarrow> r ''output_tokens'' | Some n \<Rightarrow> Some (SQLInt (sint n)))
           \<and> r' ''total_tokens'' = (case p_TotalTokens patch of
                 None \<Rightarrow> r ''total_tokens'' | Some n \<Rightarrow> Some (SQLInt (sint n)))
           \<and> r' ''cached_tokens'' = (case p_CachedTokens patch of
                 None \<Rightarrow> r ''cached_tokens'' | Some n \<Rightarrow> Some (SQLInt (sint n)))
           \<and> r' ''reasoning_tokens'' = (case p_ReasoningTokens patch of
                 None \<Rightarrow> r ''reasoning_tokens'' | Some n \<Rightarrow> Some (SQLInt (sint n)))
           \<and> r' ''duration_ms'' = (case p_DurationMs patch of
                 None \<Rightarrow> r ''duration_ms'' | Some n \<Rightarrow> Some (SQLInt n))
           \<and> r' ''status_code'' = (case p_StatusCode patch of
                 None \<Rightarrow> r ''status_code'' | Some n \<Rightarrow> Some (SQLInt n))
           \<and> r' ''success'' = (case p_Success patch of
                 None \<Rightarrow> r ''success'' | Some b \<Rightarrow> Some (SQLInt (if b then 1 else 0)))
           \<and> r' ''request_url'' = (case p_RequestURL patch of
                 None \<Rightarrow> r ''request_url'' | Some v \<Rightarrow> Some (SQLText v))
           \<and> r' ''request_method'' = (case p_RequestMethod patch of
                 None \<Rightarrow> r ''request_method'' | Some v \<Rightarrow> Some (SQLText v))
           \<and> r' ''request_headers'' = (case p_RequestHeaders patch of
                 None \<Rightarrow> r ''request_headers'' | Some h \<Rightarrow> Some (SQLText (marshal h)))
           \<and> r' ''request_body'' = (case p_RequestBody patch of
                 None \<Rightarrow> r ''request_body'' | Some v \<Rightarrow> Some (SQLText v))
           \<and> r' ''response_headers'' = (case p_ResponseHeaders patch of
                 None \<Rightarrow> r ''response_headers'' | Some h \<Rightarrow> Some (SQLText (marshal h)))
           \<and> r' ''response_body'' = (case p_ResponseBody patch of
                 None \<Rightarrow> r ''response_body'' | Some v \<Rightarrow> Some (SQLText v))
           \<and> (\<forall>col. col \<notin> set [''timestamp'', ''ip'', ''api_key'', ''api_key_masked'', ''model'',
                          ''provider'', ''is_streaming'', ''input_tokens'', ''output_tokens'',
                          ''total_tokens'', ''cached_tokens'', ''reasoning_tokens'',
                          ''duration_ms'', ''status_code'', ''success'', ''request_url'',
                          ''request_method'', ''request_headers'', ''request_body'',
                          ''response_headers'', ''response_body'']
                  \<longrightarrow> r' col = r col)
           \<and> (\<forall>j. j \<noteq> i \<longrightarrow> usage_records s' j = usage_records s j)
           \<and> request_candidates s' = request_candidates s
           \<and> writeQueue s' = writeQueue s
           \<and> last_insert_id s' = last_insert_id s
           \<and> closed s' = closed s
           \<and> cache s' = clear (cache s)
           \<and> (\<forall>q. cache s' = Some q \<longrightarrow> entries q = Map.empty)))
   \<and> (\<not> closed s \<and> 0 < i \<and> patch \<noteq> emptyPatch \<and> usage_records s i = None \<longrightarrow>
        (\<exists>s'. PatchByID marshal None s i patch = (Inr 0, s')
           \<and> usage_records s' = usage_records s
           \<and> cache s' = clear (cache s)))"
proof -
  have found: "\<exists>s' r'. PatchByID marshal None s i patch = (Inr 1, s')
           \<and> usage_records s' i = Some r'
           \<and> r' ''timestamp'' = (case p_Timestamp patch of
                 None \<Rightarrow> r ''timestamp'' | Some t \<Rightarrow> Some (SQLText (Format_RFC3339 t)))
           \<and> r' ''ip'' = (case p_IP patch of
                 None \<Rightarrow> r ''ip'' | Some v \<Rightarrow> Some (SQLText v))
           \<and> r' ''api_key'' = (case p_APIKey patch of
                 None \<Rightarrow> r ''api_key'' | Some v \<Rightarrow> Some (SQLText v))
           \<and> r' ''api_key_masked'' = (case p_APIKeyMasked patch of
                 None \<Rightarrow> r ''api_key_masked'' | Some v \<Rightarrow> Some (SQLText v))
           \<and> r' ''model'' = (case p_Model patch of
                 None \<Rightarrow> r ''model'' | Some v \<Rightarrow> Some (SQLText v))
           \<and> r' ''provider'' = (case p_Provider patch of
                 None \<Rightarrow> r ''provider'' | Some v \<Rightarrow> Some (SQLText v))
           \<and> r' ''is_streaming'' = (case p_IsStreaming patch of
                 None \<Rightarrow> r ''is_streaming'' | Some b \<Rightarrow> Some (SQLInt (if b then 1 else 0)))
           \<and> r' ''input_tokens'' = (case p_InputTokens patch of
                 None \<Rightarrow> r ''input_tokens'' | Some n \<Rightarrow> Some (SQLInt (sint n)))
           \<and> r' ''output_tokens'' = (case p_OutputTokens patch of
                 None \<Rightarrow> r ''output_tokens'' | Some n \<Rightarrow> Some (SQLInt (sint n)))
           \<and> r' ''total_tokens'' = (case p_TotalTokens patch of
                 None \<Rightarrow> r ''total_tokens'' | Some n \<Rightarrow> Some (SQLInt (sint n)))
           \<and> r' ''cached_tokens'' = (case p_CachedTokens patch of
                 None \<Rightarrow> r ''cached_tokens'' | Some n \<Rightarrow> Some (SQLInt (sint n)))
           \<and> r' ''reasoning_tokens'' = (case p_ReasoningTokens patch of
                 None \<Rightarrow> r ''reasoning_tokens'' | Some n \<Rightarrow> Some (SQLInt (sint n)))
           \<and> r' ''duration_ms'' = (case p_DurationMs patch of
                 None \<Rightarrow> r ''duration_ms'' | Some n \<Rightarrow> Some (SQLInt n))
           \<and> r' ''status_code'' = (case p_StatusCode patch of
                 None \<Rightarrow> r ''status_code'' | Some n \<Rightarrow> Some (SQLInt n))
           \<and> r' ''success'' = (case p_Success patch of
                 None \<Rightarrow> r ''success'' | Some b \<Rightarrow> Some (SQLInt (if b then 1 else 0)))
           \<and> r' ''request_url'' = (case p_RequestURL patch of
                 None \<Rightarrow> r ''request_url'' | Some v \<Rightarrow> Some (SQLText v))
           \<and> r' ''request_method'' = (case p_RequestMethod patch of
                 None \<Rightarrow> r ''request_method'' | Some v \<Rightarrow> Some (SQLText v))
           \<and> r' ''request_headers'' = (case p_RequestHeaders patch of
                 None \<Rightarrow> r ''request_headers'' | Some h \<Rightarrow> Some (SQLText (marshal h)))
           \<and> r' ''request_body'' = (case p_RequestBody patch of
                 None \<Rightarrow> r ''request_body'' | Some v \<Rightarrow> Some (SQLText v))
           \<and> r' ''response_headers'' = (case p_ResponseHeaders patch of
                 None \<Rightarrow> r ''response_headers'' | Some h \<Rightarrow> Some (SQLText (marshal h)))
           \<and> r' ''response_body'' = (case p_ResponseBody patch of
                 None \<Rightarrow> r ''response_body'' | Some v \<Rightarrow> Some (SQLText v))
           \<and> (\<forall>col. col \<notin> set [''timestamp'', ''ip'', ''api_key'', ''api_key_masked'', ''model'',
                          ''provider'', ''is_streaming'', ''input_tokens'', ''output_tokens'',
                          ''total_tokens'', ''cached_tokens'', ''reasoning_tokens'',
                          ''duration_ms'', ''status_code'', ''success'', ''request_url'',
                          ''request_method'', ''request_headers'', ''request_body'',
                          ''response_headers'', ''response_body'']
                  \<longrightarrow> r' col = r col)
           \<and> (\<forall>j. j \<noteq> i \<longrightarrow> usage_records s' j = usage_records s j)
           \<and> request_candidates s' = request_candidates s
           \<and> writeQueue s' = writeQueue s
           \<and> last_insert_id s' = last_insert_id s
           \<and> closed s' = closed s
           \<and> cache s' = clear (cache s)
           \<and> (\<forall>q. cache s' = Some q \<longrightarrow> entries q = Map.empty)"
    if h: "\<not> closed s" "0 < i" "patch \<noteq> emptyPatch" "usage_records s i = Some r"
  proof -
    from PatchByID_row [OF h, of marshal]
    obtain s' r' where run: "PatchByID marshal None s i patch = (Inr 1, s')"
      and r': "usage_records s' i = Some r'"
      and cols: "\<And>col. r' col =
                  (case map_of (patch_fields marshal patch) col of
                     Some (Some v) \<Rightarrow> Some v
                   | _ \<Rightarrow> r col)"
      and others: "\<forall>j. j \<noteq> i \<longrightarrow> usage_records s' j = usage_records s j"
      and frame: "request_candidates s' = request_candidates s" "writeQueue s' = writeQueue s"
        "last_insert_id s' = last_insert_id s" "closed s' = closed s"
      and cache: "cache s' = clear (cache s)" "\<forall>q. cache s' = Some q \<longrightarrow> entries q = Map.empty"
      by blast
    have c1: "r' ''timestamp'' = (case p_Timestamp patch of
                 None \<Rightarrow> r ''timestamp'' | Some t \<Rightarrow> Some (SQLText (Format_RFC3339 t)))"
      unfolding cols by (simp add: patch_fields_def split: option.splits)
    have c2: "r' ''ip'' = (case p_IP patch of
                 None \<Rightarrow> r ''ip'' | Some v \<Rightarrow> Some (SQLText v))"
      unfolding cols by (simp add: patch_fields_def split: option.splits)
    have c3: "r' ''api_key'' = (case p_APIKey patch of
                 None \<Rightarrow> r ''api_key'' | Some v \<Rightarrow> Some (SQLText v))"
      unfolding cols by (simp add: patch_fields_def split: option.splits)
    have c4: "r' ''api_key_masked'' = (case p_APIKeyMasked patch of
                 None \<Rightarrow> r ''api_key_masked'' | Some v \<Rightarrow> Some (SQLText v))"
      unfolding cols by (simp add: patch_fields_def split: option.splits)
    have c5: "r' ''model'' = (case p_Model patch of
                 None \<Rightarrow> r ''model'' | Some v \<Rightarrow> Some (SQLText v))"
      unfolding cols by (simp add: patch_fields_def split: option.splits)
    have c6: "r' ''provider'' = (case p_Provider patch of
                 None \<Rightarrow> r ''provider'' | Some v \<Rightarrow> Some (SQLText v))"
      unfolding cols by (simp add: patch_fields_def split: option.splits)
    have c7: "r' ''is_streaming'' = (case p_IsStreaming patch of
                 None \<Rightarrow> r ''is_streaming'' | Some b \<Rightarrow> Some (SQLInt (if b then 1 else 0)))"
      unfolding cols by (simp add: patch_fields_def sqlBool_def split: option.splits)
    have c8: "r' ''input_tokens'' = (case p_InputTokens patch of
                 None \<Rightarrow> r ''input_tokens'' | Some n \<Rightarrow> Some (SQLInt (sint n)))"
      unfolding cols by (simp add: patch_fields_def sqlInt64_def split: option.splits)
    have c9: "r' ''output_tokens'' = (case p_OutputTokens patch of
                 None \<Rightarrow> r ''output_tokens'' | Some n \<Rightarrow> Some (SQLInt (sint n)))"
      unfolding cols by (simp add: patch_fields_def sqlInt64_def split: option.splits)
    have c10: "r' ''total_tokens'' = (case p_TotalTokens patch of
                 None \<Rightarrow> r ''total_tokens'' | Some n \<Rightarrow> Some (SQLInt (sint n)))"
      unfolding cols by (simp add: patch_fields_def sqlInt64_def split: option.splits)
    have c11: "r' ''cached_tokens'' = (case p_CachedTokens patch of
                 None \<Rightarrow> r ''cached_tokens'' | Some n \<Rightarrow> Some (SQLInt (sint n)))"
      unfolding cols by (simp add: patch_fields_def sqlInt64_def split: option.splits)
    have c12: "r' ''reasoning_tokens'' = (case p_ReasoningTokens patch of
                 None \<Rightarrow> r ''reasoning_tokens'' | Some n \<Rightarrow> Some (SQLInt (sint n)))"
      unfolding cols by (simp add: patch_fields_def sqlInt64_def split: option.splits)
    have c13: "r' ''duration_ms'' = (case p_DurationMs patch of
                 None \<Rightarrow> r ''duration_ms'' | Some n \<Rightarrow> Some (SQLInt n))"
      unfolding cols by (simp add: patch_fields_def split: option.splits)
    have c14: "r' ''status_code'' = (case p_StatusCode patch of
                 None \<Rightarrow> r ''status_code'' | Some n \<Rightarrow> Some (SQLInt n))"
      unfolding cols by (simp add: patch_fields_def split: option.splits)
    have c15: "r' ''success'' = (case p_Success patch of
                 None \<Rightarrow> r ''success'' | Some b \<Rightarrow> Some (SQLInt (if b then 1 else 0)))"
      unfolding cols by (simp add: patch_fields_def sqlBool_def split: option.splits)
    have c16: "r' ''request_url'' = (case p_RequestURL patch of
                 None \<Rightarrow> r ''request_url'' | Some v \<Rightarrow> Some (SQLText v))"
      unfolding cols by (simp add: patch_fields_def split: option.splits)
    have c17: "r' ''request_method'' = (case p_RequestMethod patch of
                 None \<Rightarrow> r ''request_method'' | Some v \<Rightarrow> Some (SQLText v))"
      unfolding cols by (simp add: patch_fields_def split: option.splits)
    have c18: "r' ''request_headers'' = (case p_RequestHeaders patch of
                 None \<Rightarrow> r ''request_headers'' | Some h \<Rightarrow> Some (SQLText (marshal h)))"
      unfolding cols by (simp add: patch_fields_def split: option.splits)
    have c19: "r' ''request_body'' = (case p_RequestBody patch of
                 None \<Rightarrow> r ''request_body'' | Some v \<Rightarrow> Some (SQLText v))"
      unfolding cols by (simp add: patch_fields_def split: option.splits)
    have c20: "r' ''response_headers'' = (case p_ResponseHeaders patch of
                 None \<Rightarrow> r ''response_headers'' | Some h \<Rightarrow> Some (SQLText (marshal h)))"
      unfolding cols by (simp add: patch_fields_def split: option.splits)
    have c21: "r' ''response_body'' = (case p_ResponseBody patch of
                 None \<Rightarrow> r ''response_body'' | Some v \<Rightarrow> Some (SQLText v))"
      unfolding cols by (simp add: patch_fields_def split: option.splits)
    have c22: "\<forall>col. col \<notin> set [''timestamp'', ''ip'', ''api_key'', ''api_key_masked'', ''model'',
                          ''provider'', ''is_streaming'', ''input_tokens'', ''output_tokens'',
                          ''total_tokens'', ''cached_tokens'', ''reasoning_tokens'',
                          ''duration_ms'', ''status_code'', ''success'', ''request_url'',
                          ''request_method'', ''request_headers'', ''request_body'',
                          ''response_headers'', ''response_body'']
                  \<longrightarrow> r' col = r col"
    proof (intro allI impI)
      fix col :: string
      assume "col \<notin> set [''timestamp'', ''ip'', ''api_key'', ''api_key_masked'', ''model'',
                          ''provider'', ''is_streaming'', ''input_tokens'', ''output_tokens'',
                          ''total_tokens'', ''cached_tokens'', ''reasoning_tokens'',
                          ''duration_ms'', ''status_code'', ''success'', ''request_url'',
                          ''request_method'', ''request_headers'', ''request_body'',
                          ''response_headers'', ''response_body'']"
      then have "col \<notin> fst ` set (patch_fields marshal patch)"
        unfolding patch_fields_columns [of marshal patch, symmetric] by simp
      then have "map_of (patch_fields marshal patch) col = None"
        by (simp add: map_of_eq_None_iff)
      then show "r' col = r col"
        unfolding cols by simp
    qed
    show ?thesis
      apply (rule exI [of _ s'], rule exI [of _ r'])
      apply (intro conjI run r' c1 c2 c3 c4 c5 c6 c7 c8 c9 c10 c11 c12 c13 c14 c15 c16 c17 c18
          c19 c20 c21 c22 others frame cache)
      done
  qed
  show ?thesis
    apply (intro conjI impI)
    subgoal by (rule PatchByID_refused(1))
    subgoal by (rule PatchByID_refused(2)) simp_all
    subgoal by (rule PatchByID_refused(3)) simp_all
    subgoal by (rule PatchByID_refused(4)) simp_all
    subgoal by (rule found) simp_all
    subgoal by (rule PatchByID_missing) simp_all
    done
qed

theorem PatchByID_frame_witness:
  "\<not> closed \<lparr>closed = False,
               usage_records = [1 \<mapsto> [''api_key'' \<mapsto> SQLText ''k0'',
                                       ''api_key_masked'' \<mapsto> SQLText ''k0**'',
                                       ''provider'' \<mapsto> SQLText ''pending'']],
               last_insert_id = 1, request_candidates = [], cache = None,
               writeQueue = None\<rparr>
   \<and> (0::int) < 1
   \<and> emptyPatch\<lparr>p_APIKey := Some ''k1''\<rparr> \<noteq> emptyPatch
   \<and> (\<exists>s' r'. PatchByID (\<lambda>h. ''{}'') None
          \<lparr>closed = False,
           usage_records = [1 \<mapsto> [''api_key'' \<mapsto> SQLText ''k0'',
                                   ''api_key_masked'' \<mapsto> SQLText ''k0**'',
                                   ''provider'' \<mapsto> SQLText ''pending'']],
           last_insert_id = 1, request_candidates = [], cache = None,
           writeQueue = None\<rparr> 1 (emptyPatch\<lparr>p_APIKey := Some ''k1''\<rparr>) = (Inr 1, s')
        \<and> usage_records s' 1 = Some r'
        \<and> r' ''api_key'' = Some (SQLText ''k1'')
        \<and> r' ''api_key_masked'' = Some (SQLText ''k0**'')
        \<and> r' ''provider'' = Some (SQLText ''pending''))"
proof -
  let ?r = "[''api_key'' \<mapsto> SQLText ''k0'', ''api_key_masked'' \<mapsto> SQLText ''k0**'',
             ''provider'' \<mapsto> SQLText ''pending'']"
  let ?s = "\<lparr>closed = False, usage_records = [1 \<mapsto> ?r],
             last_insert_id = 1, request_candidates = [], cache = None,
             writeQueue = None\<rparr>"
  let ?p = "emptyPatch\<lparr>p_APIKey := Some ''k1''\<rparr>"
  have ne: "?p \<noteq> emptyPatch"
    by (simp add: emptyPatch_def)
  have open_store: "\<not> closed ?s" and pos: "(0::int) < 1"
    by simp_all
  have row: "usage_records ?s 1 = Some ?r"
    by simp
  note found = PatchByID_frame [of ?s "\<lambda>h. ''{}''" None 1 ?p "''e''" ?r,
      THEN conjunct2, THEN conjunct2, THEN conjunct2, THEN conjunct2, THEN conjunct1,
      rule_format, OF conjI [OF open_store conjI [OF pos conjI [OF ne row]]]]
  from found obtain s' r' where run: "PatchByID (\<lambda>h. ''{}'') None ?s 1 ?p = (Inr 1, s')"
    and r': "usage_records s' 1 = Some r'"
    and k: "r' ''api_key'' = (case p_APIKey ?p of
                 None \<Rightarrow> ?r ''api_key'' | Some v \<Rightarrow> Some (SQLText v))"
    and m: "r' ''api_key_masked'' = (case p_APIKeyMasked ?p of
                 None \<Rightarrow> ?r ''api_key_masked'' | Some v \<Rightarrow> Some (SQLText v))"
    and p: "r' ''provider'' = (case p_Provider ?p of
                 None \<Rightarrow> ?r ''provider'' | Some v \<Rightarrow> Some (SQLText v))"
    by blast
  have k': "r' ''api_key'' = Some (SQLText ''k1'')"
    using k by (simp add: emptyPatch_def)
  have m': "r' ''api_key_masked'' = Some (SQLText ''k0**'')"
    using m by (simp add: emptyPatch_def)
  have p': "r' ''provider'' = Some (SQLText ''pending'')"
    using p by (simp add: emptyPatch_def)
  show ?thesis
    using ne run r' k' m' p' by simp
qed


section \<open>Response body at request exit\<close>

text \<open>
  C6, as stated, fails: after a panic whose message is blank the code does not stop at
  the panic stage but goes on to the synthesized status line.
\<close>

theorem responseBody_blank_panic_counterexample:
  "extractResponseBodyBestEffort (\<lambda>v. []) blank_panic_context True
      = ''HTTP 500 Internal Server Error''
   \<and> stated_responseBody (\<lambda>v. []) blank_panic_context True = []"
  by code_simp

lemma body_from_writer_Some:
  "body_from_writer c = Some t \<longleftrightarrow>
     (Keys c ''response_body_for_log'' = Some (ABytes t) \<and> t \<noteq> [])
     \<or> (Keys c ''response_body_for_log'' = Some (AString t) \<and> strings_TrimSpace t \<noteq> [])"
  by (auto simp: body_from_writer_def split: option.splits any.splits)

lemma body_from_upstream_Some:
  "body_from_upstream c = Some b \<longleftrightarrow>
     Keys c ''API_RESPONSE'' = Some (ABytes b) \<and> strings_TrimSpace b \<noteq> []"
  by (auto simp: body_from_upstream_def split: option.splits any.splits)

lemma body_from_panic_Some:
  "body_from_panic render c recovered = Some m \<longleftrightarrow>
     recovered \<and> m \<noteq> []
     \<and> (\<exists>v. Keys c ginUsageRecordPanicKey = Some v \<and> m = strings_TrimSpace (fmt_Sprint render v))"
  by (auto simp: body_from_panic_def Let_def split: option.splits)

lemma body_from_errors_Some:
  "body_from_errors c = Some m \<longleftrightarrow>
     Errors c \<noteq> [] \<and> m \<noteq> [] \<and> m = strings_TrimSpace (errorMsgs_String (Errors c))"
  by (auto simp: body_from_errors_def Let_def)

text \<open>
  C6, amended. The stored response body is the result of the first stage that yields
  one: the captured \<^verbatim>\<open>response_body_for_log\<close> when it is a non-empty byte slice or a
  non-blank string; else the \<^verbatim>\<open>API_RESPONSE\<close> bytes when non-blank; else, after a panic,
  the trimmed panic message when it is non-blank; else the trimmed rendering of the
  collected errors when there are any and it is non-blank; else, when the final status
  (500 after a panic, the writer's status otherwise) is at least 400, the line
  \<^verbatim>\<open>HTTP <status> <reason>\<close> with the trimmed reason phrase of the code, or \<^verbatim>\<open>HTTP <status>\<close>
  for a code that has none;
  else the empty string. A 502 with nothing captured gives \<^verbatim>\<open>HTTP 502 Bad Gateway\<close>.
\<close>

theorem extractResponseBody_order:
  "(body_from_writer c = Some t \<longrightarrow> extractResponseBodyBestEffort render c recovered = t)
   \<and> (body_from_writer c = None \<and> body_from_upstream c = Some b
        \<longrightarrow> extractResponseBodyBestEffort render c recovered = b)
   \<and> (body_from_writer c = None \<and> body_from_upstream c = None
        \<and> body_from_panic render c recovered = Some m
        \<longrightarrow> extractResponseBodyBestEffort render c recovered = m)
   \<and> (body_from_writer c = None \<and> body_from_upstream c = None
        \<and> body_from_panic render c recovered = None \<and> body_from_errors c = Some e
        \<longrightarrow> extractResponseBodyBestEffort render c recovered = e)
   \<and> (body_from_writer c = None \<and> body_from_upstream c = None
        \<and> body_from_panic render c recovered = None \<and> body_from_errors c = None
        \<longrightarrow> extractResponseBodyBestEffort render c recovered =
            (let status = (if recovered then 500 else Writer_Status c);
                 text = strings_TrimSpace (http_StatusText status)
             in if status < 400 then []
                else if text = [] then ''HTTP '' @ itoa status
                else ''HTTP '' @ itoa status @ '' '' @ text))
   \<and> (body_from_writer c = None \<and> body_from_upstream c = None \<and> Errors c = []
        \<and> \<not> recovered \<and> Writer_Status c = 502
        \<longrightarrow> extractResponseBodyBestEffort render c recovered = ''HTTP 502 Bad Gateway'')
   \<and> (body_from_writer c = Some t \<longleftrightarrow>
        (Keys c ''response_body_for_log'' = Some (ABytes t) \<and> t \<noteq> [])
        \<or> (Keys c ''response_body_for_log'' = Some (AString t) \<and> strings_TrimSpace t \<noteq> []))
   \<and> (body_from_upstream c = Some b \<longleftrightarrow>
        Keys c ''API_RESPONSE'' = Some (ABytes b) \<and> strings_TrimSpace b \<noteq> [])
   \<and> (body_from_panic render c recovered = Some m \<longleftrightarrow>
        recovered \<and> m \<noteq> []
        \<and> (\<exists>v. Keys c ginUsageRecordPanicKey = Some v
              \<and> m = strings_TrimSpace (fmt_Sprint render v)))
   \<and> (body_from_errors c = Some e \<longleftrightarrow>
        Errors c \<noteq> [] \<and> e \<noteq> [] \<and> e = strings_TrimSpace (errorMsgs_String (Errors c)))"
proof -
  have last: "body_from_status c recovered =
            (let status = (if recovered then 500 else Writer_Status c);
                 text = strings_TrimSpace (http_StatusText status)
             in if status < 400 then []
                else if text = [] then ''HTTP '' @ itoa status
                else ''HTTP '' @ itoa status @ '' '' @ text)"
    by (simp add: body_from_status_def Let_def http_StatusInternalServerError_def
        http_StatusBadRequest_def)
  have text502: "strings_TrimSpace (http_StatusText 502) = ''Bad Gateway''"
    by code_simp
  have itoa502: "itoa 502 = ''502''"
    by code_simp
  have s1: "body_from_writer c = Some t \<longrightarrow> extractResponseBodyBestEffort render c recovered = t"
    by (simp add: extractResponseBodyBestEffort_def)
  have s2: "body_from_writer c = None \<and> body_from_upstream c = Some b
        \<longrightarrow> extractResponseBodyBestEffort render c recovered = b"
    by (simp add: extractResponseBodyBestEffort_def)
  have s3: "body_from_writer c = None \<and> body_from_upstream c = None
        \<and> body_from_panic render c recovered = Some m
        \<longrightarrow> extractResponseBodyBestEffort render c recovered = m"
    by (simp add: extractResponseBodyBestEffort_def)
  have s4: "body_from_writer c = None \<and> body_from_upstream c = None
        \<and> body_from_panic render c recovered = None \<and> body_from_errors c = Some e
        \<longrightarrow> extractResponseBodyBestEffort render c recovered = e"
    by (simp add: extractResponseBodyBestEffort_def)
  have s5: "body_from_writer c = None \<and> body_from_upstream c = None
        \<and> body_from_panic render c recovered = None \<and> body_from_errors c = None
        \<longrightarrow> extractResponseBodyBestEffort render c recovered =
            (let status = (if recovered then 500 else Writer_Status c);
                 text = strings_TrimSpace (http_StatusText status)
             in if status < 400 then []
                else if text = [] then ''HTTP '' @ itoa status
                else ''HTTP '' @ itoa status @ '' '' @ text)"
    using last by (simp add: extractResponseBodyBestEffort_def)
  have s6: "body_from_writer c = None \<and> body_from_upstream c = None \<and> Errors c = []
        \<and> \<not> recovered \<and> Writer_Status c = 502
        \<longrightarrow> extractResponseBodyBestEffort render c recovered = ''HTTP 502 Bad Gateway''"
  proof
    assume a: "body_from_writer c = None \<and> body_from_upstream c = None \<and> Errors c = []
        \<and> \<not> recovered \<and> Writer_Status c = 502"
    have "body_from_status c recovered = ''HTTP 502 Bad Gateway''"
      unfolding last using a text502 itoa502 by simp
    then show "extractResponseBodyBestEffort render c recovered = ''HTTP 502 Bad Gateway''"
      using a
      by (simp add: extractResponseBodyBestEffort_def body_from_panic_def body_from_errors_def)
  qed
  show ?thesis
    by (intro conjI s1 s2 s3 s4 s5 s6 body_from_writer_Some body_from_upstream_Some
        body_from_panic_Some body_from_errors_Some)
qed


theorem extractResponseBody_order_witness:
  "body_from_writer (blank_panic_context\<lparr>Writer_Status := 502\<rparr>) = None
   \<and> body_from_upstream (blank_panic_context\<lparr>Writer_Status := 502\<rparr>) = None
   \<and> Errors (blank_panic_context\<lparr>Writer_Status := 502\<rparr>) = []
   \<and> extractResponseBodyBestEffort (\<lambda>v. []) (blank_panic_context\<lparr>Writer_Status := 502\<rparr>) False
       = ''HTTP 502 Bad Gateway''
   \<and> body_from_panic (\<lambda>v. [])
         (blank_panic_context\<lparr>Keys := [ginUsageRecordPanicKey \<mapsto> AString ''boom'']\<rparr>) True
       = Some ''boom''
   \<and> extractResponseBodyBestEffort (\<lambda>v. [])
         (blank_panic_context\<lparr>Keys := [ginUsageRecordPanicKey \<mapsto> AString ''boom'']\<rparr>) True
       = ''boom''"
proof -
  let ?c = "blank_panic_context\<lparr>Writer_Status := 502\<rparr>"
  let ?d = "blank_panic_context\<lparr>Keys := [ginUsageRecordPanicKey \<mapsto> AString ''boom'']\<rparr>"
  have c: "body_from_writer ?c = None" "body_from_upstream ?c = None" "Errors ?c = []"
    "Writer_Status ?c = 502"
    by code_simp+
  have d: "body_from_writer ?d = None" "body_from_upstream ?d = None"
    "body_from_panic (\<lambda>v. []) ?d True = Some ''boom''"
    by code_simp+
  have r1: "extractResponseBodyBestEffort (\<lambda>v. []) ?c False = ''HTTP 502 Bad Gateway''"
    using extractResponseBody_order [of ?c "[]" "\<lambda>v. []" False "[]" "[]" "[]"] c by simp
  have r2: "extractResponseBodyBestEffort (\<lambda>v. []) ?d True = ''boom''"
    using extractResponseBody_order [of ?d "[]" "\<lambda>v. []" True "[]" "''boom''" "[]"] d by simp
  show ?thesis
    using c d r1 r2 by simp
qed


section \<open>The success flag\<close>

lemma finalPatch_not_empty:
  "finalPatch render now c req start url hdrs body recovered \<noteq> emptyPatch"
proof
  assume "finalPatch render now c req start url hdrs body recovered = emptyPatch"
  then have "p_IP (finalPatch render now c req start url hdrs body recovered) = p_IP emptyPatch"
    by simp
  then show False
    by (simp add: finalPatch_def emptyPatch_def Let_def)
qed

lemma usagePatch_not_empty: "usagePatch record streaming \<noteq> emptyPatch"
proof
  assume "usagePatch record streaming = emptyPatch"
  then have "p_APIKey (usagePatch record streaming) = p_APIKey emptyPatch"
    by simp
  then show False
    by (simp add: usagePatch_def emptyPatch_def)
qed

text \<open>
  C1, as stated, fails: a record finalized with status 101 is stored as successful.
\<close>

theorem success_status_101_counterexample:
  "(case patchUsageRecordFinal (\<lambda>h. ''{}'') (\<lambda>v. []) None (time_Unix 0 1736582401)
           (Some pending_store) status101_context 1 (time_Unix 0 1736582400)
           ''/v1/chat/completions'' Map.empty ''{}'' False of
      Some (Some s') \<Rightarrow>
        (case usage_records s' 1 of
           Some r' \<Rightarrow> (r' ''status_code'', r' ''success'')
         | None \<Rightarrow> (None, None))
    | _ \<Rightarrow> (None, None))
   = (Some (SQLInt 101), Some (SQLInt 1))"
  by code_simp

text \<open>
  C1, amended. When the entry middleware finalizes an existing record on an open store,
  the stored status code is 500 after a recovered panic and the writer's status
  otherwise, and the stored success flag holds exactly when that status code is
  greater than 0 and less than 400; after a panic it is therefore false. The failed
  flag of the usage event does not enter it: the in-place patch of the usage-event
  plugin leaves the success and status columns as they are. On the fallback insert of
  the plugin the success flag holds exactly when the event did not report failure and
  the status code is less than 400.
\<close>

theorem success_flag_at_completion:
  assumes "\<not> closed s" and "0 < recordID" and "usage_records s recordID = Some r"
    and "Request c = Some req"
  shows "(\<exists>s' r'. patchUsageRecordFinal marshal render None now (Some s) c recordID start url
                   hdrs body recovered = Some (Some s')
            \<and> usage_records s' recordID = Some r'
            \<and> r' ''status_code'' = Some (SQLInt (if recovered then 500 else Writer_Status c))
            \<and> r' ''success''
                = Some (sqlBool (0 < (if recovered then 500 else Writer_Status c)
                                 \<and> (if recovered then 500 else Writer_Status c) < 400)))
    \<and> (\<exists>s' r'. PatchByID marshal None s recordID (usagePatch record streaming) = (Inr 1, s')
            \<and> usage_records s' recordID = Some r'
            \<and> r' ''success'' = r ''success''
            \<and> r' ''status_code'' = r ''status_code'')
    \<and> (Success (fallbackRecord now ctx record)
          \<longleftrightarrow> \<not> u_Failed record \<and> StatusCode (fallbackRecord now ctx record) < 400)"
proof -
  let ?st = "if recovered then 500 else Writer_Status c"
  let ?p = "finalPatch render now c req start url hdrs body recovered"
  from PatchByID_row [OF assms(1,2) finalPatch_not_empty assms(3), of marshal]
  obtain s' r' where run: "PatchByID marshal None s recordID ?p = (Inr 1, s')"
    and r': "usage_records s' recordID = Some r'"
    and cols: "\<forall>col. r' col =
                  (case map_of (patch_fields marshal ?p) col of
                     Some (Some v) \<Rightarrow> Some v
                   | _ \<Rightarrow> r col)"
    by blast
  have call: "patchUsageRecordFinal marshal render None now (Some s) c recordID start url
                   hdrs body recovered = Some (Some s')"
    using assms(2,4) run by (simp add: patchUsageRecordFinal_def)
  have code: "r' ''status_code'' = Some (SQLInt ?st)"
    using cols
    by (simp add: patch_fields_def finalPatch_def emptyPatch_def Let_def
        http_StatusInternalServerError_def)
  have flag: "r' ''success'' = Some (sqlBool (0 < ?st \<and> ?st < 400))"
    using cols
    by (simp add: patch_fields_def finalPatch_def emptyPatch_def Let_def
        http_StatusInternalServerError_def http_StatusBadRequest_def)
  have final: "\<exists>s' r'. patchUsageRecordFinal marshal render None now (Some s) c recordID start url
                   hdrs body recovered = Some (Some s')
            \<and> usage_records s' recordID = Some r'
            \<and> r' ''status_code'' = Some (SQLInt ?st)
            \<and> r' ''success'' = Some (sqlBool (0 < ?st \<and> ?st < 400))"
    using call r' code flag by blast
  let ?u = "usagePatch record streaming"
  from PatchByID_row [OF assms(1,2) usagePatch_not_empty assms(3), of marshal]
  obtain t' q' where urun: "PatchByID marshal None s recordID ?u = (Inr 1, t')"
    and q': "usage_records t' recordID = Some q'"
    and ucols: "\<forall>col. q' col =
                  (case map_of (patch_fields marshal ?u) col of
                     Some (Some v) \<Rightarrow> Some v
                   | _ \<Rightarrow> r col)"
    by blast
  have keep: "q' ''success'' = r ''success''" "q' ''status_code'' = r ''status_code''"
    using ucols by (simp_all add: patch_fields_def usagePatch_def emptyPatch_def)
  have usage: "\<exists>s' r'. PatchByID marshal None s recordID ?u = (Inr 1, s')
            \<and> usage_records s' recordID = Some r'
            \<and> r' ''success'' = r ''success''
            \<and> r' ''status_code'' = r ''status_code''"
    using urun q' keep by blast
  have fallback: "Success (fallbackRecord now ctx record)
          \<longleftrightarrow> \<not> u_Failed record \<and> StatusCode (fallbackRecord now ctx record) < 400"
    by (auto simp: fallbackRecord_def Let_def http_StatusBadRequest_def)
  show ?thesis
    using final usage fallback by blast
qed

theorem success_flag_at_completion_witness:
  "\<not> closed pending_store \<and> (0::int) < 1
   \<and> Request status101_context \<noteq> None
   \<and> (\<exists>s' r'. patchUsageRecordFinal (\<lambda>h. ''{}'') (\<lambda>v. []) None (time_Unix 0 1736582401)
           (Some pending_store) (status101_context\<lparr>Writer_Status := 200\<rparr>) 1
           (time_Unix 0 1736582400) ''/v1/chat/completions'' Map.empty ''{}'' True
           = Some (Some s')
        \<and> usage_records s' 1 = Some r'
        \<and> r' ''status_code'' = Some (SQLInt 500)
        \<and> r' ''success'' = Some (SQLInt 0))"
proof -
  let ?c = "status101_context\<lparr>Writer_Status := 200\<rparr>"
  let ?req = "\<lparr>URL_Path = ''/v1/chat/completions'', URL_RawQuery = [],
               URL_String = ''/v1/chat/completions'', Method = ''POST'',
               Header = Map.empty\<rparr>"
  let ?r = "[''request_id'' \<mapsto> SQLText ''abc'', ''provider'' \<mapsto> SQLText ''pending'',
             ''status_code'' \<mapsto> SQLInt 0, ''success'' \<mapsto> SQLInt 1,
             ''total_tokens'' \<mapsto> SQLInt 0]"
  have h1: "\<not> closed pending_store" and h2: "(0::int) < 1"
    and h3: "usage_records pending_store 1 = Some ?r"
    and h4: "Request ?c = Some ?req"
    by (simp_all add: pending_store_def status101_context_def)
  have h5: "Request status101_context \<noteq> None"
    by (simp add: status101_context_def)
  show ?thesis
    using success_flag_at_completion [OF h1 h2 h3 h4, of "\<lambda>h. ''{}''" "\<lambda>v. []"
        "time_Unix 0 1736582401" "time_Unix 0 1736582400" "''/v1/chat/completions''"
        Map.empty "''{}''" True] h1 h5
    by (simp add: sqlBool_def)
qed


section \<open>Token totals\<close>

lemma HandleUsage_ignores_reported_total:
  "HandleUsage marshal dberr now p ctx (record\<lparr>u_Detail := (u_Detail record)\<lparr>d_TotalTokens := x\<rparr>\<rparr>)
     = HandleUsage marshal dberr now p ctx record"
proof -
  let ?record' = "record\<lparr>u_Detail := (u_Detail record)\<lparr>d_TotalTokens := x\<rparr>\<rparr>"
  have a: "usagePatch ?record' streaming = usagePatch record streaming" for streaming
    by (simp add: usagePatch_def)
  have b: "fallbackRecord now ctx ?record' = fallbackRecord now ctx record"
    by (cases ctx) (simp_all add: fallbackRecord_def durationMs_of_def Let_def)
  have c: "incrementorCalls p ?record' = incrementorCalls p record"
    by (auto simp: incrementorCalls_def)
  show ?thesis
    unfolding HandleUsage_def a b c by (rule refl)
qed

text \<open>
  C2. With an enabled plugin on an open store: when the context carries the id of an
  existing start record, the in-place patch stores the event's input and output tokens
  and, as total, their sum; when there is no such id, or the patch returns an error,
  the record put on the write queue carries the same three values, and they are what
  \<^verbatim>\<open>Insert\<close> writes for it. The total reported by the API does not enter: changing it
  changes nothing of what \<^verbatim>\<open>HandleUsage\<close> does. Sums are those of 64-bit integers.
\<close>

theorem HandleUsage_total_tokens:
  assumes "store p = Some s" and "enabled p" and "\<not> closed s"
  shows "(ctx = Some c \<and> 0 < recordDBID_of c \<and> usage_records s (recordDBID_of c) = Some r
          \<longrightarrow> (\<exists>s' r'. fst (HandleUsage marshal None now p ctx record) = p\<lparr>store := Some s'\<rparr>
                 \<and> usage_records s' (recordDBID_of c) = Some r'
                 \<and> r' ''input_tokens'' = Some (sqlInt64 (d_InputTokens (u_Detail record)))
                 \<and> r' ''output_tokens'' = Some (sqlInt64 (d_OutputTokens (u_Detail record)))
                 \<and> r' ''total_tokens''
                     = Some (sqlInt64 (d_InputTokens (u_Detail record)
                                       + d_OutputTokens (u_Detail record)))
                 \<and> writeQueue s' = writeQueue s))
    \<and> ((ctx = None \<or> (\<exists>c'. ctx = Some c' \<and> (recordDBID_of c' \<le> 0 \<or> dberr \<noteq> None)))
          \<and> writeQueue s = Some q \<and> length q < defaultWriteQueueSize
          \<longrightarrow> (\<exists>s' rec. fst (HandleUsage marshal dberr now p ctx record) = p\<lparr>store := Some s'\<rparr>
                 \<and> writeQueue s' = Some (q @ [InsertUsageRecord rec])
                 \<and> usage_records s' = usage_records s
                 \<and> InputTokens rec = d_InputTokens (u_Detail record)
                 \<and> OutputTokens rec = d_OutputTokens (u_Detail record)
                 \<and> TotalTokens rec = InputTokens rec + OutputTokens rec
                 \<and> (\<forall>st. \<not> closed st \<longrightarrow>
                       (\<exists>rec' st'. Insert marshal None st rec = (None, rec', st')
                          \<and> (\<exists>row. usage_records st' (ID rec') = Some row
                                \<and> row ''total_tokens''
                                    = Some (sqlInt64 (d_InputTokens (u_Detail record)
                                                      + d_OutputTokens (u_Detail record))))))))
    \<and> HandleUsage marshal dberr now p ctx
          (record\<lparr>u_Detail := (u_Detail record)\<lparr>d_TotalTokens := x\<rparr>\<rparr>)
        = HandleUsage marshal dberr now p ctx record"
proof -
  let ?in = "d_InputTokens (u_Detail record)"
  let ?out = "d_OutputTokens (u_Detail record)"
  have patched: "\<exists>s' r'. fst (HandleUsage marshal None now p ctx record) = p\<lparr>store := Some s'\<rparr>
                 \<and> usage_records s' (recordDBID_of c) = Some r'
                 \<and> r' ''input_tokens'' = Some (sqlInt64 ?in)
                 \<and> r' ''output_tokens'' = Some (sqlInt64 ?out)
                 \<and> r' ''total_tokens'' = Some (sqlInt64 (?in + ?out))
                 \<and> writeQueue s' = writeQueue s"
    if ctx: "ctx = Some c" and pos: "0 < recordDBID_of c"
      and row: "usage_records s (recordDBID_of c) = Some r"
  proof -
    let ?streaming = "case Keys c ''is_streaming'' of Some (ABool b) \<Rightarrow> b | _ \<Rightarrow> False"
    let ?u = "usagePatch record ?streaming"
    let ?r' = "fold (\<lambda>(col, v) r'. r'(col \<mapsto> v)) (patch_sets marshal ?u) r"
    let ?s' = "invalidateCaches (s\<lparr>usage_records := (usage_records s)(recordDBID_of c \<mapsto> ?r')\<rparr>)"
    have run: "PatchByID marshal None s (recordDBID_of c) ?u = (Inr 1, ?s')"
      using PatchByID_found [OF assms(3) pos usagePatch_not_empty row] .
    have cols: "?r' col =
                  (case map_of (patch_fields marshal ?u) col of
                     Some (Some v) \<Rightarrow> Some v
                   | _ \<Rightarrow> r col)" for col
      unfolding patch_sets_def
      using fold_assign_map_filter [OF patch_fields_distinct] by blast
    have call: "fst (HandleUsage marshal None now p ctx record) = p\<lparr>store := Some ?s'\<rparr>"
      using assms(1,2) ctx pos run by (simp add: HandleUsage_def Let_def)
    have vals: "?r' ''input_tokens'' = Some (sqlInt64 ?in)"
      "?r' ''output_tokens'' = Some (sqlInt64 ?out)"
      "?r' ''total_tokens'' = Some (sqlInt64 (?in + ?out))"
      unfolding cols by (simp_all add: patch_fields_def usagePatch_def emptyPatch_def)
    have rest: "usage_records ?s' (recordDBID_of c) = Some ?r'" "writeQueue ?s' = writeQueue s"
      by (simp_all add: invalidateCaches_def)
    show ?thesis
      using call vals rest by blast
  qed
  have queued: "\<exists>s' rec. fst (HandleUsage marshal dberr now p ctx record) = p\<lparr>store := Some s'\<rparr>
                 \<and> writeQueue s' = Some (q @ [InsertUsageRecord rec])
                 \<and> usage_records s' = usage_records s
                 \<and> InputTokens rec = ?in
                 \<and> OutputTokens rec = ?out
                 \<and> TotalTokens rec = InputTokens rec + OutputTokens rec
                 \<and> (\<forall>st. \<not> closed st \<longrightarrow>
                       (\<exists>rec' st'. Insert marshal None st rec = (None, rec', st')
                          \<and> (\<exists>row. usage_records st' (ID rec') = Some row
                                \<and> row ''total_tokens'' = Some (sqlInt64 (?in + ?out)))))"
    if path: "ctx = None \<or> (\<exists>c'. ctx = Some c' \<and> (recordDBID_of c' \<le> 0 \<or> dberr \<noteq> None))"
      and room: "writeQueue s = Some q" "length q < defaultWriteQueueSize"
  proof -
    let ?rec = "fallbackRecord now ctx record"
    let ?s' = "s\<lparr>writeQueue := Some (q @ [InsertUsageRecord ?rec])\<rparr>"
    have enq: "EnqueueUsageRecord s ?rec = (True, ?s')"
      using assms(3) room by (simp add: EnqueueUsageRecord_def isClosed_def)
    have unpatched: "(if 0 < i
                      then (case PatchByID marshal dberr s i (usagePatch record streaming) of
                              (Inr _, s') \<Rightarrow> (True, s')
                            | (Inl _, s') \<Rightarrow> (False, s'))
                      else (False, s)) = (False, s)"
      if "i \<le> 0 \<or> dberr \<noteq> None" for i streaming
      using that assms(3) usagePatch_not_empty [of "record" streaming]
      by (auto simp: PatchByID_def isClosed_def patch_sets_empty_iff Let_def)
    have call: "fst (HandleUsage marshal dberr now p ctx record) = p\<lparr>store := Some ?s'\<rparr>"
    proof (cases ctx)
      case None
      then show ?thesis
        using assms(1,2) enq by (simp add: HandleUsage_def Let_def)
    next
      case (Some c')
      with path have "recordDBID_of c' \<le> 0 \<or> dberr \<noteq> None" by simp
      from unpatched [OF this] show ?thesis
        using assms(1,2) enq Some by (simp add: HandleUsage_def Let_def)
    qed
    have fields: "InputTokens ?rec = ?in" "OutputTokens ?rec = ?out"
      "TotalTokens ?rec = InputTokens ?rec + OutputTokens ?rec"
      by (simp_all add: fallbackRecord_def Let_def)
    have written: "\<exists>rec' st'. Insert marshal None st ?rec = (None, rec', st')
                          \<and> (\<exists>row. usage_records st' (ID rec') = Some row
                                \<and> row ''total_tokens'' = Some (sqlInt64 (?in + ?out)))"
      if "\<not> closed st" for st
      using that fields by (simp add: Insert_def Let_def record_row_def)
    have rest: "writeQueue ?s' = Some (q @ [InsertUsageRecord ?rec])"
      "usage_records ?s' = usage_records s"
      by simp_all
    show ?thesis
      using call fields written rest by blast
  qed
  show ?thesis
    using patched queued HandleUsage_ignores_reported_total by blast
qed

theorem HandleUsage_total_tokens_witness:
  "enabled \<lparr>store = Some pending_store, enabled = True, tokenIncrementor = False,
            usageIncrementor = False\<rparr>
   \<and> \<not> closed pending_store
   \<and> 0 < recordDBID_of status101_context
   \<and> (\<exists>s' r'. fst (HandleUsage (\<lambda>h. ''{}'') None (time_Unix 0 1736582401)
                     \<lparr>store = Some pending_store, enabled = True, tokenIncrementor = False,
                      usageIncrementor = False\<rparr>
                     (Some status101_context)
                     \<lparr>u_Provider = ''gemini'', u_Model = ''m1'', u_APIKey = ''sk-123456'',
                      u_RequestedAt = time_Unix 0 1736582400, u_Failed = False,
                      u_Detail = \<lparr>d_InputTokens = 10, d_OutputTokens = 20,
                                  d_ReasoningTokens = 0, d_CachedTokens = 0,
                                  d_TotalTokens = 999\<rparr>\<rparr>)
                = \<lparr>store = Some s', enabled = True, tokenIncrementor = False,
                   usageIncrementor = False\<rparr>
          \<and> usage_records s' 1 = Some r'
          \<and> r' ''total_tokens'' = Some (SQLInt 30))"
proof -
  let ?p = "\<lparr>store = Some pending_store, enabled = True, tokenIncrementor = False,
             usageIncrementor = False\<rparr>"
  let ?r = "[''request_id'' \<mapsto> SQLText ''abc'', ''provider'' \<mapsto> SQLText ''pending'',
             ''status_code'' \<mapsto> SQLInt 0, ''success'' \<mapsto> SQLInt 1,
             ''total_tokens'' \<mapsto> SQLInt 0]"
  let ?e = "\<lparr>u_Provider = ''gemini'', u_Model = ''m1'', u_APIKey = ''sk-123456'',
             u_RequestedAt = time_Unix 0 1736582400, u_Failed = False,
             u_Detail = \<lparr>d_InputTokens = 10, d_OutputTokens = 20,
                         d_ReasoningTokens = 0, d_CachedTokens = 0,
                         d_TotalTokens = 999\<rparr>\<rparr>"
  have h1: "store ?p = Some pending_store" and h2: "enabled ?p"
    and h3: "\<not> closed pending_store"
    by (simp_all add: pending_store_def)
  have id1: "recordDBID_of status101_context = 1"
    by (simp add: recordDBID_of_def status101_context_def)
  have row: "usage_records pending_store 1 = Some ?r"
    by (simp add: pending_store_def)
  have sum: "sqlInt64 (10 + 20) = SQLInt 30"
    by (simp add: sqlInt64_def)
  have "Some status101_context = Some status101_context \<and> 0 < recordDBID_of status101_context
      \<and> usage_records pending_store (recordDBID_of status101_context) = Some ?r"
    using id1 row by simp
  with HandleUsage_total_tokens [OF h1 h2 h3, of "Some status101_context" status101_context
        ?r "\<lambda>h. ''{}''" "time_Unix 0 1736582401" ?e None "[]" 0, THEN conjunct1]
  obtain s' r' where a: "fst (HandleUsage (\<lambda>h. ''{}'') None (time_Unix 0 1736582401) ?p
                            (Some status101_context) ?e) = ?p\<lparr>store := Some s'\<rparr>"
    and b: "usage_records s' (recordDBID_of status101_context) = Some r'"
    and c: "r' ''total_tokens'' = Some (sqlInt64 (d_InputTokens (u_Detail ?e)
                                                  + d_OutputTokens (u_Detail ?e)))"
    by blast
  have a': "fst (HandleUsage (\<lambda>h. ''{}'') None (time_Unix 0 1736582401) ?p
                            (Some status101_context) ?e)
             = \<lparr>store = Some s', enabled = True, tokenIncrementor = False,
                usageIncrementor = False\<rparr>"
    using a by simp
  have b': "usage_records s' 1 = Some r'"
    using b id1 by simp
  have c': "r' ''total_tokens'' = Some (SQLInt 30)"
    using c sum by simp
  show ?thesis
    using h2 h3 id1 a' b' c' by auto
qed


section \<open>Time parameters\<close>

text \<open>
  C4, as stated, fails at both ends of the range: the integers 1000000000 and
  9999999999 are not converted but returned as they are.
\<close>

theorem ParseTimeParam_bounds_counterexample:
  "ParseTimeParam 0 ''1000000000'' = ''1000000000''
   \<and> Format_RFC3339 (time_Unix 0 1000000000) = ''2001-09-09T01:46:40Z''
   \<and> ParseTimeParam 0 ''9999999999'' = ''9999999999''"
  by code_simp

lemma unixSeconds_Some:
  "unixSeconds param = Some ts \<longleftrightarrow>
     ParseInt param = Some ts \<and> 1000000000 < ts \<and> ts < 9999999999"
  by (auto simp: unixSeconds_def split: option.splits)

lemma ParseInt_empty: "ParseInt [] = None"
  by (simp add: ParseInt_def)

text \<open>
  C4, amended. The empty string maps to the empty string. A string that
  \<^verbatim>\<open>strconv.ParseInt\<close> reads as an integer strictly between 1000000000 and 9999999999 is
  converted to the RFC 3339 text of that Unix time in the local zone. A string that is
  no such integer is converted to the local RFC 3339 text of the time it denotes under
  the first of the four layouts that accepts it, and is returned unchanged when none
  does.
\<close>

theorem ParseTimeParam_cases:
  "ParseTimeParam tz [] = []
   \<and> (ParseInt param = Some ts \<and> 1000000000 < ts \<and> ts < 9999999999
        \<longrightarrow> ParseTimeParam tz param = Format_RFC3339 (time_Unix tz ts))
   \<and> (param \<noteq> [] \<and> unixSeconds param = None \<and> time_Parse RFC3339 param = Some t
        \<longrightarrow> ParseTimeParam tz param = Format_RFC3339 (Local tz t))
   \<and> (param \<noteq> [] \<and> unixSeconds param = None
        \<and> time_Parse RFC3339 param = None \<and> time_Parse RFC3339Nano param = None
        \<and> time_Parse ISOMillisZ param = None \<and> time_Parse ISOSecondsZ param = None
        \<longrightarrow> ParseTimeParam tz param = param)
   \<and> (unixSeconds param = None
        \<longleftrightarrow> (\<forall>n. ParseInt param = Some n \<longrightarrow> n \<le> 1000000000 \<or> 9999999999 \<le> n))"
proof -
  have e: "ParseTimeParam tz [] = []"
    by (simp add: ParseTimeParam_def)
  have u: "ParseTimeParam tz param = Format_RFC3339 (time_Unix tz ts)"
    if "ParseInt param = Some ts \<and> 1000000000 < ts \<and> ts < 9999999999"
  proof -
    have "param \<noteq> []" using that ParseInt_empty by auto
    moreover have "unixSeconds param = Some ts" using that by (simp add: unixSeconds_Some)
    ultimately show ?thesis by (simp add: ParseTimeParam_def)
  qed
  have r: "ParseTimeParam tz param = Format_RFC3339 (Local tz t)"
    if "param \<noteq> [] \<and> unixSeconds param = None \<and> time_Parse RFC3339 param = Some t"
    using that by (simp add: ParseTimeParam_def)
  have v: "ParseTimeParam tz param = param"
    if "param \<noteq> [] \<and> unixSeconds param = None
        \<and> time_Parse RFC3339 param = None \<and> time_Parse RFC3339Nano param = None
        \<and> time_Parse ISOMillisZ param = None \<and> time_Parse ISOSecondsZ param = None"
    using that by (simp add: ParseTimeParam_def)
  have n: "unixSeconds param = None
        \<longleftrightarrow> (\<forall>n. ParseInt param = Some n \<longrightarrow> n \<le> 1000000000 \<or> 9999999999 \<le> n)"
    by (auto simp: unixSeconds_def split: option.splits)
  show ?thesis
    using e u r v n by blast
qed

theorem ParseTimeParam_cases_witness:
  "ParseInt ''1736582400'' = Some 1736582400
   \<and> ParseTimeParam 28800 ''1736582400'' = ''2025-01-11T16:00:00+08:00''
   \<and> unixSeconds ''yesterday'' = None
   \<and> time_Parse RFC3339 ''yesterday'' = None \<and> time_Parse RFC3339Nano ''yesterday'' = None
   \<and> time_Parse ISOMillisZ ''yesterday'' = None \<and> time_Parse ISOSecondsZ ''yesterday'' = None
   \<and> ParseTimeParam 28800 ''yesterday'' = ''yesterday''"
proof -
  have a: "ParseInt ''1736582400'' = Some 1736582400"
    by code_simp
  have f: "Format_RFC3339 (time_Unix 28800 1736582400) = ''2025-01-11T16:00:00+08:00''"
    by code_simp
  have b: "unixSeconds ''yesterday'' = None"
    "time_Parse RFC3339 ''yesterday'' = None" "time_Parse RFC3339Nano ''yesterday'' = None"
    "time_Parse ISOMillisZ ''yesterday'' = None" "time_Parse ISOSecondsZ ''yesterday'' = None"
    by code_simp+
  have r1: "ParseTimeParam 28800 ''1736582400'' = ''2025-01-11T16:00:00+08:00''"
    using ParseTimeParam_cases [of 28800 "''1736582400''" 1736582400 zeroTime] a f by simp
  have r2: "ParseTimeParam 28800 ''yesterday'' = ''yesterday''"
    using ParseTimeParam_cases [of 28800 "''yesterday''" 0 zeroTime] b by simp
  show ?thesis
    using a b r1 r2 by simp
qed


section \<open>Trend series\<close>

lemma length_progression [simp]: "length (progression step a n) = n"
  by (simp add: progression_def)

lemma progression_Suc:
  "progression step a (Suc n) = a # progression step (Add a step) n"
proof -
  have "[0..<Suc n] = 0 # map Suc [0..<n]"
    by (simp add: upt_conv_Cons map_Suc_upt del: upt_Suc)
  then have "progression step a (Suc n)
      = Add a 0 # map (\<lambda>i. Add a (int (Suc i) * step)) [0..<n]"
    by (simp add: progression_def comp_def del: upt_Suc)
  moreover have "Add a 0 = a"
    by (simp add: Add_def)
  moreover have "Add a (int (Suc i) * step) = Add (Add a step) (int i * step)" for i
    by (simp add: Add_def algebra_simps)
  ultimately show ?thesis
    by (simp add: progression_def)
qed

lemma count_step:
  fixes d step :: int
  assumes "0 < step" and "0 \<le> d"
  shows "(if d < step then 0 else Suc (nat ((d - step) div step))) = nat (d div step)"
proof (cases "d < step")
  case True
  then show ?thesis using assms by (simp add: div_pos_pos_trivial)
next
  case False
  have "(d - step) div step = (d + (- 1) * step) div step" by simp
  also have "\<dots> = - 1 + d div step"
    using assms(1) by (simp only: div_mult_self1 [OF less_imp_neq [THEN not_sym]])
  finally have e: "(d - step) div step = d div step - 1" by simp
  have "step \<le> d" using False by simp
  then have "1 \<le> d div step"
    using assms(1) zdiv_mono1 [of step d step] by simp
  then show ?thesis using False e by simp
qed

lemma stepCount_step:
  assumes "0 < step" and "\<not> unixNano b < unixNano a"
  shows "stepCount step a b = Suc (stepCount step (Add a step) b)"
proof -
  define d where "d = unixNano b - unixNano a"
  have d: "0 \<le> d" using assms(2) by (simp add: d_def)
  have "stepCount step (Add a step) b
      = (if d < step then 0 else Suc (nat ((d - step) div step)))"
    by (auto simp: stepCount_def Add_def d_def algebra_simps)
  also have "\<dots> = nat (d div step)"
    using count_step [OF assms(1) d] .
  finally show ?thesis
    using assms(2) by (simp add: stepCount_def d_def)
qed

lemma hoursUpTo_progression: "hoursUpTo a b = progression Hour a (stepCount Hour a b)"
proof (induction a b rule: hoursUpTo.induct)
  case (1 h e)
  have pos: "0 < Hour" by (simp add: Hour_def Minute_def Second_def)
  show ?case
  proof (cases "After h e")
    case True
    then show ?thesis
      by (simp add: hoursUpTo.simps [of h e] stepCount_def After_def progression_def)
  next
    case False
    then have ge: "\<not> unixNano e < unixNano h" by (simp add: After_def)
    show ?thesis
      using 1 [OF False] False stepCount_step [OF pos ge]
      by (simp add: hoursUpTo.simps [of h e] progression_Suc)
  qed
qed

lemma minutesUpTo_progression: "minutesUpTo a b = progression Minute a (stepCount Minute a b)"
proof (induction a b rule: minutesUpTo.induct)
  case (1 t e)
  have pos: "0 < Minute" by (simp add: Minute_def Second_def)
  show ?case
  proof (cases "After t e")
    case True
    then show ?thesis
      by (simp add: minutesUpTo.simps [of t e] stepCount_def After_def progression_def)
  next
    case False
    then have ge: "\<not> unixNano e < unixNano t" by (simp add: After_def)
    show ?thesis
      using 1 [OF False] False stepCount_step [OF pos ge]
      by (simp add: minutesUpTo.simps [of t e] progression_Suc)
  qed
qed

lemma AddDate_days_one: "AddDate_days d 1 = Add d (24 * Hour)"
proof -
  have "unixNano (AddDate_days d 1) = unixNano (Add d (24 * Hour))"
    by (simp add: AddDate_days_unixNano Add_def Hour_def Minute_def)
  moreover have "zoneOffset (AddDate_days d 1) = zoneOffset (Add d (24 * Hour))"
    by (simp add: AddDate_days_def time_Date_def Add_def)
  ultimately show ?thesis by simp
qed

lemma daysUpTo_progression: "daysUpTo a b = progression (24 * Hour) a (stepCount (24 * Hour) a b)"
proof (induction a b rule: daysUpTo.induct)
  case (1 d e)
  have pos: "0 < 24 * Hour" by (simp add: Hour_def Minute_def Second_def)
  show ?case
  proof (cases "After d e")
    case True
    then show ?thesis
      by (simp add: daysUpTo.simps [of d e] stepCount_def After_def progression_def)
  next
    case False
    then have ge: "\<not> unixNano e < unixNano d" by (simp add: After_def)
    show ?thesis
      using 1 [OF False] False stepCount_step [OF pos ge]
      by (simp add: daysUpTo.simps [of d e] progression_Suc AddDate_days_one)
  qed
qed


lemma trendWindow_ordered:
  "trendWindow tz now startTime endTime = (ts, te) \<Longrightarrow> unixNano ts \<le> unixNano te"
  by (auto simp: trendWindow_def Let_def After_def split: if_splits)

lemma trendBucket_eq:
  assumes "unixNano ts \<le> unixNano te"
  shows "trendBucket ts te = (if unixNano te - unixNano ts \<le> 48 * Hour then ''hour'' else ''day'')"
proof -
  have big: "48 * Hour < maxDuration"
    by (simp add: Hour_def Minute_def Second_def maxDuration_def)
  have neg: "minDuration \<le> 0"
    by (simp add: minDuration_def)
  show ?thesis
  proof (cases "unixNano te - unixNano ts \<le> maxDuration")
    case True
    then have "Sub te ts = unixNano te - unixNano ts"
      using assms neg by (simp add: Sub_def)
    then show ?thesis by (auto simp: trendBucket_def)
  next
    case False
    then have "Sub te ts = maxDuration"
      using assms by (simp add: Sub_def)
    then show ?thesis using False big by (auto simp: trendBucket_def)
  qed
qed

lemma Truncate_hours:
  "unixNano (Truncate t Hour) = zeroUnixNano + (unixNano t - zeroUnixNano) div Hour * Hour"
proof -
  have pos: "\<not> Hour \<le> 0" by (simp add: Hour_def Minute_def Second_def)
  have "(unixNano t - zeroUnixNano) div Hour * Hour + (unixNano t - zeroUnixNano) mod Hour
      = unixNano t - zeroUnixNano"
    by simp
  then show ?thesis
    using pos by (simp add: Truncate_def Add_def algebra_simps)
qed

lemma Truncate_hours_count:
  assumes "unixNano ts \<le> unixNano te"
  shows "stepCount Hour (Truncate ts Hour) (Truncate te Hour)
     = Suc (nat ((unixNano te - zeroUnixNano) div Hour - (unixNano ts - zeroUnixNano) div Hour))"
proof -
  have pos: "0 < Hour" by (simp add: Hour_def Minute_def Second_def)
  define a b where "a = (unixNano ts - zeroUnixNano) div Hour"
    and "b = (unixNano te - zeroUnixNano) div Hour"
  have le: "a \<le> b"
    unfolding a_def b_def using assms pos by (intro zdiv_mono1) simp_all
  have d: "unixNano (Truncate te Hour) - unixNano (Truncate ts Hour) = (b - a) * Hour"
    by (simp add: Truncate_hours a_def b_def algebra_simps)
  have "0 \<le> (b - a) * Hour" using le pos by simp
  then have "\<not> unixNano (Truncate te Hour) < unixNano (Truncate ts Hour)"
    using d by linarith
  moreover have "(b - a) * Hour div Hour = b - a" using pos by simp
  ultimately show ?thesis
    using d by (simp add: stepCount_def a_def b_def)
qed

lemma aggMaps_fold_None:
  "fold (\<lambda>row m. case row of
                    None \<Rightarrow> m
                  | Some (key, requests, tokens) \<Rightarrow> m(label key \<mapsto> (requests, tokens)))
        rows m0 l = None
   \<longleftrightarrow> m0 l = None \<and> (\<forall>key r t. Some (key, r, t) \<in> set rows \<longrightarrow> label key \<noteq> l)"
  (is "fold ?f rows m0 l = None \<longleftrightarrow> _")
proof (induction rows arbitrary: m0)
  case Nil
  then show ?case by simp
next
  case (Cons row rows)
  show ?case
  proof (cases row)
    case None
    then show ?thesis using Cons.IH [of m0] by simp
  next
    case (Some krt)
    obtain key r t where krt: "krt = (key, r, t)" by (cases krt)
    have step: "fold ?f (row # rows) m0 l = fold ?f rows (m0(label key \<mapsto> (r, t))) l"
      by (simp add: Some krt)
    have ih: "fold ?f rows (m0(label key \<mapsto> (r, t))) l = None
        \<longleftrightarrow> (m0(label key \<mapsto> (r, t))) l = None
            \<and> (\<forall>key r t. Some (key, r, t) \<in> set rows \<longrightarrow> label key \<noteq> l)"
      by (rule Cons.IH)
    have upd: "(m0(label key \<mapsto> (r, t))) l = None \<longleftrightarrow> label key \<noteq> l \<and> m0 l = None"
      by auto
    have mem: "(\<forall>k' r' t'. Some (k', r', t') \<in> set (row # rows) \<longrightarrow> label k' \<noteq> l)
        \<longleftrightarrow> label key \<noteq> l \<and> (\<forall>k' r' t'. Some (k', r', t') \<in> set rows \<longrightarrow> label k' \<noteq> l)"
      using Some krt by auto
    show ?thesis
      unfolding step ih upd mem by blast
  qed
qed

lemma aggMaps_None:
  "aggMaps label rows l = None
   \<longleftrightarrow> (\<forall>key r t. Some (key, r, t) \<in> set rows \<longrightarrow> label key \<noteq> l)"
  unfolding aggMaps_def using aggMaps_fold_None [of label rows Map.empty l] by simp

lemma startOfDay_unixNano:
  "unixNano (startOfDay t) = (wallSec t div 86400 * 86400 - zoneOffset t) * Second"
  using days_from_civil_date [of t 0] by (simp add: startOfDay_def time_Date_def)

lemma startOfDay_count:
  assumes "unixNano ts \<le> unixNano te" and "zoneOffset ts = zoneOffset te"
  shows "stepCount (24 * Hour) (startOfDay ts) (startOfDay te)
     = Suc (nat (wallSec te div 86400 - wallSec ts div 86400))"
proof -
  have pos: "0 < 24 * Hour" by (simp add: Hour_def Minute_def Second_def)
  have day: "24 * Hour = 86400 * Second" by (simp add: Hour_def Minute_def)
  define a b where "a = wallSec ts div 86400" and "b = wallSec te div 86400"
  have "unixNano ts div Second \<le> unixNano te div Second"
    using assms(1) by (intro zdiv_mono1) (simp_all add: Second_def)
  then have "wallSec ts \<le> wallSec te"
    using assms(2) by (simp add: wallSec_def)
  then have le: "a \<le> b"
    unfolding a_def b_def by (intro zdiv_mono1) simp_all
  have d: "unixNano (startOfDay te) - unixNano (startOfDay ts) = (b - a) * (24 * Hour)"
    unfolding startOfDay_unixNano day using assms(2) by (simp add: a_def b_def algebra_simps)
  have "0 \<le> (b - a) * (24 * Hour)" using le pos by simp
  then have ge: "\<not> unixNano (startOfDay te) < unixNano (startOfDay ts)"
    using d by linarith
  have "(b - a) * (24 * Hour) div (24 * Hour) = b - a" using pos by simp
  then show ?thesis
    using d ge by (simp add: stepCount_def a_def b_def)
qed

text \<open>
  What \<^verbatim>\<open>GetUsageKPIs\<close> returns when the store is open and the database answers every
  statement, for the resolved window from \<open>ts\<close> to \<open>te\<close>: the bucket is \<open>hour\<close> when
  \<open>te - ts\<close> is at most 48 hours and \<open>day\<close> otherwise; the two trends have one point for
  every label, with the value of the last row of that label and 0 for a label without a
  row; in hour mode the labels are read off the instants \<^verbatim>\<open>Truncate(time.Hour)\<close> of \<open>ts\<close>,
  one hour apart, up to that of \<open>te\<close>, and in day mode (both ends being in one zone) off
  the civil days from the day of \<open>ts\<close> to the day of \<open>te\<close>; a window of exactly 48 hours
  has the bucket \<open>hour\<close> and 49 points.
\<close>

lemma GetUsageKPIs_series:
  assumes "\<not> closed s"
    and "totalsRow db = Inr tot"
    and "trendWindow tz now startTime endTime = (ts, te)"
    and "trendRows db (trendKeyExpr (trendBucket ts te)) = Inr rows"
    and "rpmCount db = Inr rpm" and "tpmSum db = Inr tpm" and "minuteRows db = Inr mrows"
  shows "\<exists>k. GetUsageKPIs tz now s db startTime endTime = Inr k
     \<and> unixNano ts \<le> unixNano te
     \<and> k_TrendBucket k = (if unixNano te - unixNano ts \<le> 48 * Hour then ''hour'' else ''day'')
     \<and> k_RequestsTrend k =
         map (requestsPoint (aggMaps (trendLabelOfKey (k_TrendBucket k)) rows))
           (trendLabels (k_TrendBucket k) ts te)
     \<and> k_TokensTrend k =
         map (tokensPoint (aggMaps (trendLabelOfKey (k_TrendBucket k)) rows))
           (trendLabels (k_TrendBucket k) ts te)
     \<and> trendLabels ''hour'' ts te =
         map Format_hour
           (progression Hour (Truncate ts Hour)
              (Suc (nat ((unixNano te - zeroUnixNano) div Hour
                         - (unixNano ts - zeroUnixNano) div Hour))))
     \<and> (zoneOffset ts = zoneOffset te \<longrightarrow>
          trendLabels ''day'' ts te =
            map Format_day
              (progression (24 * Hour) (startOfDay ts)
                 (Suc (nat (wallSec te div 86400 - wallSec ts div 86400)))))
     \<and> (\<forall>label. (\<forall>key r t. Some (key, r, t) \<in> set rows
                      \<longrightarrow> trendLabelOfKey (k_TrendBucket k) key \<noteq> label)
          \<longrightarrow> requestsPoint (aggMaps (trendLabelOfKey (k_TrendBucket k)) rows) label
                = \<lparr>kp_T = label, kp_V = 0\<rparr>
              \<and> tokensPoint (aggMaps (trendLabelOfKey (k_TrendBucket k)) rows) label
                = \<lparr>kp_T = label, kp_V = 0\<rparr>)
     \<and> (unixNano te - unixNano ts = 48 * Hour
          \<longrightarrow> k_TrendBucket k = ''hour''
              \<and> length (k_RequestsTrend k) = 49 \<and> length (k_TokensTrend k) = 49)"
proof -
  obtain nTotal nSuccess nFailure nTokens nCached nReasoning
    where tot: "tot = (nTotal, nSuccess, nFailure, nTokens, nCached, nReasoning)"
    by (cases tot)
  define bucket where "bucket = trendBucket ts te"
  define agg where "agg = aggMaps (trendLabelOfKey bucket) rows"
  define labels where "labels = trendLabels bucket ts te"
  define minEnd where "minEnd = Truncate te Minute"
  define magg where "magg = aggMaps replace_first_T mrows"
  define mlabels where "mlabels = map Format_minute (minutesUpTo (Add minEnd (- (59 * Minute))) minEnd)"
  define k where "k = \<lparr>k_GeneratedAt = Format_RFC3339 now,
                         k_TotalRequests = nTotal,
                         k_SuccessRequests = nSuccess,
                         k_FailureRequests = nFailure,
                         k_TotalTokens = nTokens,
                         k_CachedTokens = nCached,
                         k_ReasoningTokens = nReasoning,
                         k_RPM = rpm,
                         k_TPM = tpm,
                         k_TrendBucket = bucket,
                         k_RequestsTrend = map (requestsPoint agg) labels,
                         k_TokensTrend = map (tokensPoint agg) labels,
                         k_RPMTrend = map (requestsPoint magg) mlabels,
                         k_TPMTrend = map (tokensPoint magg) mlabels\<rparr>"
  have run: "GetUsageKPIs tz now s db startTime endTime = Inr k"
    using assms(1,2,3,5,6,7) assms(4) [folded bucket_def]
    by (simp add: GetUsageKPIs_def tot Let_def bucket_def [symmetric] k_def agg_def labels_def
        minEnd_def magg_def mlabels_def)
  have ord: "unixNano ts \<le> unixNano te"
    using assms(3) by (rule trendWindow_ordered)
  have b: "bucket = (if unixNano te - unixNano ts \<le> 48 * Hour then ''hour'' else ''day'')"
    unfolding bucket_def using ord by (rule trendBucket_eq)
  have hours: "trendLabels ''hour'' ts te =
         map Format_hour
           (progression Hour (Truncate ts Hour)
              (Suc (nat ((unixNano te - zeroUnixNano) div Hour
                         - (unixNano ts - zeroUnixNano) div Hour))))"
    by (simp add: trendLabels_def hoursUpTo_progression Truncate_hours_count [OF ord])
  have days: "trendLabels ''day'' ts te =
            map Format_day
              (progression (24 * Hour) (startOfDay ts)
                 (Suc (nat (wallSec te div 86400 - wallSec ts div 86400))))"
    if "zoneOffset ts = zoneOffset te"
    by (simp add: trendLabels_def daysUpTo_progression startOfDay_count [OF ord that])
  have zero: "requestsPoint agg label = \<lparr>kp_T = label, kp_V = 0\<rparr>
              \<and> tokensPoint agg label = \<lparr>kp_T = label, kp_V = 0\<rparr>"
    if "\<forall>key r t. Some (key, r, t) \<in> set rows \<longrightarrow> trendLabelOfKey bucket key \<noteq> label"
    for label
  proof -
    have "agg label = None"
      unfolding agg_def aggMaps_None using that by blast
    then show ?thesis
      by (simp add: requestsPoint_def tokensPoint_def)
  qed
  have exact: "bucket = ''hour'' \<and> length (map (requestsPoint agg) labels) = 49
      \<and> length (map (tokensPoint agg) labels) = 49"
    if w: "unixNano te - unixNano ts = 48 * Hour"
  proof -
    have pos: "Hour \<noteq> 0" by (simp add: Hour_def Minute_def Second_def)
    have bh: "bucket = ''hour''" using b w by simp
    have e: "unixNano te - zeroUnixNano = (unixNano ts - zeroUnixNano) + 48 * Hour"
      using w by simp
    have "(unixNano te - zeroUnixNano) div Hour = 48 + (unixNano ts - zeroUnixNano) div Hour"
      unfolding e using div_mult_self1 [OF pos, of "unixNano ts - zeroUnixNano" 48] .
    then have "length (trendLabels ''hour'' ts te) = 49"
      unfolding hours by simp
    then show ?thesis
      using bh by (simp add: labels_def)
  qed
  show ?thesis
    using run ord b hours days zero exact
    by (intro exI [of _ k]) (simp add: k_def agg_def labels_def)
qed

lemma GetUsageKPIs_series_48_hours:
  "\<not> closed pending_store
   \<and> trendWindow 0 (time_Unix 0 1736760000) ''1736582400'' ''1736755200''
       = (time_Unix 0 1736582400, time_Unix 0 1736755200)
   \<and> unixNano (time_Unix 0 1736755200) - unixNano (time_Unix 0 1736582400) = 48 * Hour
   \<and> (\<exists>k. GetUsageKPIs 0 (time_Unix 0 1736760000) pending_store example_answers
              ''1736582400'' ''1736755200'' = Inr k
          \<and> k_TrendBucket k = ''hour''
          \<and> length (k_RequestsTrend k) = 49 \<and> length (k_TokensTrend k) = 49)"
proof -
  let ?ts = "time_Unix 0 1736582400" and ?te = "time_Unix 0 1736755200"
  have h1: "\<not> closed pending_store"
    by (simp add: pending_store_def)
  have h2: "totalsRow example_answers = Inr (3, 2, 1, 120, 0, 0)"
    by (simp add: example_answers_def)
  have h3: "trendWindow 0 (time_Unix 0 1736760000) ''1736582400'' ''1736755200'' = (?ts, ?te)"
    by code_simp
  have h4: "trendRows example_answers (trendKeyExpr (trendBucket ?ts ?te))
      = Inr [Some (''2025-01-11T08'', 3, 120)]"
    by (simp add: example_answers_def)
  have h5: "rpmCount example_answers = Inr 0" and h6: "tpmSum example_answers = Inr 0"
    and h7: "minuteRows example_answers = Inr []"
    by (simp_all add: example_answers_def)
  have w: "unixNano ?te - unixNano ?ts = 48 * Hour"
    by (simp add: time_Unix_def Hour_def Minute_def Second_def)
  from GetUsageKPIs_series [OF h1 h2 h3 h4 h5 h6 h7]
  obtain k where k: "GetUsageKPIs 0 (time_Unix 0 1736760000) pending_store example_answers
              ''1736582400'' ''1736755200'' = Inr k"
    and exact: "unixNano ?te - unixNano ?ts = 48 * Hour
          \<longrightarrow> k_TrendBucket k = ''hour''
              \<and> length (k_RequestsTrend k) = 49 \<and> length (k_TokensTrend k) = 49"
    by blast
  show ?thesis
    using h1 h3 w k exact by blast
qed


text \<open>
  C5 does not hold of the code in a zone whose offset is not a whole number of hours.
  In the zone +05:30, for the window from 05:00 to 07:00 of 2025-01-11 and a database
  whose only row is that of the hour 07 with 7 requests and 70 tokens, the bucket is
  \<open>hour\<close>, but the points of both trends are those of the hours 04, 05 and 06, all with
  the value 0: the hour 04 lies before the window, and the hour 07, which is in the
  window and has rows, is missing. \<^verbatim>\<open>Truncate(time.Hour)\<close> rounds the instant down to a
  multiple of an hour since the zero time, which in this zone is a half hour of the wall
  clock, and the label drops the minutes.
\<close>

theorem GetUsageKPIs_half_hour_zone:
  "(case GetUsageKPIs 19800 (time_Unix 19800 1736560800) pending_store
           (example_answers\<lparr>trendRows := (\<lambda>keyExpr. Inr [Some (''2025-01-11T07'', 7, 70)])\<rparr>)
           ''2025-01-11T05:00:00+05:30'' ''2025-01-11T07:00:00+05:30'' of
      Inr k \<Rightarrow> (k_TrendBucket k, k_RequestsTrend k, k_TokensTrend k)
    | Inl e \<Rightarrow> ([], [], []))
   = (''hour'',
      [\<lparr>kp_T = ''2025-01-11 04:00'', kp_V = 0\<rparr>, \<lparr>kp_T = ''2025-01-11 05:00'', kp_V = 0\<rparr>,
       \<lparr>kp_T = ''2025-01-11 06:00'', kp_V = 0\<rparr>],
      [\<lparr>kp_T = ''2025-01-11 04:00'', kp_V = 0\<rparr>, \<lparr>kp_T = ''2025-01-11 05:00'', kp_V = 0\<rparr>,
       \<lparr>kp_T = ''2025-01-11 06:00'', kp_V = 0\<rparr>])"
proof -
  let ?db = "example_answers\<lparr>trendRows := (\<lambda>keyExpr. Inr [Some (''2025-01-11T07'', 7, 70)])\<rparr>"
  let ?ts = "\<lparr>unixNano = 1736551800000000000, zoneOffset = 19800\<rparr>"
  let ?te = "\<lparr>unixNano = 1736559000000000000, zoneOffset = 19800\<rparr>"
  let ?rows = "[Some (''2025-01-11T07'', 7::int, 70::int)]"
  let ?labels = "[''2025-01-11 04:00'', ''2025-01-11 05:00'', ''2025-01-11 06:00'']"
  have h1: "\<not> closed pending_store"
    by (simp add: pending_store_def)
  have h2: "totalsRow ?db = Inr (3, 2, 1, 120, 0, 0)"
    by (simp add: example_answers_def)
  have h3: "trendWindow 19800 (time_Unix 19800 1736560800)
      ''2025-01-11T05:00:00+05:30'' ''2025-01-11T07:00:00+05:30'' = (?ts, ?te)"
    by code_simp
  have h4: "trendRows ?db (trendKeyExpr (trendBucket ?ts ?te)) = Inr ?rows"
    by simp
  have h5: "rpmCount ?db = Inr 0" and h6: "tpmSum ?db = Inr 0"
    and h7: "minuteRows ?db = Inr []"
    by (simp_all add: example_answers_def)
  have b: "(if unixNano ?te - unixNano ?ts \<le> 48 * Hour then ''hour'' else ''day'') = ''hour''"
    by (simp add: Hour_def Minute_def Second_def)
  have labels: "trendLabels ''hour'' ?ts ?te = ?labels"
    by code_simp
  have requests: "map (requestsPoint (aggMaps (trendLabelOfKey ''hour'') ?rows)) ?labels
      = [\<lparr>kp_T = ''2025-01-11 04:00'', kp_V = 0\<rparr>, \<lparr>kp_T = ''2025-01-11 05:00'', kp_V = 0\<rparr>,
         \<lparr>kp_T = ''2025-01-11 06:00'', kp_V = 0\<rparr>]"
    by code_simp
  have tokens: "map (tokensPoint (aggMaps (trendLabelOfKey ''hour'') ?rows)) ?labels
      = [\<lparr>kp_T = ''2025-01-11 04:00'', kp_V = 0\<rparr>, \<lparr>kp_T = ''2025-01-11 05:00'', kp_V = 0\<rparr>,
         \<lparr>kp_T = ''2025-01-11 06:00'', kp_V = 0\<rparr>]"
    by code_simp
  from GetUsageKPIs_series [OF h1 h2 h3 h4 h5 h6 h7]
  obtain k where run: "GetUsageKPIs 19800 (time_Unix 19800 1736560800) pending_store ?db
        ''2025-01-11T05:00:00+05:30'' ''2025-01-11T07:00:00+05:30'' = Inr k"
    and bk: "k_TrendBucket k
        = (if unixNano ?te - unixNano ?ts \<le> 48 * Hour then ''hour'' else ''day'')"
    and rt: "k_RequestsTrend k =
         map (requestsPoint (aggMaps (trendLabelOfKey (k_TrendBucket k)) ?rows))
           (trendLabels (k_TrendBucket k) ?ts ?te)"
    and tt: "k_TokensTrend k =
         map (tokensPoint (aggMaps (trendLabelOfKey (k_TrendBucket k)) ?rows))
           (trendLabels (k_TrendBucket k) ?ts ?te)"
    by blast
  have bk': "k_TrendBucket k = ''hour''"
    unfolding bk b ..
  have rt': "k_RequestsTrend k
      = [\<lparr>kp_T = ''2025-01-11 04:00'', kp_V = 0\<rparr>, \<lparr>kp_T = ''2025-01-11 05:00'', kp_V = 0\<rparr>,
         \<lparr>kp_T = ''2025-01-11 06:00'', kp_V = 0\<rparr>]"
    unfolding rt bk' labels requests ..
  have tt': "k_TokensTrend k
      = [\<lparr>kp_T = ''2025-01-11 04:00'', kp_V = 0\<rparr>, \<lparr>kp_T = ''2025-01-11 05:00'', kp_V = 0\<rparr>,
         \<lparr>kp_T = ''2025-01-11 06:00'', kp_V = 0\<rparr>]"
    unfolding tt bk' labels tokens ..
  show ?thesis
    unfolding run by (simp only: sum.case prod.case bk' rt' tt')
qed


section \<open>Pagination\<close>

lemma ceiling_div:
  fixes a b :: int
  assumes "0 < b"
  shows "\<lceil>real_of_int a / real_of_int b\<rceil> = (a + b - 1) div b"
proof -
  define q r where "q = a div b" and "r = a mod b"
  have a: "a = b * q + r" by (simp add: q_def r_def)
  have r: "0 \<le> r" "r < b" using assms by (simp_all add: r_def)
  have nz: "b \<noteq> 0" using assms by simp
  have lhs: "\<lceil>real_of_int a / real_of_int b\<rceil> = (if r = 0 then q else q + 1)"
    using nz by (simp add: ceiling_divide_eq_div zdiv_zminus1_eq_if q_def r_def)
  have "(a + b - 1) div b = (b * q + (r + b - 1)) div b"
    by (simp add: a algebra_simps)
  also have "\<dots> = q + (r + b - 1) div b"
    using div_mult_self4 [OF nz, of q "r + b - 1"] .
  also have "(r + b - 1) div b = (if r = 0 then 0 else 1)"
  proof (cases "r = 0")
    case True
    then show ?thesis using assms by (simp add: div_pos_pos_trivial)
  next
    case False
    have "(r + b - 1) div b = ((r - 1) + b) div b" by (simp add: algebra_simps)
    also have "\<dots> = (r - 1) div b + 1" using nz by simp
    also have "(r - 1) div b = 0" using False r by (simp add: div_pos_pos_trivial)
    finally show ?thesis using False by simp
  qed
  finally show ?thesis using lhs by simp
qed

lemma wrap64_id: "- (2 ^ 63) \<le> x \<Longrightarrow> x < 2 ^ 63 \<Longrightarrow> wrap64 x = x"
  by (simp add: wrap64_def sint_sbintrunc' signed_take_bit_int_eq_self)

lemma length_map_filter_le: "length (List.map_filter f xs) \<le> length xs"
  by (simp add: List.map_filter_def)

text \<open>
  C8. On an open store whose database answers both statements, \<^verbatim>\<open>List\<close> returns a
  result for every page and page size, never an error: the page is the requested one,
  or 1 when that is less than 1; the page size is the requested one, 20 when that is
  less than 1 and 100 when it is more than 100, so between 1 and 100; there are at most
  page-size records; and the number of pages is the count divided by the page size,
  rounded up.
\<close>

theorem List_pagination:
  assumes "\<not> closed s" and "countRow la = Inr n" and "selectRows la = Inr rows"
    and "0 \<le> n" and "n + 100 < 2 ^ 63"
  shows "\<exists>res. List tz now unmarshal s la ka query = Inr res
     \<and> r_Page res = (if q_Page query < 1 then 1 else q_Page query)
     \<and> 1 \<le> r_Page res
     \<and> r_PageSize res =
         (if q_PageSize query < 1 then 20
          else if 100 < q_PageSize query then 100
          else q_PageSize query)
     \<and> 1 \<le> r_PageSize res \<and> r_PageSize res \<le> 100
     \<and> int (length (r_Records res)) \<le> r_PageSize res
     \<and> r_Total res = n
     \<and> r_TotalPages res = \<lceil>real_of_int n / real_of_int (r_PageSize res)\<rceil>"
proof -
  define page where "page = (if q_Page query < 1 then 1 else q_Page query)"
  define pageSize where "pageSize =
         (if q_PageSize query < 1 then 20
          else if 100 < q_PageSize query then 100
          else q_PageSize query)"
  define records where "records = List.map_filter (scanRecord unmarshal)
      (sql_limit_offset pageSize (wrap64 ((page - 1) * pageSize)) rows)"
  define kpis where "kpis =
      (if q_IncludeKPIs query
       then (case GetUsageKPIs tz now s ka (q_StartTime query) (q_EndTime query) of
               Inl e \<Rightarrow> None
             | Inr kpis \<Rightarrow> Some kpis)
       else None)"
  define res where "res = \<lparr>r_Records = records, r_Total = n, r_Page = page,
      r_PageSize = pageSize,
      r_TotalPages = go_quot (wrap64 (wrap64 (n + pageSize) - 1)) pageSize,
      r_KPIs = kpis\<rparr>"
  have ps: "1 \<le> pageSize" "pageSize \<le> 100"
    by (simp_all add: pageSize_def)
  have ps': "(if 100 < (if q_PageSize query < 1 then 20 else q_PageSize query) then 100
              else (if q_PageSize query < 1 then 20 else q_PageSize query)) = pageSize"
    by (simp add: pageSize_def)
  have run: "List tz now unmarshal s la ka query = Inr res"
    using assms(1,2,3)
    by (simp add: List_def Let_def ps' page_def [symmetric] res_def records_def kpis_def)
  have len: "int (length records) \<le> pageSize"
  proof -
    have "length records \<le> length (sql_limit_offset pageSize (wrap64 ((page - 1) * pageSize)) rows)"
      unfolding records_def by (rule length_map_filter_le)
    also have "\<dots> \<le> nat pageSize"
      by (simp add: sql_limit_offset_def)
    finally show ?thesis using ps by simp
  qed
  have w1: "wrap64 (n + pageSize) = n + pageSize"
    using assms(4,5) ps by (intro wrap64_id) simp_all
  have w2: "wrap64 (n + pageSize - 1) = n + pageSize - 1"
    using assms(4,5) ps by (intro wrap64_id) simp_all
  have "go_quot (n + pageSize - 1) pageSize = (n + pageSize - 1) div pageSize"
    using assms(4) ps by (simp add: go_quot_def)
  then have pages: "r_TotalPages res = \<lceil>real_of_int n / real_of_int pageSize\<rceil>"
    using ps by (simp add: res_def w1 w2 ceiling_div)
  show ?thesis
    using run len pages ps
    by (intro exI [of _ res]) (simp add: res_def page_def pageSize_def)
qed

theorem List_pagination_witness:
  "\<not> closed pending_store
   \<and> (\<exists>res. List 0 (time_Unix 0 1736760000) (\<lambda>j. None) pending_store
               \<lparr>countRow = Inr 41, selectRows = Inr []\<rparr> example_answers
               \<lparr>q_Page = - 3, q_PageSize = 0, q_APIKey = [], q_Model = [], q_Provider = [],
                q_StartTime = [], q_EndTime = [], q_Success = None, q_Search = [],
                q_SortBy = [], q_SortOrder = [], q_IncludeKPIs = False\<rparr> = Inr res
          \<and> r_Page res = 1 \<and> r_PageSize res = 20 \<and> r_TotalPages res = 3)"
proof -
  let ?la = "\<lparr>countRow = Inr 41, selectRows = Inr []\<rparr>"
  let ?q = "\<lparr>q_Page = - 3, q_PageSize = 0, q_APIKey = [], q_Model = [], q_Provider = [],
                q_StartTime = [], q_EndTime = [], q_Success = None, q_Search = [],
                q_SortBy = [], q_SortOrder = [], q_IncludeKPIs = False\<rparr>"
  have h1: "\<not> closed pending_store"
    by (simp add: pending_store_def)
  have h2: "countRow ?la = Inr 41" and h3: "selectRows ?la = Inr []"
    by simp_all
  have h4: "(0::int) \<le> 41" and h5: "(41::int) + 100 < 2 ^ 63"
    by simp_all
  from List_pagination [OF h1 h2 h3 h4 h5, of 0 "time_Unix 0 1736760000" "\<lambda>j. None"
      example_answers ?q]
  obtain res where a: "List 0 (time_Unix 0 1736760000) (\<lambda>j. None) pending_store ?la
      example_answers ?q = Inr res"
    and b: "r_Page res = (if q_Page ?q < 1 then 1 else q_Page ?q)"
    and c: "r_PageSize res =
         (if q_PageSize ?q < 1 then 20
          else if 100 < q_PageSize ?q then 100
          else q_PageSize ?q)"
    and d: "r_TotalPages res = \<lceil>real_of_int 41 / real_of_int (r_PageSize res)\<rceil>"
    by blast
  have b': "r_Page res = 1" using b by simp
  have c': "r_PageSize res = 20" using c by simp
  have "\<lceil>real_of_int 41 / real_of_int 20\<rceil> = (3::int)"
    by (simp add: ceiling_div)
  then have d': "r_TotalPages res = 3" using d c' by simp
  show ?thesis
    using h1 a b' c' d' by blast
qed



section \<open>Interval timeline\<close>

subsection \<open>Rounding to \<^verbatim>\<open>float64\<close>\<close>

lemma bitlen_bounds: "0 < n \<Longrightarrow> 2 ^ (bitlen n - 1) \<le> n \<and> n < 2 ^ bitlen n"
proof (induction n rule: bitlen.induct)
  case (1 n)
  show ?case
  proof (cases "n div 2 \<le> 0")
    case True
    then have "n = 1" using 1(2) by presburger
    then show ?thesis by (simp add: bitlen.simps)
  next
    case False
    then have ih: "2 ^ (bitlen (n div 2) - 1) \<le> n div 2" "n div 2 < 2 ^ bitlen (n div 2)"
      using 1 by auto
    have pos: "0 < bitlen (n div 2)"
      using False by (simp add: bitlen.simps [of "n div 2"])
    have b: "bitlen n = Suc (bitlen (n div 2))"
      using 1(2) by (simp add: bitlen.simps [of n])
    have "2 ^ bitlen (n div 2) = (2::int) * 2 ^ (bitlen (n div 2) - 1)"
      using pos by (cases "bitlen (n div 2)") simp_all
    then have lo: "2 ^ bitlen (n div 2) \<le> n"
      using ih(1) by presburger
    have hi: "n < 2 * 2 ^ bitlen (n div 2)"
      using ih(2) by presburger
    show ?thesis
      using lo hi by (simp add: b)
  qed
qed

lemma bitlen_pos: "0 < n \<Longrightarrow> 0 < bitlen n"
  by (simp add: bitlen.simps [of n])

lemma pow2_le_of_int: "(2::int) ^ k \<le> n \<Longrightarrow> (2::rat) ^ k \<le> of_int n"
  using of_int_le_iff [of "2 ^ k" n, where 'a = rat] by simp

lemma of_int_less_pow2: "n < (2::int) ^ k \<Longrightarrow> of_int n + 1 \<le> (2::rat) ^ k"
  using of_int_le_iff [of "n + 1" "2 ^ k", where 'a = rat] by simp

lemma ilog2_bounds:
  assumes "0 < x"
  shows "2 powi (ilog2 x) \<le> x" and "x < 2 powi (ilog2 x + 1)"
proof -
  have "2 powi (ilog2 x) \<le> x \<and> x < 2 powi (ilog2 x + 1)"
  proof (cases "1 \<le> x")
    case True
    define n where "n = \<lfloor>x\<rfloor>"
    have n: "0 < n" using True by (simp add: n_def)
    have fl: "of_int n \<le> x" "x < of_int n + 1"
      unfolding n_def by linarith+
    have e: "ilog2 x = int (bitlen n - 1)"
      using True bitlen_pos [OF n] by (simp add: ilog2_def n_def)
    have e1: "ilog2 x + 1 = int (bitlen n)"
      using bitlen_pos [OF n] by (simp add: e)
    from bitlen_bounds [OF n]
    have b: "(2::int) ^ (bitlen n - 1) \<le> n" "n < 2 ^ bitlen n" by simp_all
    have lo: "(2::rat) ^ (bitlen n - 1) \<le> x"
      using pow2_le_of_int [OF b(1)] fl(1) by linarith
    have hi: "x < (2::rat) ^ bitlen n"
      using of_int_less_pow2 [OF b(2)] fl(2) by linarith
    show ?thesis
      unfolding e1 unfolding e using lo hi by simp
  next
    case False
    define y where "y = 1 / x"
    define m where "m = \<lceil>y\<rceil> - 1"
    have y1: "1 < y" using False assms by (simp add: y_def)
    then have c2: "2 \<le> \<lceil>y\<rceil>" by linarith
    have m: "0 < m" using c2 by (simp add: m_def)
    have my: "of_int m < y" "y \<le> of_int m + 1"
      unfolding m_def by linarith+
    have e: "ilog2 x = - int (bitlen m)"
      using False by (simp add: ilog2_def m_def y_def)
    from bitlen_bounds [OF m]
    have b: "(2::int) ^ (bitlen m - 1) \<le> m" "m < 2 ^ bitlen m" by simp_all
    have lo: "(2::rat) ^ (bitlen m - 1) < y"
      using pow2_le_of_int [OF b(1)] my(1) by linarith
    have hi: "y \<le> (2::rat) ^ bitlen m"
      using of_int_less_pow2 [OF b(2)] my(2) by linarith
    have x: "x = 1 / y" using assms by (simp add: y_def)
    have y0: "0 < y" using y1 by simp
    have A: "2 powi (ilog2 x) \<le> x"
    proof -
      have "1 / (2::rat) ^ bitlen m \<le> 1 / y"
        using hi y0 by (simp add: frac_le)
      moreover have "(2::rat) powi (ilog2 x) = 1 / 2 ^ bitlen m"
        unfolding e by (simp add: power_int_minus field_simps)
      ultimately show ?thesis
        using x by simp
    qed
    have e1: "ilog2 x + 1 = - int (bitlen m - 1)"
      using bitlen_pos [OF m] by (simp add: e)
    have B: "x < 2 powi (ilog2 x + 1)"
    proof -
      have "1 / y < 1 / (2::rat) ^ (bitlen m - 1)"
        using lo by (simp add: frac_less2)
      moreover have "(2::rat) powi (ilog2 x + 1) = 1 / 2 ^ (bitlen m - 1)"
        unfolding e1 by (simp add: power_int_minus field_simps)
      ultimately show ?thesis
        using x by simp
    qed
    show ?thesis using A B by simp
  qed
  then show "2 powi (ilog2 x) \<le> x" and "x < 2 powi (ilog2 x + 1)" by simp_all
qed

lemma ilog2_mono:
  assumes "0 < x" and "x \<le> y"
  shows "ilog2 x \<le> ilog2 y"
proof -
  have "0 < y" using assms by simp
  from ilog2_bounds(1) [OF assms(1)] ilog2_bounds(2) [OF this] assms(2)
  have lt: "(2::rat) powi (ilog2 x) < 2 powi (ilog2 y + 1)" by simp
  have "ilog2 x < ilog2 y + 1"
  proof (rule ccontr)
    assume "\<not> ilog2 x < ilog2 y + 1"
    then have "ilog2 y + 1 \<le> ilog2 x" by simp
    then have "(2::rat) powi (ilog2 y + 1) \<le> 2 powi (ilog2 x)"
      by (rule power_int_increasing) simp
    with lt show False by simp
  qed
  then show ?thesis by simp
qed


lemma roundEven_of_int: "roundEven (of_int n) = n"
  by (simp add: roundEven_def)

lemma roundEven_floor: "\<lfloor>r\<rfloor> \<le> roundEven r \<and> roundEven r \<le> \<lfloor>r\<rfloor> + 1"
  by (simp add: roundEven_def Let_def)

lemma roundEven_near: "of_int (roundEven r) \<le> r + 1 / 2"
proof -
  define f where "f = \<lfloor>r\<rfloor>"
  have f: "of_int f \<le> r" by (simp add: f_def)
  consider "r - of_int f < 1 / 2" | "1 / 2 < r - of_int f" | "r - of_int f = 1 / 2"
    by linarith
  then show ?thesis
  proof cases
    case 1
    then have "roundEven r = f" by (simp add: roundEven_def f_def)
    then show ?thesis using f by simp
  next
    case 2
    then have "roundEven r = f + 1" by (simp add: roundEven_def f_def)
    then show ?thesis using 2 by simp
  next
    case 3
    then have "roundEven r = f \<or> roundEven r = f + 1"
      by (simp add: roundEven_def Let_def f_def)
    then show ?thesis using 3 by auto
  qed
qed

lemma roundEven_near': "r - 1 / 2 \<le> of_int (roundEven r)"
proof -
  define f where "f = \<lfloor>r\<rfloor>"
  have f: "r < of_int f + 1" unfolding f_def by linarith
  consider "r - of_int f < 1 / 2" | "1 / 2 < r - of_int f" | "r - of_int f = 1 / 2"
    by linarith
  then show ?thesis
  proof cases
    case 1
    then have "roundEven r = f" by (simp add: roundEven_def f_def)
    then show ?thesis using 1 by simp
  next
    case 2
    then have "roundEven r = f + 1" by (simp add: roundEven_def f_def)
    then show ?thesis using f by simp
  next
    case 3
    then have "roundEven r = f \<or> roundEven r = f + 1"
      by (simp add: roundEven_def Let_def f_def)
    then show ?thesis using 3 by auto
  qed
qed


lemma roundEven_mono:
  assumes "r \<le> s"
  shows "roundEven r \<le> roundEven s"
proof (cases "\<lfloor>r\<rfloor> = \<lfloor>s\<rfloor>")
  case True
  have "r - of_int \<lfloor>s\<rfloor> \<le> s - of_int \<lfloor>s\<rfloor>" using assms by simp
  then show ?thesis
    by (auto simp add: roundEven_def Let_def True)
next
  case False
  have "\<lfloor>r\<rfloor> \<le> \<lfloor>s\<rfloor>" using assms by (rule floor_mono)
  then have "\<lfloor>r\<rfloor> + 1 \<le> \<lfloor>s\<rfloor>" using False by simp
  then show ?thesis
    using roundEven_floor [of r] roundEven_floor [of s] by linarith
qed

lemma quantum:
  fixes e :: int
  shows "0 < (2::rat) powi (e - 52)"
    and "(2::rat) powi e = 2 ^ 52 * 2 powi (e - 52)"
    and "(2::rat) powi (e + 1) = 2 ^ 53 * 2 powi (e - 52)"
proof -
  show "0 < (2::rat) powi (e - 52)" by simp
  have "e = 52 + (e - 52)" by simp
  then have "(2::rat) powi e = 2 powi (52 + (e - 52))" by (rule arg_cong)
  also have "\<dots> = 2 powi 52 * 2 powi (e - 52)"
    by (rule power_int_add) simp
  finally show "(2::rat) powi e = 2 ^ 52 * 2 powi (e - 52)" by simp
  have "e + 1 = 53 + (e - 52)" by simp
  then have "(2::rat) powi (e + 1) = 2 powi (53 + (e - 52))" by (rule arg_cong)
  also have "\<dots> = 2 powi 53 * 2 powi (e - 52)"
    by (rule power_int_add) simp
  finally show "(2::rat) powi (e + 1) = 2 ^ 53 * 2 powi (e - 52)" by simp
qed

lemma round53_bounds:
  assumes "0 < x"
  shows "2 powi (ilog2 x) \<le> round53 x" and "round53 x \<le> 2 powi (ilog2 x + 1)"
proof -
  define q :: rat where "q = 2 powi (ilog2 x - 52)"
  have q: "0 < q" by (simp add: q_def)
  have lo: "2 ^ 52 * q \<le> x" and hi: "x \<le> 2 ^ 53 * q"
    using ilog2_bounds [OF assms] quantum(2,3) [of "ilog2 x"] by (simp_all add: q_def)
  have "of_int (2 ^ 52) \<le> x / q"
    using lo q by (simp add: pos_le_divide_eq)
  from roundEven_mono [OF this] have a: "2 ^ 52 \<le> roundEven (x / q)"
    by (simp only: roundEven_of_int)
  have "x / q \<le> of_int (2 ^ 53)"
    using hi q by (simp add: pos_divide_le_eq)
  from roundEven_mono [OF this] have b: "roundEven (x / q) \<le> 2 ^ 53"
    by (simp only: roundEven_of_int)
  have r: "round53 x = of_int (roundEven (x / q)) * q"
    by (simp add: round53_def Let_def q_def)
  have a': "(2::rat) ^ 52 \<le> of_int (roundEven (x / q))"
    using a by (metis of_int_le_iff of_int_numeral of_int_power)
  have b': "of_int (roundEven (x / q)) \<le> (2::rat) ^ 53"
    using b by (metis of_int_le_iff of_int_numeral of_int_power)
  show "2 powi (ilog2 x) \<le> round53 x"
    unfolding r quantum(2) [of "ilog2 x"] q_def [symmetric]
    using a' q by (simp only: mult_le_cancel_right_pos)
  show "round53 x \<le> 2 powi (ilog2 x + 1)"
    unfolding r quantum(3) [of "ilog2 x"] q_def [symmetric]
    using b' q by (simp only: mult_le_cancel_right_pos)
qed

lemma round53_mono:
  assumes "0 < x" and "x \<le> y"
  shows "round53 x \<le> round53 y"
proof (cases "ilog2 x = ilog2 y")
  case True
  define q :: rat where "q = 2 powi (ilog2 y - 52)"
  have q: "0 < q" by (simp add: q_def)
  have "x / q \<le> y / q"
    using assms(2) q by (simp add: divide_right_mono)
  from roundEven_mono [OF this]
  have "(of_int (roundEven (x / q)) :: rat) \<le> of_int (roundEven (y / q))"
    by simp
  then have "of_int (roundEven (x / q)) * q \<le> of_int (roundEven (y / q)) * q"
    using q by (simp only: mult_le_cancel_right_pos)
  then show ?thesis
    by (simp add: round53_def Let_def True q_def)
next
  case False
  have y: "0 < y" using assms by simp
  have "ilog2 x + 1 \<le> ilog2 y"
    using ilog2_mono [OF assms] False by simp
  then have "(2::rat) powi (ilog2 x + 1) \<le> 2 powi (ilog2 y)"
    by (rule power_int_increasing) simp
  then show ?thesis
    using round53_bounds(2) [OF assms(1)] round53_bounds(1) [OF y] by linarith
qed

lemma round53_pos: "0 < x \<Longrightarrow> 0 < round53 x"
  using round53_bounds(1) [of x] zero_less_power_int [of "2::rat" "ilog2 x"] by linarith

lemma round53_upper:
  assumes "0 < x"
  shows "round53 x \<le> x * (1 + 1 / 2 ^ 53)"
proof -
  define q :: rat where "q = 2 powi (ilog2 x - 52)"
  have q: "0 < q" by (simp add: q_def)
  have lo: "2 ^ 52 * q \<le> x"
    using ilog2_bounds(1) [OF assms] quantum(2) [of "ilog2 x"] by (simp add: q_def)
  have "of_int (roundEven (x / q)) * q \<le> (x / q + 1 / 2) * q"
    using roundEven_near [of "x / q"] q by (simp only: mult_le_cancel_right_pos)
  also have "\<dots> = x + q / 2"
    using q by (simp add: field_simps)
  also have "\<dots> \<le> x + x / 2 ^ 53"
    using lo by simp
  also have "\<dots> = x * (1 + 1 / 2 ^ 53)"
    by (simp add: field_simps)
  finally show ?thesis
    by (simp add: round53_def Let_def q_def)
qed

lemma float64_nonneg: "0 \<le> x \<Longrightarrow> 0 \<le> float64 x"
  using round53_pos [of x] by (cases "x = 0") (simp_all add: float64_def)

lemma float64_pos: "0 < x \<Longrightarrow> 0 < float64 x"
  using round53_pos [of x] by (simp add: float64_def)

lemma float64_mono:
  assumes "0 \<le> x" and "x \<le> y"
  shows "float64 x \<le> float64 y"
proof (cases "x = 0")
  case True
  then show ?thesis using float64_nonneg [of y] assms by (simp add: float64_def)
next
  case False
  then have x: "0 < x" using assms by simp
  then have "0 < y" using assms by simp
  then show ?thesis
    using round53_mono [OF x assms(2)] x by (simp add: float64_def)
qed

lemma float64_upper:
  assumes "0 \<le> x"
  shows "float64 x \<le> x * (1 + 1 / 2 ^ 53)"
proof (cases "x = 0")
  case True
  then show ?thesis by (simp add: float64_def)
next
  case False
  then have "0 < x" using assms by simp
  then show ?thesis
    using round53_upper [of x] by (simp add: float64_def)
qed

lemma toInt_mono: "0 \<le> x \<Longrightarrow> x \<le> y \<Longrightarrow> toInt x \<le> toInt y"
  by (simp add: toInt_def floor_mono)

lemma toInt_nonneg: "0 \<le> x \<Longrightarrow> 0 \<le> toInt x"
  by (simp add: toInt_def)
lemma float64_lower:
  assumes "0 \<le> x"
  shows "x * (1 - 1 / 2 ^ 53) \<le> float64 x"
proof (cases "x = 0")
  case True
  then show ?thesis by (simp add: float64_def)
next
  case False
  then have x: "0 < x" using assms by simp
  define q :: rat where "q = 2 powi (ilog2 x - 52)"
  have q: "0 < q" by (simp add: q_def)
  have lo: "2 ^ 52 * q \<le> x"
    using ilog2_bounds(1) [OF x] quantum(2) [of "ilog2 x"] by (simp add: q_def)
  have "x * (1 - 1 / 2 ^ 53) = x - x / 2 ^ 53"
    by (simp add: field_simps)
  also have "\<dots> \<le> x - q / 2"
    using lo by simp
  also have "\<dots> = (x / q - 1 / 2) * q"
    using q by (simp add: field_simps)
  also have "\<dots> \<le> of_int (roundEven (x / q)) * q"
    using roundEven_near' [of "x / q"] q by (simp only: mult_le_cancel_right_pos)
  finally show ?thesis
    using x by (simp add: float64_def round53_def Let_def q_def)
qed

lemma float64_consts:
  "float64 0 = 0" "float64 1 = 1" "float64 119 = 119" "float64 120 = 120"
  "float64 121 = 121" "float64 12000 = 12000" "float64 59999999999 = 59999999999"
  "float64 (1 / 2 ^ 36) = 1 / 2 ^ 36" "float64 (120 + 1 / 2 ^ 36) = 120 + 1 / 2 ^ 36"
  by code_simp+

lemma Minutes_le:
  assumes "0 \<le> d" and "d \<le> 120 * Minute"
  shows "0 \<le> Minutes d" and "Minutes d \<le> 120"
proof -
  define m where "m = d div Minute"
  define n where "n = d mod Minute"
  have M: "Minute = 60000000000" by (simp add: Minute_def Second_def)
  have q: "go_quot d Minute = m"
    using assms(1) by (simp add: go_quot_def m_def M)
  have r: "go_rem d Minute = n"
    unfolding go_rem_def q by (simp add: m_def n_def minus_mult_div_eq_mod)
  have n: "0 \<le> n" "n \<le> 59999999999"
    by (simp_all add: n_def M)
  have m: "0 \<le> m" using assms(1) by (simp add: m_def M pos_imp_zdiv_nonneg_iff)
  define f1 where "f1 = float64 (of_int n)"
  define f2 where "f2 = float64 (f1 / 60000000000)"
  define fm where "fm = float64 (of_int m)"
  have f1: "0 \<le> f1" "f1 \<le> 59999999999"
  proof -
    show "0 \<le> f1" unfolding f1_def using n(1) by (simp add: float64_nonneg)
    have "float64 (of_int n) \<le> float64 59999999999"
      using n by (intro float64_mono) simp_all
    then show "f1 \<le> 59999999999" by (simp add: f1_def float64_consts)
  qed
  have f2: "0 \<le> f2" "f2 \<le> 1"
  proof -
    show "0 \<le> f2" unfolding f2_def using f1(1) by (simp add: float64_nonneg)
    have "float64 (f1 / 60000000000) \<le> float64 1"
      using f1 by (intro float64_mono) simp_all
    then show "f2 \<le> 1" by (simp add: f2_def float64_consts)
  qed
  have fm0: "0 \<le> fm" unfolding fm_def using m by (simp add: float64_nonneg)
  have eq: "Minutes d = float64 (fm + f2)"
    by (simp add: Minutes_def Let_def q r fm_def f2_def f1_def)
  show "0 \<le> Minutes d"
    unfolding eq using fm0 f2(1) by (simp add: float64_nonneg)
  have "fm + f2 \<le> 120"
  proof (cases "m \<le> 119")
    case True
    have "float64 (of_int m) \<le> float64 119"
      using m True by (intro float64_mono) simp_all
    then have "fm \<le> 119" by (simp add: fm_def float64_consts)
    then show ?thesis using f2(2) by simp
  next
    case False
    have "d = m * Minute + n" by (simp add: m_def n_def)
    then have "m = 120 \<and> n = 0"
      using False assms(2) n(1) by (simp add: M)
    then show ?thesis
      by (simp add: fm_def f2_def f1_def float64_consts)
  qed
  then have "float64 (fm + f2) \<le> float64 120"
    using fm0 f2(1) by (intro float64_mono) simp_all
  then show "Minutes d \<le> 120"
    by (simp add: eq float64_consts)
qed

lemma Minutes_gt:
  assumes "120 * Minute < d"
  shows "120 < Minutes d"
proof -
  define m where "m = d div Minute"
  define n where "n = d mod Minute"
  have M: "Minute = 60000000000" by (simp add: Minute_def Second_def)
  have d0: "0 \<le> d" using assms by (simp add: M)
  have q: "go_quot d Minute = m"
    using d0 by (simp add: go_quot_def m_def M)
  have r: "go_rem d Minute = n"
    unfolding go_rem_def q by (simp add: m_def n_def minus_mult_div_eq_mod)
  have n: "0 \<le> n" "n \<le> 59999999999"
    by (simp_all add: n_def M)
  have dm: "d = m * Minute + n" by (simp add: m_def n_def)
  have m: "120 \<le> m" using dm assms n(2) by (simp add: M)
  define f1 where "f1 = float64 (of_int n)"
  define f2 where "f2 = float64 (f1 / 60000000000)"
  define fm where "fm = float64 (of_int m)"
  have f1: "0 \<le> f1" unfolding f1_def using n(1) by (simp add: float64_nonneg)
  have f2: "0 \<le> f2" unfolding f2_def using f1 by (simp add: float64_nonneg)
  have "float64 120 \<le> float64 (of_int m)"
    using m by (intro float64_mono) simp_all
  then have fm: "120 \<le> fm" by (simp add: fm_def float64_consts)
  have eq: "Minutes d = float64 (fm + f2)"
    by (simp add: Minutes_def Let_def q r fm_def f2_def f1_def)
  have "120 + 1 / 2 ^ 36 \<le> fm + f2"
  proof (cases "121 \<le> m")
    case True
    have "float64 121 \<le> float64 (of_int m)"
      using True by (intro float64_mono) simp_all
    then have "121 \<le> fm" by (simp add: fm_def float64_consts)
    then show ?thesis using f2 by simp
  next
    case False
    then have "1 \<le> n" using dm assms m by (simp add: M)
    then have "float64 1 \<le> float64 (of_int n)"
      by (intro float64_mono) simp_all
    then have "1 \<le> f1" by (simp add: f1_def float64_consts)
    then have "float64 (1 / 2 ^ 36) \<le> float64 (f1 / 60000000000)"
      by (intro float64_mono) simp_all
    then have "1 / 2 ^ 36 \<le> f2" by (simp only: f2_def float64_consts)
    then show ?thesis using fm by simp
  qed
  then have "float64 (120 + 1 / 2 ^ 36) \<le> float64 (fm + f2)"
    by (intro float64_mono) simp_all
  then have "120 + 1 / 2 ^ 36 \<le> Minutes d"
    by (simp only: eq float64_consts)
  then show ?thesis by simp
qed

subsection \<open>Intervals and samples\<close>

lemma Sub_ascending:
  assumes "unixNano u \<le> unixNano t"
  shows "0 \<le> Sub t u"
    and "(120 * Minute < Sub t u) = (120 * Minute < unixNano t - unixNano u)"
  using assms
  by (simp_all add: Sub_def Let_def minDuration_def maxDuration_def Minute_def Second_def)

lemma intervalPoint_None:
  assumes "unixNano (rd_timestamp prev) \<le> unixNano (rd_timestamp cur)"
  shows "(intervalPoint prev cur = None)
     = (120 * Minute < unixNano (rd_timestamp cur) - unixNano (rd_timestamp prev))"
proof -
  let ?d = "Sub (rd_timestamp cur) (rd_timestamp prev)"
  have "(120 < Minutes ?d) = (120 * Minute < ?d)"
    using Minutes_gt [of ?d] Minutes_le(2) [OF Sub_ascending(1) [OF assms], of ]
    by fastforce
  then show ?thesis
    using Sub_ascending(2) [OF assms] by (simp add: intervalPoint_def Let_def)
qed

lemma roundedY_bounds:
  assumes "0 \<le> v" and "v \<le> 120"
  shows "0 \<le> float64 (float64 (of_int (toInt (float64 (v * 100)))) / 100)"
    and "float64 (float64 (of_int (toInt (float64 (v * 100)))) / 100) \<le> 120"
proof -
  define a where "a = float64 (v * 100)"
  define k where "k = toInt a"
  define b where "b = float64 (of_int k)"
  have a0: "0 \<le> a" unfolding a_def using assms(1) by (simp add: float64_nonneg)
  have "float64 (v * 100) \<le> float64 12000"
    using assms by (intro float64_mono) simp_all
  then have a1: "a \<le> 12000" by (simp add: a_def float64_consts)
  have k0: "0 \<le> k" unfolding k_def using a0 by (rule toInt_nonneg)
  have "toInt a \<le> toInt 12000" using a0 a1 by (rule toInt_mono)
  then have k1: "k \<le> 12000" by (simp add: k_def toInt_def)
  have b0: "0 \<le> b" unfolding b_def using k0 by (simp add: float64_nonneg)
  have "float64 (of_int k) \<le> float64 12000"
    using k0 k1 by (intro float64_mono) simp_all
  then have b1: "b \<le> 12000" by (simp add: b_def float64_consts)
  show "0 \<le> float64 (float64 (of_int (toInt (float64 (v * 100)))) / 100)"
    unfolding a_def [symmetric] k_def [symmetric] b_def [symmetric]
    using b0 by (simp add: float64_nonneg)
  have "float64 (b / 100) \<le> float64 120"
    using b0 b1 by (intro float64_mono) simp_all
  then show "float64 (float64 (of_int (toInt (float64 (v * 100)))) / 100) \<le> 120"
    unfolding a_def [symmetric] k_def [symmetric] b_def [symmetric]
    by (simp add: float64_consts)
qed

lemma intervalPoint_Y:
  assumes "unixNano (rd_timestamp prev) \<le> unixNano (rd_timestamp cur)"
    and "intervalPoint prev cur = Some pt"
  shows "0 \<le> itp_Y pt \<and> itp_Y pt \<le> 120"
proof -
  let ?v = "Minutes (Sub (rd_timestamp cur) (rd_timestamp prev))"
  have le: "?v \<le> 120"
    using assms(2) by (simp add: intervalPoint_def Let_def split: if_splits)
  have "\<not> 120 * Minute < Sub (rd_timestamp cur) (rd_timestamp prev)"
    using Minutes_gt [of "Sub (rd_timestamp cur) (rd_timestamp prev)"] le by auto
  then have ge: "0 \<le> ?v"
    using Minutes_le(1) [OF Sub_ascending(1) [OF assms(1)]] by simp
  have "itp_Y pt = float64 (float64 (of_int (toInt (float64 (?v * 100)))) / 100)"
    using assms(2) by (auto simp add: intervalPoint_def Let_def split: if_splits)
  then show ?thesis
    using roundedY_bounds [OF ge le] by simp
qed

lemma intervalPoint_X:
  "intervalPoint prev cur = Some pt \<Longrightarrow> itp_X pt = Format_RFC3339 (rd_timestamp cur)"
  by (auto simp add: intervalPoint_def Let_def split: if_splits)

lemma intervalPoints_pairs:
  assumes "sorted (map (\<lambda>r. unixNano (rd_timestamp r)) records)"
  shows "map Some (intervalPoints records)
     = map (\<lambda>(prev, cur). intervalPoint prev cur) (spec_pairs records)"
  using assms
proof (induction records rule: intervalPoints.induct)
  case (1 prev cur rest)
  have le: "unixNano (rd_timestamp prev) \<le> unixNano (rd_timestamp cur)"
    using 1(2) by simp
  have s: "sorted (map (\<lambda>r. unixNano (rd_timestamp r)) (cur # rest))"
    using 1(2) by simp
  have ih: "map Some (intervalPoints (cur # rest))
     = map (\<lambda>(prev, cur). intervalPoint prev cur) (spec_pairs (cur # rest))"
    using 1(1) [OF s] .
  have sp: "spec_pairs (prev # cur # rest)
     = (if unixNano (rd_timestamp cur) - unixNano (rd_timestamp prev) \<le> 120 * Minute
        then [(prev, cur)] else []) @ spec_pairs (cur # rest)"
    by (simp add: spec_pairs_def)
  show ?case
  proof (cases "intervalPoint prev cur")
    case None
    then have "\<not> unixNano (rd_timestamp cur) - unixNano (rd_timestamp prev) \<le> 120 * Minute"
      using intervalPoint_None [OF le] by simp
    then show ?thesis
      unfolding sp using None ih by simp
  next
    case (Some pt)
    then have "unixNano (rd_timestamp cur) - unixNano (rd_timestamp prev) \<le> 120 * Minute"
      using intervalPoint_None [OF le] by simp
    then show ?thesis
      unfolding sp using Some ih by simp
  qed
qed (simp_all add: spec_pairs_def)

lemma spec_pairs_ascending:
  assumes "sorted (map (\<lambda>r. unixNano (rd_timestamp r)) records)"
  shows "sorted (map (\<lambda>(prev, cur). unixNano (rd_timestamp cur)) (spec_pairs records))"
    and "\<forall>(prev, cur) \<in> set (spec_pairs records).
           unixNano (rd_timestamp prev) \<le> unixNano (rd_timestamp cur)"
proof -
  let ?g = "\<lambda>r. unixNano (rd_timestamp r)"
  have "map (\<lambda>(prev, cur). ?g cur) (zip records (tl records))
      = map ?g (map snd (zip records (tl records)))"
    by (simp add: case_prod_beta comp_def)
  also have "\<dots> = map ?g (tl records)"
    by (simp add: map_snd_zip_take)
  also have "\<dots> = tl (map ?g records)"
    by (simp add: map_tl)
  finally have "sorted (map (\<lambda>(prev, cur). ?g cur) (zip records (tl records)))"
    using assms by (simp add: sorted_tl)
  then show "sorted (map (\<lambda>(prev, cur). ?g cur) (spec_pairs records))"
    unfolding spec_pairs_def by (rule sorted_filter)
  show "\<forall>(prev, cur) \<in> set (spec_pairs records). ?g prev \<le> ?g cur"
    using assms
  proof (induction records rule: intervalPoints.induct)
    case (1 prev cur rest)
    then show ?case by (auto simp add: spec_pairs_def)
  qed (simp_all add: spec_pairs_def)
qed

lemma sampleStep_nonneg: "0 \<le> limit \<Longrightarrow> 0 \<le> sampleStep len limit"
  by (simp add: sampleStep_def float64_nonneg)

lemma sampleIndex_nonneg:
  "0 \<le> i \<Longrightarrow> 0 \<le> limit \<Longrightarrow> 0 \<le> sampleIndex len limit i"
  by (simp add: sampleIndex_def toInt_nonneg float64_nonneg sampleStep_nonneg)

lemma sampleIndex_mono:
  assumes "0 \<le> i" and "i \<le> j" and "0 \<le> limit"
  shows "sampleIndex len limit i \<le> sampleIndex len limit j"
proof -
  have s: "0 \<le> sampleStep len limit"
    using assms(3) by (rule sampleStep_nonneg)
  have a: "0 \<le> float64 (of_int i)"
    using assms(1) by (simp add: float64_nonneg)
  have "float64 (of_int i) \<le> float64 (of_int j)"
    using assms(1,2) by (intro float64_mono) simp_all
  then have "float64 (of_int i) * sampleStep len limit
      \<le> float64 (of_int j) * sampleStep len limit"
    using s by (rule mult_right_mono)
  then have "float64 (float64 (of_int i) * sampleStep len limit)
      \<le> float64 (float64 (of_int j) * sampleStep len limit)"
    using a s by (intro float64_mono) simp_all
  then show ?thesis
    unfolding sampleIndex_def using a s
    by (intro toInt_mono float64_nonneg) simp_all
qed

lemma sampleIndex_less:
  assumes "0 \<le> i" and "i < limit" and "limit \<le> 10000" and "0 < len"
  shows "sampleIndex len limit i < int len"
proof -
  define up :: rat where "up = 1 + 1 / 2 ^ 53"
  define um :: rat where "um = 1 - 1 / 2 ^ 53"
  define L :: rat where "L = of_int limit"
  define N :: rat where "N = of_nat len"
  define A where "A = float64 (of_int i)"
  define B where "B = float64 N"
  define C where "C = float64 L"
  define S where "S = float64 (B / C)"
  define P where "P = float64 (A * S)"
  have up: "0 < up" and um: "0 < um" by (simp_all add: up_def um_def)
  have L: "1 \<le> L" "L \<le> 10000" and iL: "of_int i \<le> L - 1"
  proof -
    have "1 \<le> limit" using assms(1,2) by simp
    then show "1 \<le> L" unfolding L_def by simp
    show "L \<le> 10000" unfolding L_def using assms(3) by simp
    have "i \<le> limit - 1" using assms(2) by simp
    then have "(of_int i :: rat) \<le> of_int (limit - 1)"
      by (simp only: of_int_le_iff)
    then show "of_int i \<le> L - 1" by (simp add: L_def)
  qed
  have N: "0 < N" using assms(4) by (simp add: N_def)
  have A0: "0 \<le> A" unfolding A_def using assms(1) by (simp add: float64_nonneg)
  have "A \<le> of_int i * up"
    unfolding A_def up_def using assms(1) by (intro float64_upper) simp
  also have "\<dots> \<le> (L - 1) * up"
    using iL less_imp_le [OF up] by (rule mult_right_mono)
  finally have A1: "A \<le> (L - 1) * up" .
  have B0: "0 \<le> B" unfolding B_def using N by (simp add: float64_nonneg)
  have B1: "B \<le> N * up"
    unfolding B_def up_def using N by (intro float64_upper) simp
  have C1: "L * um \<le> C"
    unfolding C_def um_def using L(1) by (intro float64_lower) simp
  have Lum: "0 < L * um" using L(1) um by simp
  have C0: "0 < C" using C1 Lum by simp
  have "0 \<le> N * up" using N up by simp
  then have q: "B / C \<le> (N * up) / (L * um)"
    using B1 Lum C1 by (rule frac_le)
  have q0: "0 \<le> B / C" using B0 C0 by simp
  have S0: "0 \<le> S" unfolding S_def using q0 by (rule float64_nonneg)
  have "S \<le> (B / C) * up"
    unfolding S_def up_def using q0 by (rule float64_upper)
  also have "\<dots> \<le> (N * up) / (L * um) * up"
    using q less_imp_le [OF up] by (rule mult_right_mono)
  finally have S1: "S \<le> (N * up) / (L * um) * up" .
  have AS0: "0 \<le> A * S" using A0 S0 by simp
  have AS: "A * S \<le> ((L - 1) * up) * ((N * up) / (L * um) * up)"
    using A1 S1 _ S0
  proof (rule mult_mono)
    show "0 \<le> (L - 1) * up" using L(1) up by simp
  qed
  have "P \<le> (A * S) * up"
    unfolding P_def up_def using AS0 by (rule float64_upper)
  also have "\<dots> \<le> ((L - 1) * up) * ((N * up) / (L * um) * up) * up"
    using AS less_imp_le [OF up] by (rule mult_right_mono)
  also have "\<dots> = N * (((L - 1) * (up ^ 4 / um)) / L)"
    using L(1) um by (simp add: field_simps power4_eq_xxxx)
  finally have P1: "P \<le> N * (((L - 1) * (up ^ 4 / um)) / L)" .
  have K: "up ^ 4 / um \<le> 10001 / 10000"
    by (simp add: up_def um_def power4_eq_xxxx)
  have "0 \<le> L - 1" using L(1) by simp
  with K have "(L - 1) * (up ^ 4 / um) \<le> (L - 1) * (10001 / 10000)"
    by (rule mult_left_mono)
  also have "\<dots> < L" using L(2) by simp
  finally have lt: "(L - 1) * (up ^ 4 / um) < L" .
  have "0 < L" using L(1) by simp
  then have "((L - 1) * (up ^ 4 / um)) / L < 1"
    using lt by (simp only: divide_less_eq_1_pos)
  then have "N * (((L - 1) * (up ^ 4 / um)) / L) < N * 1"
    using N by (simp only: mult_less_cancel_left_pos)
  then have "P < N" using P1 by simp
  then have "\<lfloor>P\<rfloor> < int len"
    by (simp add: floor_less_iff N_def)
  moreover have "0 \<le> P" unfolding P_def using AS0 by (rule float64_nonneg)
  ultimately show ?thesis
    by (simp add: sampleIndex_def sampleStep_def toInt_def P_def A_def S_def B_def C_def
        N_def L_def)
qed

lemma sampleEvenly_all:
  assumes "0 < limit" and "limit \<le> 10000" and "points \<noteq> []"
  shows "sampleEvenly limit points
     = map (\<lambda>i. points ! nat (sampleIndex (length points) limit (int i))) [0..<nat limit]"
proof -
  have "(let idx = sampleIndex (length points) limit (int i)
         in if idx < int (length points) then [points ! nat idx] else [])
      = [points ! nat (sampleIndex (length points) limit (int i))]"
    if "i \<in> set [0..<nat limit]" for i
  proof -
    have "int i < limit" using that by simp
    then have "sampleIndex (length points) limit (int i) < int (length points)"
      using assms by (intro sampleIndex_less) simp_all
    then show ?thesis by (simp add: Let_def)
  qed
  then have m: "map (\<lambda>i. let idx = sampleIndex (length points) limit (int i)
                       in if idx < int (length points) then [points ! nat idx] else [])
                 [0..<nat limit]
      = map (\<lambda>i. [points ! nat (sampleIndex (length points) limit (int i))]) [0..<nat limit]"
    by (intro map_cong refl)
  show ?thesis
    unfolding sampleEvenly_def m by (simp only: concat_map_singleton)
qed

lemma sampleIndex_near:
  assumes "0 \<le> i" and "i < limit" and "limit \<le> 10000" and "len < 2 ^ 36"
  shows "spec_index len limit i - 1 \<le> sampleIndex len limit i"
    and "sampleIndex len limit i \<le> spec_index len limit i"
proof -
  define up :: rat where "up = 1 + 1 / 2 ^ 53"
  define um :: rat where "um = 1 - 1 / 2 ^ 53"
  define L :: rat where "L = of_int limit"
  define N :: rat where "N = of_nat len"
  define I :: rat where "I = of_int i"
  define A where "A = float64 I"
  define B where "B = float64 N"
  define C where "C = float64 L"
  define S where "S = float64 (B / C)"
  define P where "P = float64 (A * S)"
  define E where "E = I * N / L"
  define d where "d = (i * int len) div limit"
  define r where "r = (i * int len) mod limit"
  have up: "0 < up" and um: "0 < um" by (simp_all add: up_def um_def)
  have L: "1 \<le> L" "L \<le> 10000"
  proof -
    have "1 \<le> limit" using assms(1,2) by simp
    then show "1 \<le> L" unfolding L_def by simp
    show "L \<le> 10000" unfolding L_def using assms(3) by simp
  qed
  have L0: "0 < L" using L(1) by simp
  have I: "0 \<le> I" "I \<le> L" using assms(1,2) by (simp_all add: I_def L_def)
  have N: "0 \<le> N" "N \<le> 2 ^ 36"
  proof -
    show "0 \<le> N" by (simp add: N_def)
    have "(of_nat len :: rat) \<le> of_nat (2 ^ 36)"
      using assms(4) by (simp only: of_nat_le_iff)
    then show "N \<le> 2 ^ 36" by (simp add: N_def)
  qed
  have E0: "0 \<le> E" using I(1) N(1) L0 by (simp add: E_def)
  have "E = N * (I / L)" by (simp add: E_def)
  also have "\<dots> \<le> N * 1"
    using N(1) I L0 by (intro mult_left_mono) simp_all
  finally have E1: "E \<le> 2 ^ 36" using N(2) by simp
  \<comment> \<open>the bounds of every rounding\<close>
  have A0: "0 \<le> A" unfolding A_def using I(1) by (rule float64_nonneg)
  have A1: "A \<le> I * up" unfolding A_def up_def using I(1) by (rule float64_upper)
  have A2: "I * um \<le> A" unfolding A_def um_def using I(1) by (rule float64_lower)
  have B0: "0 \<le> B" unfolding B_def using N(1) by (rule float64_nonneg)
  have B1: "B \<le> N * up" unfolding B_def up_def using N(1) by (rule float64_upper)
  have B2: "N * um \<le> B" unfolding B_def um_def using N(1) by (rule float64_lower)
  have C1: "C \<le> L * up" unfolding C_def up_def using L0 by (intro float64_upper) simp
  have C2: "L * um \<le> C" unfolding C_def um_def using L0 by (intro float64_lower) simp
  have Lum: "0 < L * um" using L0 um by simp
  have C0: "0 < C" using C2 Lum by simp
  have q0: "0 \<le> B / C" using B0 C0 by simp
  have "0 \<le> N * up" using N(1) up by simp
  then have q1: "B / C \<le> (N * up) / (L * um)"
    using B1 Lum C2 by (rule frac_le)
  have "0 \<le> B" by (rule B0)
  then have q2: "(N * um) / (L * up) \<le> B / C"
    using B2 C0 C1 by (rule frac_le)
  have S0: "0 \<le> S" unfolding S_def using q0 by (rule float64_nonneg)
  have "S \<le> (B / C) * up" unfolding S_def up_def using q0 by (rule float64_upper)
  also have "\<dots> \<le> (N * up) / (L * um) * up"
    using q1 less_imp_le [OF up] by (rule mult_right_mono)
  finally have S1: "S \<le> (N * up) / (L * um) * up" .
  have "(N * um) / (L * up) * um \<le> (B / C) * um"
    using q2 less_imp_le [OF um] by (rule mult_right_mono)
  also have "\<dots> \<le> S" unfolding S_def um_def using q0 by (rule float64_lower)
  finally have S2: "(N * um) / (L * up) * um \<le> S" .
  have AS0: "0 \<le> A * S" using A0 S0 by simp
  have AS1: "A * S \<le> (I * up) * ((N * up) / (L * um) * up)"
    using A1 S1 _ S0
  proof (rule mult_mono)
    show "0 \<le> I * up" using I(1) up by simp
  qed
  have AS2: "(I * um) * ((N * um) / (L * up) * um) \<le> A * S"
    using A2 S2 A0
  proof (rule mult_mono)
    show "0 \<le> (N * um) / (L * up) * um" using N(1) um up L0 by simp
  qed
  have "P \<le> (A * S) * up" unfolding P_def up_def using AS0 by (rule float64_upper)
  also have "\<dots> \<le> (I * up) * ((N * up) / (L * um) * up) * up"
    using AS1 less_imp_le [OF up] by (rule mult_right_mono)
  also have "\<dots> = E * (up ^ 4 / um)"
    using L0 um by (simp add: E_def field_simps power4_eq_xxxx)
  finally have P1: "P \<le> E * (up ^ 4 / um)" .
  have "E * (um ^ 4 / up) = (I * um) * ((N * um) / (L * up) * um) * um"
    using L0 up by (simp add: E_def field_simps power4_eq_xxxx)
  also have "\<dots> \<le> (A * S) * um"
    using AS2 less_imp_le [OF um] by (rule mult_right_mono)
  also have "\<dots> \<le> P" unfolding P_def um_def using AS0 by (rule float64_lower)
  finally have P2: "E * (um ^ 4 / up) \<le> P" .
  have K1: "up ^ 4 / um \<le> 1 + 1 / 2 ^ 50"
    by (simp add: up_def um_def power4_eq_xxxx)
  have K2: "1 - 1 / 2 ^ 50 \<le> um ^ 4 / up"
    by (simp add: up_def um_def power4_eq_xxxx)
  have "E * (up ^ 4 / um) \<le> E * (1 + 1 / 2 ^ 50)"
    using K1 E0 by (rule mult_left_mono)
  also have "\<dots> = E + E / 2 ^ 50" by (simp add: field_simps)
  also have "\<dots> \<le> E + 2 ^ 36 / 2 ^ 50" using E1 by (simp add: divide_right_mono)
  finally have hi: "P \<le> E + 1 / 16384" using P1 by simp
  have "E - 2 ^ 36 / 2 ^ 50 \<le> E - E / 2 ^ 50" using E1 by (simp add: divide_right_mono)
  also have "\<dots> = E * (1 - 1 / 2 ^ 50)" by (simp add: field_simps)
  also have "\<dots> \<le> E * (um ^ 4 / up)"
    using K2 E0 by (rule mult_left_mono)
  finally have lo: "E - 1 / 16384 \<le> P" using P2 by simp
  \<comment> \<open>the exact quotient and its floor\<close>
  have lim: "0 < limit" using assms(1,2) by simp
  have r: "0 \<le> r" "r \<le> limit - 1"
    using lim by (simp_all add: r_def)
  have "i * int len = d * limit + r"
    by (simp add: d_def r_def)
  then have "(of_int (i * int len) :: rat) = of_int (d * limit + r)"
    by (rule arg_cong)
  then have "I * N = of_int d * L + of_int r"
    by (simp add: I_def N_def L_def)
  then have Ed: "E = of_int d + of_int r / L"
    using L0 by (simp add: E_def field_simps)
  have r0: "(0::rat) \<le> of_int r / L" using r(1) L0 by simp
  have "(of_int r :: rat) \<le> of_int (limit - 1)"
    using r(2) by (simp only: of_int_le_iff)
  then have "(of_int r :: rat) \<le> L - 1" by (simp add: L_def)
  then have "of_int r / L \<le> (L - 1) / L"
    using L0 by (simp add: divide_right_mono)
  also have "\<dots> = 1 - 1 / L" using L0 by (simp add: field_simps)
  also have "\<dots> \<le> 1 - 1 / 10000"
    using L0 L(2) by (simp add: frac_le)
  finally have r1: "of_int r / L \<le> 1 - 1 / 10000" .
  have P0: "0 \<le> P" unfolding P_def using AS0 by (rule float64_nonneg)
  have "P < of_int (d + 1)" using hi Ed r1 by simp
  then have "\<lfloor>P\<rfloor> < d + 1" by (simp only: floor_less_iff)
  then have a: "\<lfloor>P\<rfloor> \<le> d" by simp
  have "of_int (d - 1) \<le> P" using lo Ed r0 by simp
  then have b: "d - 1 \<le> \<lfloor>P\<rfloor>" by (simp only: le_floor_iff)
  have e: "sampleIndex len limit i = \<lfloor>P\<rfloor>"
    using P0
    by (simp add: sampleIndex_def sampleStep_def toInt_def P_def A_def S_def B_def C_def
        N_def L_def I_def)
  show "spec_index len limit i - 1 \<le> sampleIndex len limit i"
    unfolding e spec_index_def d_def [symmetric] using b .
  show "sampleIndex len limit i \<le> spec_index len limit i"
    unfolding e spec_index_def d_def [symmetric] using a .
qed

lemma points_X:
  "map Some out = map (\<lambda>(prev, cur). intervalPoint prev cur) sel
   \<Longrightarrow> map itp_X out = map (\<lambda>(prev, cur). Format_RFC3339 (rd_timestamp cur)) sel"
proof (induction out arbitrary: sel)
  case Nil
  then show ?case by simp
next
  case (Cons pt out)
  then obtain pc sel' where sel: "sel = pc # sel'" by (cases sel) auto
  obtain prev cur where pc: "pc = (prev, cur)" by (cases pc)
  have h: "intervalPoint prev cur = Some pt"
    and t: "map Some out = map (\<lambda>(prev, cur). intervalPoint prev cur) sel'"
    using Cons(2) by (simp_all add: sel pc)
  show ?case
    using intervalPoint_X [OF h] Cons(1) [OF t] by (simp add: sel pc)
qed

lemma points_Y:
  "map Some out = map (\<lambda>(prev, cur). intervalPoint prev cur) sel
   \<Longrightarrow> \<forall>(prev, cur) \<in> set sel. unixNano (rd_timestamp prev) \<le> unixNano (rd_timestamp cur)
   \<Longrightarrow> \<forall>pt \<in> set out. 0 \<le> itp_Y pt \<and> itp_Y pt \<le> 120"
proof (induction out arbitrary: sel)
  case Nil
  then show ?case by simp
next
  case (Cons pt out)
  then obtain pc sel' where sel: "sel = pc # sel'" by (cases sel) auto
  obtain prev cur where pc: "pc = (prev, cur)" by (cases pc)
  have h: "intervalPoint prev cur = Some pt"
    and t: "map Some out = map (\<lambda>(prev, cur). intervalPoint prev cur) sel'"
    using Cons(2) by (simp_all add: sel pc)
  have le: "unixNano (rd_timestamp prev) \<le> unixNano (rd_timestamp cur)"
    and les: "\<forall>(prev, cur) \<in> set sel'.
                unixNano (rd_timestamp prev) \<le> unixNano (rd_timestamp cur)"
    using Cons(3) by (simp_all add: sel pc)
  show ?case
    using intervalPoint_Y [OF le h] Cons(1) [OF t les] by simp
qed

lemma select_Some:
  assumes "map Some points = map f pairs" and "\<forall>i<m. idx i < length pairs"
  shows "map Some (map (\<lambda>i. points ! idx i) [0..<m]) = map f (map (\<lambda>i. pairs ! idx i) [0..<m])"
proof -
  have len: "length points = length pairs"
    using assms(1) by (metis length_map)
  have "Some (points ! idx i) = f (pairs ! idx i)" if "i < m" for i
  proof -
    have k: "idx i < length pairs" using assms(2) that by simp
    have "Some (points ! idx i) = map Some points ! idx i"
      using k len by simp
    also have "\<dots> = f (pairs ! idx i)"
      unfolding assms(1) using k by simp
    finally show ?thesis .
  qed
  then show ?thesis by simp
qed

lemma select_sorted:
  fixes g :: "'a \<Rightarrow> int"
  assumes "sorted (map g pairs)" and "\<forall>i<m. idx i < length pairs"
    and "\<forall>i<m. \<forall>j<m. i \<le> j \<longrightarrow> idx i \<le> idx j"
  shows "sorted (map g (map (\<lambda>i. pairs ! idx i) [0..<m]))"
proof -
  have "g (pairs ! idx i) \<le> g (pairs ! idx j)" if "i \<le> j" and "j < m" for i j
  proof -
    have "idx i \<le> idx j" and "idx j < length pairs"
      using assms(2,3) that by simp_all
    then have "map g pairs ! idx i \<le> map g pairs ! idx j"
      using assms(1) by (simp add: sorted_iff_nth_mono del: nth_map)
    then show ?thesis
      using \<open>idx i \<le> idx j\<close> \<open>idx j < length pairs\<close> by simp
  qed
  then show ?thesis
    by (simp add: sorted_iff_nth_mono)
qed

text \<open>
  C3, as stated, fails: two successful records of the same second give a point with
  \<open>y = 0\<close>, which is not in \<open>(0,120]\<close>. And the index of a sample is computed in
  \<^verbatim>\<open>float64\<close>: for 30 points and the limit 22 the sample 11 is the point 14, while
  \<open>\<lfloor>11 \<cdot> 30 / 22\<rfloor> = 15\<close>.
\<close>

theorem GetIntervalTimeline_zero_counterexample:
  "GetIntervalTimeline pending_store
       (Inr [timeline_row ''2025-01-13T09:20:00Z'', timeline_row ''2025-01-13T09:20:00Z''])
       24 5000
     = Inr \<lparr>itr_AnalysisPeriodHours = 24, itr_TotalPoints = 1,
            itr_Points = [\<lparr>itp_X = ''2025-01-13T09:20:00Z'', itp_Y = 0, itp_Model = ''m''\<rparr>],
            itr_Models = {''m''}\<rparr>
   \<and> sampleIndex 30 22 11 = 14
   \<and> spec_index 30 22 11 = 15"
  by code_simp

text \<open>
  C3, amended. For the records of the answer in ascending order of their timestamps,
  \<^verbatim>\<open>GetIntervalTimeline\<close> returns the points of a list \<open>sel\<close> of consecutive pairs, each
  point with the RFC 3339 rendering of the later timestamp of its pair as \<open>x\<close>, in
  non-decreasing order of these timestamps, and with \<open>0 \<le> y \<le> 120\<close>. With \<open>pairs\<close> the
  consecutive pairs at most 120 minutes apart and \<open>lim\<close> the limit (5000 below 1, at most
  10000): \<open>sel\<close> is \<open>pairs\<close> when there are at most \<open>lim\<close> of them, and otherwise the
  \<open>lim\<close> pairs at the indices \<^verbatim>\<open>int(float64(i) * (float64(len) / float64(limit)))\<close> for
  \<open>i\<close> from \<open>0\<close> to \<open>lim - 1\<close>; each index is inside the list, the indices do not
  decrease, and (for fewer than \<open>2 ^ 36\<close> pairs) each is \<open>\<lfloor>i \<cdot> len / limit\<rfloor>\<close> or one less.
\<close>

theorem GetIntervalTimeline_points:
  assumes "\<not> closed s"
    and "sorted (map (\<lambda>r. unixNano (rd_timestamp r)) (List.map_filter scanTimelineRow rows))"
  shows "\<exists>res sel.
      GetIntervalTimeline s (Inr rows) hours limit = Inr res
    \<and> map Some (itr_Points res) = map (\<lambda>(prev, cur). intervalPoint prev cur) sel
    \<and> map itp_X (itr_Points res) = map (\<lambda>(prev, cur). Format_RFC3339 (rd_timestamp cur)) sel
    \<and> sorted (map (\<lambda>(prev, cur). unixNano (rd_timestamp cur)) sel)
    \<and> (\<forall>pt \<in> set (itr_Points res). 0 \<le> itp_Y pt \<and> itp_Y pt \<le> 120)
    \<and> itr_TotalPoints res = int (length sel)
    \<and> (let pairs = spec_pairs (List.map_filter scanTimelineRow rows);
            n = length pairs;
            lim = (if limit < 1 then 5000 else if 10000 < limit then 10000 else limit)
        in if int n \<le> lim then sel = pairs
           else length sel = nat lim
              \<and> sel = map (\<lambda>i. pairs ! nat (sampleIndex n lim (int i))) [0..<nat lim]
              \<and> (\<forall>i<nat lim. 0 \<le> sampleIndex n lim (int i) \<and> sampleIndex n lim (int i) < int n)
              \<and> (\<forall>i<nat lim. \<forall>j<nat lim.
                    i \<le> j \<longrightarrow> sampleIndex n lim (int i) \<le> sampleIndex n lim (int j))
              \<and> (n < 2 ^ 36 \<longrightarrow>
                    (\<forall>i<nat lim. spec_index n lim (int i) - 1 \<le> sampleIndex n lim (int i)
                                 \<and> sampleIndex n lim (int i) \<le> spec_index n lim (int i))))"
proof -
  define records where "records = List.map_filter scanTimelineRow rows"
  define pairs where "pairs = spec_pairs records"
  define points where "points = intervalPoints records"
  define n where "n = length pairs"
  define lim where "lim = (if limit < 1 then 5000 else if 10000 < limit then 10000 else limit)"
  define sampled where
    "sampled = (if lim < int (length points) then sampleEvenly lim points else points)"
  define res where "res = \<lparr>itr_AnalysisPeriodHours =
        (if 720 < (if hours < 1 then 24 else hours) then 720
         else (if hours < 1 then 24 else hours)),
      itr_TotalPoints = int (length sampled), itr_Points = sampled,
      itr_Models = set (filter (\<lambda>m. m \<noteq> []) (map itp_Model points))\<rparr>"
  have lim: "1 \<le> lim" "lim \<le> 10000" by (simp_all add: lim_def)
  have lim': "(if 10000 < (if limit < 1 then 5000 else limit) then 10000
               else (if limit < 1 then 5000 else limit)) = lim"
    by (simp add: lim_def)
  have run: "GetIntervalTimeline s (Inr rows) hours limit = Inr res"
    using assms(1)
    by (simp add: GetIntervalTimeline_def Let_def lim' res_def sampled_def points_def
        records_def)
  have srt: "sorted (map (\<lambda>r. unixNano (rd_timestamp r)) records)"
    using assms(2) by (simp add: records_def)
  have pts: "map Some points = map (\<lambda>(prev, cur). intervalPoint prev cur) pairs"
    unfolding points_def pairs_def using srt by (rule intervalPoints_pairs)
  have len: "length points = n"
    unfolding n_def using pts by (metis length_map)
  have asc: "sorted (map (\<lambda>(prev, cur). unixNano (rd_timestamp cur)) pairs)"
    and le: "\<forall>(prev, cur) \<in> set pairs.
               unixNano (rd_timestamp prev) \<le> unixNano (rd_timestamp cur)"
    unfolding pairs_def using spec_pairs_ascending [OF srt] by simp_all
  define sel where "sel = (if int n \<le> lim then pairs
      else map (\<lambda>i. pairs ! nat (sampleIndex n lim (int i))) [0..<nat lim])"
  have inside: "0 \<le> sampleIndex n lim (int i) \<and> sampleIndex n lim (int i) < int n"
    if "i < nat lim" and "lim < int n" for i
  proof -
    have "int i < lim" using that(1) by simp
    moreover have "0 < n" using that(2) lim(1) by simp
    ultimately have "sampleIndex n lim (int i) < int n"
      using lim(2) by (intro sampleIndex_less) simp_all
    moreover have "0 \<le> sampleIndex n lim (int i)"
      using lim(1) by (intro sampleIndex_nonneg) simp_all
    ultimately show ?thesis by simp
  qed
  have mono: "sampleIndex n lim (int i) \<le> sampleIndex n lim (int j)" if "i \<le> j" for i j
    using that lim(1) by (intro sampleIndex_mono) simp_all
  have near: "spec_index n lim (int i) - 1 \<le> sampleIndex n lim (int i)
      \<and> sampleIndex n lim (int i) \<le> spec_index n lim (int i)"
    if "i < nat lim" and "n < 2 ^ 36" for i
  proof -
    have "int i < lim" using that(1) by simp
    then show ?thesis
      using lim(2) that(2) sampleIndex_near [of "int i" lim n] by simp
  qed
  have idx: "\<forall>i<nat lim. nat (sampleIndex n lim (int i)) < length pairs" if "lim < int n"
  proof (intro allI impI)
    fix i
    assume "i < nat lim"
    from inside [OF this that]
    have "0 \<le> sampleIndex n lim (int i)" and "sampleIndex n lim (int i) < int n"
      by simp_all
    then have "nat (sampleIndex n lim (int i)) < n" by linarith
    then show "nat (sampleIndex n lim (int i)) < length pairs" by (simp add: n_def)
  qed
  have idxm: "\<forall>i<nat lim. \<forall>j<nat lim.
      i \<le> j \<longrightarrow> nat (sampleIndex n lim (int i)) \<le> nat (sampleIndex n lim (int j))"
    using mono by (simp add: nat_mono)
  have smp: "sampled = map (\<lambda>i. points ! nat (sampleIndex n lim (int i))) [0..<nat lim]"
    if "lim < int n"
  proof -
    have "points \<noteq> []" using that lim(1) len by auto
    then have "sampleEvenly lim points
       = map (\<lambda>i. points ! nat (sampleIndex (length points) lim (int i))) [0..<nat lim]"
      using lim by (intro sampleEvenly_all) simp_all
    then show ?thesis using that by (simp add: sampled_def len)
  qed
  have c1: "map Some sampled = map (\<lambda>(prev, cur). intervalPoint prev cur) sel"
  proof (cases "int n \<le> lim")
    case True
    then show ?thesis using pts by (simp add: sampled_def sel_def len)
  next
    case False
    then have gt: "lim < int n" by simp
    show ?thesis
      unfolding smp [OF gt] using select_Some [OF pts idx [OF gt]] False
      by (simp add: sel_def)
  qed
  have c3: "sorted (map (\<lambda>(prev, cur). unixNano (rd_timestamp cur)) sel)"
  proof (cases "int n \<le> lim")
    case True
    then show ?thesis using asc by (simp add: sel_def)
  next
    case False
    then have gt: "lim < int n" by simp
    show ?thesis
      using select_sorted [OF asc idx [OF gt] idxm] False by (simp add: sel_def)
  qed
  have sub: "set sel \<subseteq> set pairs"
  proof (cases "int n \<le> lim")
    case True
    then show ?thesis by (simp add: sel_def)
  next
    case False
    then have gt: "lim < int n" by simp
    show ?thesis
      using idx [OF gt] False by (auto simp add: sel_def)
  qed
  have le': "\<forall>(prev, cur) \<in> set sel.
               unixNano (rd_timestamp prev) \<le> unixNano (rd_timestamp cur)"
    using le sub by blast
  have c2: "map itp_X sampled = map (\<lambda>(prev, cur). Format_RFC3339 (rd_timestamp cur)) sel"
    using c1 by (rule points_X)
  have c4: "\<forall>pt \<in> set sampled. 0 \<le> itp_Y pt \<and> itp_Y pt \<le> 120"
    using c1 le' by (rule points_Y)
  have c5: "int (length sampled) = int (length sel)"
    using c1 by (metis length_map)
  have c6: "(let pairs = spec_pairs (List.map_filter scanTimelineRow rows);
            n = length pairs;
            lim = (if limit < 1 then 5000 else if 10000 < limit then 10000 else limit)
        in if int n \<le> lim then sel = pairs
           else length sel = nat lim
              \<and> sel = map (\<lambda>i. pairs ! nat (sampleIndex n lim (int i))) [0..<nat lim]
              \<and> (\<forall>i<nat lim. 0 \<le> sampleIndex n lim (int i) \<and> sampleIndex n lim (int i) < int n)
              \<and> (\<forall>i<nat lim. \<forall>j<nat lim.
                    i \<le> j \<longrightarrow> sampleIndex n lim (int i) \<le> sampleIndex n lim (int j))
              \<and> (n < 2 ^ 36 \<longrightarrow>
                    (\<forall>i<nat lim. spec_index n lim (int i) - 1 \<le> sampleIndex n lim (int i)
                                 \<and> sampleIndex n lim (int i) \<le> spec_index n lim (int i))))"
    unfolding Let_def records_def [symmetric] pairs_def [symmetric] n_def [symmetric]
      lim_def [symmetric]
    using inside mono near by (simp add: sel_def)
  have "GetIntervalTimeline s (Inr rows) hours limit = Inr res
    \<and> map Some (itr_Points res) = map (\<lambda>(prev, cur). intervalPoint prev cur) sel
    \<and> map itp_X (itr_Points res) = map (\<lambda>(prev, cur). Format_RFC3339 (rd_timestamp cur)) sel
    \<and> sorted (map (\<lambda>(prev, cur). unixNano (rd_timestamp cur)) sel)
    \<and> (\<forall>pt \<in> set (itr_Points res). 0 \<le> itp_Y pt \<and> itp_Y pt \<le> 120)
    \<and> itr_TotalPoints res = int (length sel)"
    using run c1 c2 c3 c4 c5 by (simp add: res_def)
  then show ?thesis
    using c6 by blast
qed

theorem GetIntervalTimeline_points_witness:
  "\<not> closed pending_store
   \<and> sorted (map (\<lambda>r. unixNano (rd_timestamp r))
        (List.map_filter scanTimelineRow
           [timeline_row ''2025-01-13T09:20:00Z'', timeline_row ''2025-01-13T09:20:30Z'',
            timeline_row ''2025-01-13T09:21:00Z'', timeline_row ''2025-01-13T12:00:00Z'',
            timeline_row ''2025-01-13T12:01:00Z'']))
   \<and> (\<exists>res. GetIntervalTimeline pending_store
          (Inr [timeline_row ''2025-01-13T09:20:00Z'', timeline_row ''2025-01-13T09:20:30Z'',
                timeline_row ''2025-01-13T09:21:00Z'', timeline_row ''2025-01-13T12:00:00Z'',
                timeline_row ''2025-01-13T12:01:00Z'']) 24 2 = Inr res
        \<and> itr_TotalPoints res = 2
        \<and> map itp_X (itr_Points res) = [''2025-01-13T09:20:30Z'', ''2025-01-13T09:21:00Z''])"
proof -
  let ?rows = "[timeline_row ''2025-01-13T09:20:00Z'', timeline_row ''2025-01-13T09:20:30Z'',
                timeline_row ''2025-01-13T09:21:00Z'', timeline_row ''2025-01-13T12:00:00Z'',
                timeline_row ''2025-01-13T12:01:00Z'']"
  let ?r0 = "\<lparr>rd_timestamp = \<lparr>unixNano = 1736760000000000000, zoneOffset = 0\<rparr>, rd_model = ''m''\<rparr>"
  let ?r1 = "\<lparr>rd_timestamp = \<lparr>unixNano = 1736760030000000000, zoneOffset = 0\<rparr>, rd_model = ''m''\<rparr>"
  let ?r2 = "\<lparr>rd_timestamp = \<lparr>unixNano = 1736760060000000000, zoneOffset = 0\<rparr>, rd_model = ''m''\<rparr>"
  let ?r3 = "\<lparr>rd_timestamp = \<lparr>unixNano = 1736769600000000000, zoneOffset = 0\<rparr>, rd_model = ''m''\<rparr>"
  let ?r4 = "\<lparr>rd_timestamp = \<lparr>unixNano = 1736769660000000000, zoneOffset = 0\<rparr>, rd_model = ''m''\<rparr>"
  have h1: "\<not> closed pending_store"
    by (simp add: pending_store_def)
  have recs: "List.map_filter scanTimelineRow ?rows = [?r0, ?r1, ?r2, ?r3, ?r4]"
    by code_simp
  have h2: "sorted (map (\<lambda>r. unixNano (rd_timestamp r)) (List.map_filter scanTimelineRow ?rows))"
    unfolding recs by simp
  have pairs: "spec_pairs [?r0, ?r1, ?r2, ?r3, ?r4] = [(?r0, ?r1), (?r1, ?r2), (?r3, ?r4)]"
    by (simp add: spec_pairs_def Minute_def Second_def)
  have i0: "sampleIndex 3 2 0 = 0" and i1: "sampleIndex 3 2 1 = 1"
    by code_simp+
  have x1: "Format_RFC3339 \<lparr>unixNano = 1736760030000000000, zoneOffset = 0\<rparr>
      = ''2025-01-13T09:20:30Z''"
    by code_simp
  have x2: "Format_RFC3339 \<lparr>unixNano = 1736760060000000000, zoneOffset = 0\<rparr>
      = ''2025-01-13T09:21:00Z''"
    by code_simp
  from GetIntervalTimeline_points [OF h1 h2, of 24 2]
  obtain res sel where run: "GetIntervalTimeline pending_store (Inr ?rows) 24 2 = Inr res"
    and xs: "map itp_X (itr_Points res)
        = map (\<lambda>(prev, cur). Format_RFC3339 (rd_timestamp cur)) sel"
    and total: "itr_TotalPoints res = int (length sel)"
    and choice: "(let pairs = spec_pairs (List.map_filter scanTimelineRow ?rows);
            n = length pairs;
            lim = (if (2::int) < 1 then 5000 else if 10000 < (2::int) then 10000 else 2)
        in if int n \<le> lim then sel = pairs
           else length sel = nat lim
              \<and> sel = map (\<lambda>i. pairs ! nat (sampleIndex n lim (int i))) [0..<nat lim]
              \<and> (\<forall>i<nat lim. 0 \<le> sampleIndex n lim (int i) \<and> sampleIndex n lim (int i) < int n)
              \<and> (\<forall>i<nat lim. \<forall>j<nat lim.
                    i \<le> j \<longrightarrow> sampleIndex n lim (int i) \<le> sampleIndex n lim (int j))
              \<and> (n < 2 ^ 36 \<longrightarrow>
                    (\<forall>i<nat lim. spec_index n lim (int i) - 1 \<le> sampleIndex n lim (int i)
                                 \<and> sampleIndex n lim (int i) \<le> spec_index n lim (int i))))"
    by blast
  have n: "length [(?r0, ?r1), (?r1, ?r2), (?r3, ?r4)] = 3"
    by simp
  have l: "(if (2::int) < 1 then 5000 else if 10000 < (2::int) then 10000 else 2) = (2::int)"
    by simp
  have c: "sel = map (\<lambda>i. [(?r0, ?r1), (?r1, ?r2), (?r3, ?r4)] ! nat (sampleIndex 3 2 (int i)))
                   [0..<nat 2]"
    using choice unfolding recs pairs Let_def n l by simp
  have u: "[0..<nat 2] = [0, 1]"
    by (simp add: upt_rec)
  have sel: "sel = [(?r0, ?r1), (?r1, ?r2)]"
    unfolding c u by (simp add: i0 i1)
  have t: "itr_TotalPoints res = 2"
    unfolding total sel by simp
  have x: "map itp_X (itr_Points res) = [''2025-01-13T09:20:30Z'', ''2025-01-13T09:21:00Z'']"
    unfolding xs sel by (simp add: x1 x2)
  show ?thesis
    by (intro conjI exI [of _ res] h1 h2 run t x)
qed


end
